theory Spec2Isabelle
  imports Complex_Main "HOL-Library.Sublist"
begin

section \<open>Vectors of the host geometry kernel\<close>

text \<open>
  The macro \<^verbatim>\<open>EdgeLoopToSketch.py\<close> computes with the host's \<^verbatim>\<open>FreeCAD.Vector\<close>.
  Coordinates are modelled as real numbers (the idealisation of the host's doubles);
  the operations below are the vector methods the macro calls.
\<close>

datatype vec = Vector (vx: real) (vy: real) (vz: real)

definition vsub :: "vec \<Rightarrow> vec \<Rightarrow> vec" where
  "vsub a b = Vector (vx a - vx b) (vy a - vy b) (vz a - vz b)"

definition vadd :: "vec \<Rightarrow> vec \<Rightarrow> vec" where
  "vadd a b = Vector (vx a + vx b) (vy a + vy b) (vz a + vz b)"

definition multiply :: "vec \<Rightarrow> real \<Rightarrow> vec" where
  "multiply a k = Vector (vx a * k) (vy a * k) (vz a * k)"

definition cross :: "vec \<Rightarrow> vec \<Rightarrow> vec" where
  "cross a b = Vector (vy a * vz b - vz a * vy b)
                      (vz a * vx b - vx a * vz b)
                      (vx a * vy b - vy a * vx b)"

definition dot :: "vec \<Rightarrow> vec \<Rightarrow> real" where
  "dot a b = vx a * vx b + vy a * vy b + vz a * vz b"

definition Length :: "vec \<Rightarrow> real" where
  "Length v = sqrt (dot v v)"

definition normalize :: "vec \<Rightarrow> vec" where
  "normalize v = Vector (vx v / Length v) (vy v / Length v) (vz v / Length v)"

definition isEqual :: "vec \<Rightarrow> vec \<Rightarrow> real \<Rightarrow> bool" where
  "isEqual a b tol = (Length (vsub a b) \<le> tol)"

definition distanceToPoint :: "vec \<Rightarrow> vec \<Rightarrow> real" where
  "distanceToPoint a b = Length (vsub a b)"

text \<open>\<^verbatim>\<open>tolerance = 1e-6\<close>, the constant of the plane fitter and of the constraint passes.\<close>

definition tolerance :: real where
  "tolerance = 1 / 1000000"

section \<open>Curves and edges\<close>

text \<open>
  The classes of the host's \<^verbatim>\<open>Part\<close> module that the macro names, with the arguments it
  passes to their constructors. \<^verbatim>\<open>BSplineCurve\<close> lists its data in the order of
  \<^verbatim>\<open>buildFromPolesMultsKnots(poles, mults, knots, periodic, degree)\<close>.
  \<open>OtherCurve\<close> carries the type name of any other curve class.
\<close>

datatype part =
    Line
  | LineSegment vec vec
  | Circle vec vec real
  | ArcOfCircle vec vec vec
  | BSplineCurve "vec list" "nat list" "real list" bool nat
  | OtherCurve string

text \<open>\<^verbatim>\<open>type(edge.Curve).__name__\<close>\<close>

fun type_name :: "part \<Rightarrow> string" where
  "type_name Line = ''Line''"
| "type_name (LineSegment a b) = ''LineSegment''"
| "type_name (Circle c a r) = ''Circle''"
| "type_name (ArcOfCircle a b c) = ''ArcOfCircle''"
| "type_name (BSplineCurve ps ms ks per d) = ''BSplineCurve''"
| "type_name (OtherCurve n) = n"

text \<open>
  An edge of the selected shape: its curve, its vertices (\<^verbatim>\<open>edge.Vertexes\<close>, as points),
  its arc length (\<^verbatim>\<open>edge.Length\<close>), its parameter range and its evaluation function.
\<close>

record edge =
  Curve :: part
  Vertexes :: "vec list"
  ArcLength :: real
  ParameterRange :: "real \<times> real"
  valueAt :: "real \<Rightarrow> vec"

section \<open>Errors\<close>

text \<open>
  The macro raises \<^verbatim>\<open>Exception(message)\<close>; each raise is recorded with its message and
  with the error kind of the specification's taxonomy it belongs to. \<open>HostError\<close>
  stands for an exception raised inside a call of the host API.
\<close>

datatype error_kind =
    InsufficientDataError
  | PlanarityError
  | UnsupportedGeometryError
  | DestinationNotFoundError
  | HostError

datatype error = Exception error_kind string

section \<open>Plane fitter\<close>

text \<open>
  The search for three non-collinear points (lines 68-77 and 110-119):
  \<open>inner_search p0 v1 qs\<close> is the loop over \<open>j\<close>, \<open>qs\<close> the points after index \<open>i\<close>;
  \<open>outer_search p0 ps\<close> is the loop over \<open>i\<close>, \<open>ps\<close> the points after index 0.
  The first cross product longer than the tolerance ends both loops.
\<close>

fun inner_search :: "vec \<Rightarrow> vec \<Rightarrow> vec list \<Rightarrow> vec option" where
  "inner_search p0 v1 [] = None"
| "inner_search p0 v1 (q # qs) =
     (if Length (cross v1 (vsub q p0)) > tolerance
      then Some (normalize (cross v1 (vsub q p0)))
      else inner_search p0 v1 qs)"

fun outer_search :: "vec \<Rightarrow> vec list \<Rightarrow> vec option" where
  "outer_search p0 [] = None"
| "outer_search p0 (p # ps) =
     (case inner_search p0 (vsub p p0) ps of
        Some n \<Rightarrow> Some n
      | None \<Rightarrow> outer_search p0 ps)"

fun find_normal :: "vec list \<Rightarrow> vec option" where
  "find_normal [] = None"
| "find_normal (p0 # ps) = outer_search p0 ps"

text \<open>
  The coplanarity loop (lines 83-86 and 125-128): \<open>False\<close> as soon as one point is
  farther than the tolerance from the plane through \<open>p0\<close> with normal \<open>n\<close>.
\<close>

fun all_within :: "vec \<Rightarrow> vec \<Rightarrow> vec list \<Rightarrow> bool" where
  "all_within p0 n [] = True"
| "all_within p0 n (p # ps) =
     (if \<bar>dot (vsub p p0) n\<bar> > tolerance then False else all_within p0 n ps)"

text \<open>
  Gathering the vertices (lines 94-102): every vertex is appended to \<open>all_points\<close>, and to
  \<open>unique_points\<close> unless it equals, within the tolerance, a point already there.
  The state of the loops is the pair \<open>(unique_points, all_points)\<close>.
\<close>

fun gather_vertexes :: "vec list \<times> vec list \<Rightarrow> vec list \<Rightarrow> vec list \<times> vec list" where
  "gather_vertexes (us, as) [] = (us, as)"
| "gather_vertexes (us, as) (pt # pts) =
     gather_vertexes
       (if list_ex (\<lambda>existing. isEqual pt existing tolerance) us then us else us @ [pt],
        as @ [pt]) pts"

fun gather_edges :: "vec list \<times> vec list \<Rightarrow> edge list \<Rightarrow> vec list \<times> vec list" where
  "gather_edges st [] = st"
| "gather_edges st (e # es) = gather_edges (gather_vertexes st (Vertexes e)) es"

text \<open>The multi-edge branch (lines 93-128); it returns the plane point and normal.\<close>

definition fit_plane_multi :: "edge list \<Rightarrow> error + (vec \<times> vec)" where
  "fit_plane_multi selected_edges =
     (let (unique_points, all_points) = gather_edges ([], []) selected_edges in
      if length unique_points < 3
      then Inl (Exception InsufficientDataError
             ''Selected edges do not provide enough unique points to define a plane.'')
      else (case find_normal unique_points of
              None \<Rightarrow> Inl (Exception PlanarityError
                ''Selected edges are collinear and cannot define a plane.'')
            | Some plane_normal \<Rightarrow>
                if all_within (hd unique_points) plane_normal all_points
                then Inr (hd unique_points, plane_normal)
                else Inl (Exception PlanarityError ''Selected edges are not coplanar.'')))"

text \<open>The single-edge branch (lines 47-90).\<close>

definition fit_plane_single :: "edge \<Rightarrow> error + (vec \<times> vec)" where
  "fit_plane_single e =
     (case Curve e of
        Circle center axis radius \<Rightarrow> Inr (center, normalize axis)
      | BSplineCurve poles mults knots periodic degree \<Rightarrow>
          if length poles < 3
          then Inl (Exception InsufficientDataError
                 ''B-spline does not have enough control points to define a plane.'')
          else (case find_normal poles of
                  None \<Rightarrow> Inl (Exception PlanarityError
                    ''B-spline control points are collinear and cannot define a plane.'')
                | Some plane_normal \<Rightarrow>
                    if all_within (hd poles) plane_normal poles
                    then Inr (hd poles, plane_normal)
                    else Inl (Exception PlanarityError
                      ''B-spline is non-planar (3D curve). Select additional edges to define the plane.''))
      | c \<Rightarrow> Inl (Exception UnsupportedGeometryError
               (''Single edge of type '' @ CHR 0x27 # type_name c @
                CHR 0x27 # '' cannot define a plane. Select at least 2 edges.'')))"

section \<open>Frame builder\<close>

text \<open>
  The three ways the macro constructs a \<^verbatim>\<open>FreeCAD.Rotation\<close>: \<^verbatim>\<open>Rotation()\<close>,
  \<^verbatim>\<open>Rotation(axis, angle_in_degrees)\<close> and \<^verbatim>\<open>Rotation(from, to)\<close>; and
  \<^verbatim>\<open>FreeCAD.Placement(base, rotation)\<close>.
\<close>

datatype rotation =
    Rotation
  | RotationAxisAngle vec real
  | RotationFromTo vec vec

datatype placement = Placement (Base: vec) (Rot: rotation)

text \<open>\<^verbatim>\<open>create_sketch_placement\<close> (lines 176-186).\<close>

definition create_sketch_placement :: "vec \<Rightarrow> vec \<Rightarrow> placement" where
  "create_sketch_placement normal0 center =
     (let normal = (if Length normal0 > 1 / 1000000 then normalize normal0 else Vector 0 0 1);
          z_axis = Vector 0 0 1;
          rotation =
            (if \<bar>dot normal z_axis\<bar> > 999 / 1000
             then (if vz normal > 0 then Rotation else RotationAxisAngle (Vector 1 0 0) 180)
             else RotationFromTo z_axis normal)
      in Placement center rotation)"

text \<open>
  Modelled from the spec: the host's \<^verbatim>\<open>Rotation.multVec\<close> is not part of the repository.
  \<open>Rotation\<close> is the identity; \<open>RotationAxisAngle\<close> turns by the angle (in degrees)
  about the axis; \<open>RotationFromTo a b\<close> is the minimal rotation mapping the direction of
  \<open>a\<close> onto the direction of \<open>b\<close> (a half turn about an axis perpendicular to \<open>a\<close> when
  the two are opposite).
\<close>

definition rotate_about :: "vec \<Rightarrow> real \<Rightarrow> real \<Rightarrow> vec \<Rightarrow> vec" where
  "rotate_about u c s v =
     vadd (vadd (multiply v c) (multiply (cross u v) s)) (multiply u (dot u v * (1 - c)))"

fun multVec :: "rotation \<Rightarrow> vec \<Rightarrow> vec" where
  "multVec Rotation v = v"
| "multVec (RotationAxisAngle axis deg) v =
     rotate_about (normalize axis) (cos (deg * pi / 180)) (sin (deg * pi / 180)) v"
| "multVec (RotationFromTo a b) v =
     (let u = normalize a; w = normalize b; c = dot u w; k = cross u w in
      if 1 + c = 0
      then (let p = (if Length (cross u (Vector 1 0 0)) > 0
                     then normalize (cross u (Vector 1 0 0))
                     else normalize (cross u (Vector 0 1 0)))
            in rotate_about p (- 1) 0 v)
      else vadd (vadd (multiply v c) (cross k v)) (multiply k (dot k v / (1 + c))))"

section \<open>The sketch and the host interface\<close>

text \<open>
  \<^verbatim>\<open>Sketcher.Constraint('Coincident', g1, p1, g2, p2)\<close>, \<^verbatim>\<open>('Radius', g, value)\<close>,
  \<^verbatim>\<open>('Block', g)\<close> and \<^verbatim>\<open>('Distance', g, value)\<close>.
\<close>

datatype constraint =
    Coincident int int int int
  | Radius int real
  | Block int
  | Distance int real

text \<open>
  Console output (\<^verbatim>\<open>FreeCAD.Console.PrintMessage/PrintWarning/PrintError\<close>); the text is
  the fixed part of the message, the interpolated values are left out.
\<close>

datatype msg = PrintMessage string | PrintWarning string | PrintError string

text \<open>
  The sketch under construction, with the console: \<open>Geometry\<close> holds each geometry object
  with its construction flag, \<open>Constraints\<close> each constraint with its driving flag.
\<close>

record state =
  Geometry :: "(part \<times> bool) list"
  Constraints :: "(constraint \<times> bool) list"
  Console :: "msg list"

text \<open>
  What the host decides: whether it builds and accepts a geometry object
  (\<^verbatim>\<open>sketch.addGeometry\<close> raises otherwise), whether it accepts a constraint
  (\<^verbatim>\<open>sketch.addConstraint\<close> raises otherwise), the point of a geometry object at a
  position (\<^verbatim>\<open>sketch.getPoint\<close>, \<open>None\<close> when it raises), the realized \<^verbatim>\<open>Center\<close> and
  \<^verbatim>\<open>Radius\<close> of a circle or arc, and whether a curve class outside the macro's own has
  both \<^verbatim>\<open>StartPoint\<close> and \<^verbatim>\<open>EndPoint\<close>.
\<close>

record host =
  addGeometry_ok :: "state \<Rightarrow> part \<Rightarrow> bool"
  addConstraint_ok :: "state \<Rightarrow> constraint \<Rightarrow> bool"
  point_of :: "part \<Rightarrow> int \<Rightarrow> vec option"
  CenterOf :: "part \<Rightarrow> vec"
  RadiusOf :: "part \<Rightarrow> real"
  other_has_endpoints :: "string \<Rightarrow> bool"

text \<open>
  A call that raises returns \<open>Inl\<close> of the exception and of the sketch as it is at the
  raise; \<open>bind\<close> sequences two calls, \<open>raise_at\<close> adds the sketch to an exception raised
  by a computation without effects.
\<close>

fun bind :: "'err + 'a \<Rightarrow> ('a \<Rightarrow> 'err + 'b) \<Rightarrow> 'err + 'b" where
  "bind (Inl err) f = Inl err"
| "bind (Inr a) f = f a"

definition raise_at :: "state \<Rightarrow> error + 'a \<Rightarrow> (error \<times> state) + 'a" where
  "raise_at s m = (case m of Inl e \<Rightarrow> Inl (e, s) | Inr a \<Rightarrow> Inr a)"

text \<open>Python list indexing: a negative index counts from the end, out of range raises.\<close>

definition py_index :: "'a list \<Rightarrow> int \<Rightarrow> 'a option" where
  "py_index xs i =
     (if 0 \<le> i \<and> i < int (length xs) then Some (xs ! nat i)
      else if - int (length xs) \<le> i \<and> i < 0 then Some (xs ! nat (int (length xs) + i))
      else None)"

text \<open>\<^verbatim>\<open>sketch.Geometry[geo_idx]\<close>\<close>

definition Geometry_at :: "state \<Rightarrow> int \<Rightarrow> (error \<times> state) + part" where
  "Geometry_at s geo_idx =
     (case py_index (Geometry s) geo_idx of
        None \<Rightarrow> Inl (Exception HostError ''list index out of range'', s)
      | Some g \<Rightarrow> Inr (fst g))"

text \<open>\<^verbatim>\<open>sketch.addGeometry(geo, construction)\<close> returns the index of the new geometry.\<close>

definition addGeometry :: "host \<Rightarrow> state \<Rightarrow> part \<Rightarrow> bool \<Rightarrow> (error \<times> state) + (state \<times> int)" where
  "addGeometry h s g construction =
     (if addGeometry_ok h s g
      then Inr (s\<lparr>Geometry := Geometry s @ [(g, construction)]\<rparr>, int (length (Geometry s)))
      else Inl (Exception HostError ''addGeometry'', s))"

text \<open>\<^verbatim>\<open>sketch.addConstraint(c)\<close> returns the index of the new, driving, constraint.\<close>

definition addConstraint ::
  "host \<Rightarrow> state \<Rightarrow> constraint \<Rightarrow> (error \<times> state) + (state \<times> int)" where
  "addConstraint h s c =
     (if addConstraint_ok h s c
      then Inr (s\<lparr>Constraints := Constraints s @ [(c, True)]\<rparr>, int (length (Constraints s)))
      else Inl (Exception HostError ''addConstraint'', s))"

text \<open>\<^verbatim>\<open>sketch.setDriving(constraint_idx, driving)\<close>\<close>

definition setDriving :: "state \<Rightarrow> int \<Rightarrow> bool \<Rightarrow> state" where
  "setDriving s i d =
     s\<lparr>Constraints := (Constraints s)[nat i := (fst (Constraints s ! nat i), d)]\<rparr>"

text \<open>\<^verbatim>\<open>sketch.getPoint(geo_idx, pos)\<close>\<close>

definition getPoint :: "host \<Rightarrow> state \<Rightarrow> int \<Rightarrow> int \<Rightarrow> (error \<times> state) + vec" where
  "getPoint h s geo_idx pos =
     (case py_index (Geometry s) geo_idx of
        None \<Rightarrow> Inl (Exception HostError ''getPoint'', s)
      | Some g \<Rightarrow> (case point_of h (fst g) pos of
                    None \<Rightarrow> Inl (Exception HostError ''getPoint'', s)
                  | Some p \<Rightarrow> Inr p))"

definition warn :: "state \<Rightarrow> string \<Rightarrow> state" where
  "warn s m = s\<lparr>Console := Console s @ [PrintWarning m]\<rparr>"

section \<open>Curve re-projector\<close>

text \<open>
  \<open>inverse_placement\<close> is the map \<^verbatim>\<open>inverse_placement.multVec\<close> into the sketch's frame.
  \<^verbatim>\<open>edge.Vertexes[0]\<close> and \<^verbatim>\<open>edge.Vertexes[-1]\<close> raise on an edge without vertices.
\<close>

definition Vertexes_at :: "edge \<Rightarrow> int \<Rightarrow> error + vec" where
  "Vertexes_at e i =
     (case py_index (Vertexes e) i of
        None \<Rightarrow> Inl (Exception HostError ''list index out of range'')
      | Some p \<Rightarrow> Inr p)"

text \<open>\<^verbatim>\<open>add_line_to_sketch\<close> (lines 274-280).\<close>

definition add_line_to_sketch ::
  "host \<Rightarrow> state \<Rightarrow> edge \<Rightarrow> (vec \<Rightarrow> vec) \<Rightarrow> (error \<times> state) + (state \<times> int)" where
  "add_line_to_sketch h s e inverse_placement =
     bind (raise_at s (Vertexes_at e 0)) (\<lambda>p0.
     bind (raise_at s (Vertexes_at e (- 1))) (\<lambda>p1.
       addGeometry h s (LineSegment (inverse_placement p0) (inverse_placement p1)) False))"

text \<open>The literal \<^verbatim>\<open>3.141592653589793\<close> of line 290.\<close>

definition pi_literal :: real where
  "pi_literal = 3141592653589793 / 1000000000000000"

text \<open>
  \<^verbatim>\<open>add_circle_to_sketch\<close> (lines 283-308). It is called for edges whose curve is a
  \<^verbatim>\<open>Circle\<close>; on another curve the attribute \<^verbatim>\<open>Center\<close> or \<^verbatim>\<open>Radius\<close> is missing.
\<close>

definition add_circle_to_sketch ::
  "host \<Rightarrow> state \<Rightarrow> edge \<Rightarrow> (vec \<Rightarrow> vec) \<Rightarrow> (error \<times> state) + (state \<times> int)" where
  "add_circle_to_sketch h s e inverse_placement =
     (case Curve e of
        Circle center axis radius \<Rightarrow>
          (let center_local = inverse_placement center;
               arc_length = ArcLength e;
               full_circle_length = 2 * pi_literal * radius
           in if \<bar>arc_length - full_circle_length\<bar> < 1 / 100
              then addGeometry h s (Circle center_local (Vector 0 0 1) radius) False
              else
                bind (raise_at s (Vertexes_at e 0)) (\<lambda>p0.
                bind (raise_at s (Vertexes_at e (- 1))) (\<lambda>p1.
                  (let v_start = inverse_placement p0;
                       v_end = inverse_placement p1;
                       param_range = ParameterRange e;
                       mid_param = (fst param_range + snd param_range) / 2;
                       mid_point_global = valueAt e mid_param;
                       v_mid = inverse_placement mid_point_global
                   in addGeometry h s (ArcOfCircle v_start v_mid v_end) False))))
      | _ \<Rightarrow> Inl (Exception HostError ''AttributeError'', s))"

text \<open>\<^verbatim>\<open>add_bspline_to_sketch\<close> (lines 311-336).\<close>

definition add_bspline_to_sketch ::
  "host \<Rightarrow> state \<Rightarrow> edge \<Rightarrow> (vec \<Rightarrow> vec) \<Rightarrow> (error \<times> state) + (state \<times> int)" where
  "add_bspline_to_sketch h s e inverse_placement =
     (case Curve e of
        BSplineCurve poles mults knots periodic degree \<Rightarrow>
          addGeometry h s
            (BSplineCurve (map inverse_placement poles) mults knots periodic degree) False
      | _ \<Rightarrow> Inl (Exception HostError ''AttributeError'', s))"

text \<open>
  The loop of \<^verbatim>\<open>add_geometry_to_sketch\<close> (lines 248-268): the state is the sketch and the
  list \<open>geo_indices\<close>; an edge whose entry cannot be added is logged and skipped.
\<close>

definition add_edge ::
  "host \<Rightarrow> state \<Rightarrow> edge \<Rightarrow> (vec \<Rightarrow> vec) \<Rightarrow> (error \<times> state) + (state \<times> int)" where
  "add_edge h s e inverse_placement =
     (case Curve e of
        Line \<Rightarrow> add_line_to_sketch h s e inverse_placement
      | Circle c a r \<Rightarrow> add_circle_to_sketch h s e inverse_placement
      | BSplineCurve ps ms ks per d \<Rightarrow> add_bspline_to_sketch h s e inverse_placement
      | _ \<Rightarrow> add_line_to_sketch h (warn s ''Unsupported curve type, converting to line.'')
               e inverse_placement)"

fun reproject ::
  "host \<Rightarrow> (vec \<Rightarrow> vec) \<Rightarrow> state \<times> (int \<times> edge) list \<Rightarrow> edge list
     \<Rightarrow> state \<times> (int \<times> edge) list" where
  "reproject h inverse_placement (s, geo_indices) [] = (s, geo_indices)"
| "reproject h inverse_placement (s, geo_indices) (e # es) =
     (case add_edge h s e inverse_placement of
        Inr (s', geo_index) \<Rightarrow>
          reproject h inverse_placement (s', geo_indices @ [(geo_index, e)]) es
      | Inl (err, s') \<Rightarrow>
          reproject h inverse_placement (warn s' ''Failed to add edge'', geo_indices) es)"

section \<open>Constraint synthesizer\<close>

subsection \<open>Vertex coincidence (lines 445-494)\<close>

text \<open>
  Python's \<^verbatim>\<open>round(x, 6)\<close> on the idealised coordinate: the nearest multiple of \<open>10\<^sup>-\<^sup>6\<close>,
  an exact tie going to the even multiple.
\<close>

definition round_half_even :: "real \<Rightarrow> int" where
  "round_half_even y =
     (let f = \<lfloor>y\<rfloor>; d = y - of_int f
      in if d < 1 / 2 then f
         else if d > 1 / 2 then f + 1
         else if even f then f else f + 1)"

definition round6 :: "real \<Rightarrow> real" where
  "round6 x = of_int (round_half_even (x * 1000000)) / 1000000"

definition rounded_key :: "vec \<Rightarrow> real \<times> real \<times> real" where
  "rounded_key v = (round6 (vx v), round6 (vy v), round6 (vz v))"

text \<open>
  \<open>vertex_map\<close> is a dictionary in insertion order, from the rounded coordinates to the
  list of \<open>(geo_idx, vertex_id)\<close>; \<^verbatim>\<open>vertex_map.setdefault(key, []).append(v)\<close>:
\<close>

type_synonym vertex_map = "((real \<times> real \<times> real) \<times> (int \<times> int) list) list"

fun setdefault_append :: "vertex_map \<Rightarrow> real \<times> real \<times> real \<Rightarrow> int \<times> int \<Rightarrow> vertex_map" where
  "setdefault_append [] k v = [(k, [v])]"
| "setdefault_append ((k', vs) # m) k v =
     (if k' = k then (k', vs @ [v]) # m else (k', vs) # setdefault_append m k v)"

text \<open>\<^verbatim>\<open>hasattr(geo, 'StartPoint') and hasattr(geo, 'EndPoint')\<close>\<close>

fun has_endpoints :: "host \<Rightarrow> part \<Rightarrow> bool" where
  "has_endpoints h (LineSegment a b) = True"
| "has_endpoints h (ArcOfCircle a b c) = True"
| "has_endpoints h (BSplineCurve ps ms ks per d) = True"
| "has_endpoints h (OtherCurve n) = other_has_endpoints h n"
| "has_endpoints h Line = False"
| "has_endpoints h (Circle c a r) = False"

fun is_Circle :: "part \<Rightarrow> bool" where
  "is_Circle (Circle c a r) = True"
| "is_Circle g = False"

fun is_ArcOfCircle :: "part \<Rightarrow> bool" where
  "is_ArcOfCircle (ArcOfCircle a b c) = True"
| "is_ArcOfCircle g = False"

fun is_LineSegment :: "part \<Rightarrow> bool" where
  "is_LineSegment (LineSegment a b) = True"
| "is_LineSegment g = False"

text \<open>The first loop (lines 453-477) fills the vertex map.\<close>

fun collect_vertices ::
  "host \<Rightarrow> state \<times> vertex_map \<Rightarrow> (int \<times> edge) list
     \<Rightarrow> (error \<times> state) + (state \<times> vertex_map)" where
  "collect_vertices h (s, vertex_map) [] = Inr (s, vertex_map)"
| "collect_vertices h (s, vertex_map) ((geo_idx, original_edge) # rest) =
     bind (Geometry_at s geo_idx) (\<lambda>geo.
       if is_Circle geo then collect_vertices h (s, vertex_map) rest
       else if has_endpoints h geo then
         (case bind (getPoint h s geo_idx 1) (\<lambda>vertex1.
               bind (getPoint h s geo_idx 2) (\<lambda>vertex2. Inr (vertex1, vertex2))) of
            Inr (vertex1, vertex2) \<Rightarrow>
              collect_vertices h
                (s, setdefault_append
                      (setdefault_append vertex_map (rounded_key vertex1) (geo_idx, 1))
                      (rounded_key vertex2) (geo_idx, 2)) rest
          | Inl (err, s') \<Rightarrow>
              collect_vertices h (warn s' ''Could not get points for geometry'', vertex_map) rest)
       else collect_vertices h (s, vertex_map) rest)"

text \<open>The second loop (lines 482-492) walks the groups in insertion order.\<close>

fun constrain_groups :: "host \<Rightarrow> state \<Rightarrow> vertex_map \<Rightarrow> state" where
  "constrain_groups h s [] = s"
| "constrain_groups h s ((coord_key, vertex_list) # rest) =
     (if length vertex_list > 1
      then (let base = vertex_list ! 0; other = vertex_list ! 1 in
            case addConstraint h s (Coincident (fst base) (snd base) (fst other) (snd other)) of
              Inr (s', i) \<Rightarrow> constrain_groups h s' rest
            | Inl (err, s') \<Rightarrow> constrain_groups h (warn s' ''Failed to constrain'') rest)
      else constrain_groups h s rest)"

definition add_vertex_coincident_constraints ::
  "host \<Rightarrow> state \<Rightarrow> (int \<times> edge) list \<Rightarrow> (error \<times> state) + state" where
  "add_vertex_coincident_constraints h s geo_indices =
     bind (collect_vertices h (s, []) geo_indices) (\<lambda>(s', vertex_map).
       Inr (constrain_groups h s' vertex_map))"

subsection \<open>Center anchoring (lines 357-417)\<close>

text \<open>
  The body shared by the \<^verbatim>\<open>ArcOfCircle\<close> and the \<^verbatim>\<open>Circle\<close> branch; the state of the
  loop is the sketch and \<open>construction_line_indices\<close>.
\<close>

definition anchor_center ::
  "host \<Rightarrow> state \<times> int list \<Rightarrow> int \<Rightarrow> part \<Rightarrow> (error \<times> state) + (state \<times> int list)" where
  "anchor_center h st geo_idx geo =
     (let s = fst st; construction_line_indices = snd st;
          origin = Vector 0 0 0; center = CenterOf h geo;
          distance_to_origin = Length center
      in if distance_to_origin > tolerance
         then
           bind (addGeometry h s (LineSegment center origin) True) (\<lambda>(s1, line_idx).
           bind (addConstraint h s1 (Coincident line_idx 1 geo_idx 3)) (\<lambda>(s2, i2).
           bind (addConstraint h s2 (Coincident line_idx 2 (- 1) 1)) (\<lambda>(s3, i3).
             Inr (s3, construction_line_indices @ [line_idx]))))
         else
           bind (addConstraint h s (Coincident geo_idx 3 (- 1) 1)) (\<lambda>(s1, i1).
             Inr (s1, construction_line_indices)))"

fun anchor_loop ::
  "host \<Rightarrow> state \<times> int list \<Rightarrow> (int \<times> edge) list
     \<Rightarrow> (error \<times> state) + (state \<times> int list)" where
  "anchor_loop h st [] = Inr st"
| "anchor_loop h st ((geo_idx, original_edge) # rest) =
     bind (Geometry_at (fst st) geo_idx) (\<lambda>geo.
       if is_ArcOfCircle geo then
         bind (anchor_center h st geo_idx geo) (\<lambda>st'. anchor_loop h st' rest)
       else if is_Circle geo then
         bind (anchor_center h st geo_idx geo) (\<lambda>st'. anchor_loop h st' rest)
       else anchor_loop h st rest)"

fun block_loop :: "host \<Rightarrow> state \<Rightarrow> int list \<Rightarrow> (error \<times> state) + state" where
  "block_loop h s [] = Inr s"
| "block_loop h s (line_idx # rest) =
     bind (addConstraint h s (Block line_idx)) (\<lambda>(s', i). block_loop h s' rest)"

definition add_center_construction_lines ::
  "host \<Rightarrow> state \<Rightarrow> (int \<times> edge) list \<Rightarrow> (error \<times> state) + state" where
  "add_center_construction_lines h s geo_indices =
     bind (anchor_loop h (s, []) geo_indices) (\<lambda>(s', construction_line_indices).
       block_loop h s' construction_line_indices)"

subsection \<open>Radius locking (lines 422-442)\<close>

fun add_radius_constraints :: "host \<Rightarrow> state \<Rightarrow> (int \<times> edge) list \<Rightarrow> (error \<times> state) + state" where
  "add_radius_constraints h s [] = Inr s"
| "add_radius_constraints h s ((geo_idx, original_edge) # rest) =
     bind (Geometry_at s geo_idx) (\<lambda>geo.
       if is_ArcOfCircle geo then
         bind (addConstraint h s (Radius geo_idx (RadiusOf h geo))) (\<lambda>(s', i).
           add_radius_constraints h s' rest)
       else if is_Circle geo then
         bind (addConstraint h s (Radius geo_idx (RadiusOf h geo))) (\<lambda>(s', i).
           add_radius_constraints h s' rest)
       else add_radius_constraints h s rest)"

subsection \<open>Reference distancing (lines 497-520)\<close>

fun add_line_distance_constraints :: "host \<Rightarrow> state \<Rightarrow> (int \<times> edge) list \<Rightarrow> (error \<times> state) + state" where
  "add_line_distance_constraints h s [] = Inr s"
| "add_line_distance_constraints h s ((geo_idx, original_edge) # rest) =
     bind (Geometry_at s geo_idx) (\<lambda>geo.
       if is_LineSegment geo then
         bind (getPoint h s geo_idx 1) (\<lambda>p1.
         bind (getPoint h s geo_idx 2) (\<lambda>p2.
         bind (addConstraint h s (Distance geo_idx (distanceToPoint p1 p2))) (\<lambda>(s', constraint_idx).
           add_line_distance_constraints h (setDriving s' constraint_idx False) rest)))
       else add_line_distance_constraints h s rest)"

subsection \<open>The four passes in order (lines 339-354 and 246-271)\<close>

definition build_constraint_data :: "host \<Rightarrow> state \<Rightarrow> (int \<times> edge) list \<Rightarrow> (error \<times> state) + state" where
  "build_constraint_data h s geo_indices =
     bind (add_vertex_coincident_constraints h s geo_indices) (\<lambda>s1.
     bind (add_center_construction_lines h s1 geo_indices) (\<lambda>s2.
     bind (add_radius_constraints h s2 geo_indices) (\<lambda>s3.
       add_line_distance_constraints h s3 geo_indices)))"

definition add_geometry_to_sketch ::
  "host \<Rightarrow> state \<Rightarrow> edge list \<Rightarrow> (vec \<Rightarrow> vec) \<Rightarrow> (error \<times> state) + state" where
  "add_geometry_to_sketch h s edges inverse_placement =
     (let (s', geo_indices) = reproject h inverse_placement (s, []) edges
      in build_constraint_data h s' geo_indices)"

section \<open>The document and its transaction\<close>

text \<open>
  The objects of the host document that the macro reads or creates: a body with the names
  of the objects dropped into it, a sketch with its placement, its attachment (support
  body, map mode and attachment offset) and its content, and any other object.
\<close>

datatype doc_object =
    BodyObject string "string list"
  | SketchObject string placement "(string \<times> string \<times> placement) option"
      "(part \<times> bool) list" "(constraint \<times> bool) list"
  | OtherObject string

fun Name :: "doc_object \<Rightarrow> string" where
  "Name (BodyObject n members) = n"
| "Name (SketchObject n pl att geo cons) = n"
| "Name (OtherObject n) = n"

fun is_Body :: "doc_object \<Rightarrow> bool" where
  "is_Body (BodyObject n members) = True"
| "is_Body obj = False"

text \<open>
  Modelled from the spec: the host's transactions are not part of the repository; the
  interface is "begin/commit/abort a named transaction (atomic all-or-nothing)".
  \<open>Transaction\<close> holds the objects as they were when the open transaction began.
\<close>

record document =
  Objects :: "doc_object list"
  Transaction :: "doc_object list option"

definition openTransaction :: "document \<Rightarrow> document" where
  "openTransaction doc = doc\<lparr>Transaction := Some (Objects doc)\<rparr>"

definition abortTransaction :: "document \<Rightarrow> document" where
  "abortTransaction doc =
     (case Transaction doc of
        None \<Rightarrow> doc
      | Some saved \<Rightarrow> doc\<lparr>Objects := saved, Transaction := None\<rparr>)"

definition commitTransaction :: "document \<Rightarrow> document" where
  "commitTransaction doc = doc\<lparr>Transaction := None\<rparr>"

definition addObject :: "document \<Rightarrow> doc_object \<Rightarrow> document" where
  "addObject doc obj = doc\<lparr>Objects := Objects doc @ [obj]\<rparr>"

text \<open>\<^verbatim>\<open>doc.getObject(name)\<close>\<close>

definition getObject :: "document \<Rightarrow> string \<Rightarrow> doc_object option" where
  "getObject doc n = find (\<lambda>obj. Name obj = n) (Objects doc)"

text \<open>Writing the content of the sketch under construction into its document object.\<close>

fun store_content :: "string \<Rightarrow> state \<Rightarrow> doc_object \<Rightarrow> doc_object" where
  "store_content n s (SketchObject n' pl att geo cons) =
     (if n' = n then SketchObject n' pl att (Geometry s) (Constraints s)
      else SketchObject n' pl att geo cons)"
| "store_content n s obj = obj"

definition store_sketch :: "document \<Rightarrow> string \<Rightarrow> state \<Rightarrow> document" where
  "store_sketch doc n s = doc\<lparr>Objects := map (store_content n s) (Objects doc)\<rparr>"

text \<open>\<^verbatim>\<open>body.ViewObject.dropObject(sketch, ...)\<close> puts the sketch into the body.\<close>

fun drop_into :: "string \<Rightarrow> string \<Rightarrow> doc_object \<Rightarrow> doc_object" where
  "drop_into body_name n (BodyObject b members) =
     (if b = body_name then BodyObject b (members @ [n]) else BodyObject b members)"
| "drop_into body_name n obj = obj"

definition dropObject :: "document \<Rightarrow> string \<Rightarrow> string \<Rightarrow> document" where
  "dropObject doc body_name n = doc\<lparr>Objects := map (drop_into body_name n) (Objects doc)\<rparr>"

section \<open>The selection, the dialog and the whole operation\<close>

text \<open>
  One entry of \<^verbatim>\<open>getSelectionEx()\<close>: the name of its object, the edges of that object's
  shape and the names of the picked sub-elements.
\<close>

record sel_ex =
  ObjectName :: string
  ShapeEdges :: "edge list"
  SubElementNames :: "string list"

text \<open>
  What the environment decides: the active document, the selection, the answer
  \<open>(item, ok)\<close> of the destination dialog to the options offered, the name the host
  gives a new object, the inverse of a sketch's global placement, and whether the
  calls on the 3D view succeed.
\<close>

record env =
  ActiveDocument :: "document option"
  Selection :: "sel_ex list"
  getItem :: "string list \<Rightarrow> string \<times> bool"
  new_name :: "document \<Rightarrow> string \<Rightarrow> string"
  global_inverse :: "document \<Rightarrow> string \<Rightarrow> vec \<Rightarrow> vec"
  view_ok :: bool

text \<open>
  \<^verbatim>\<open>int(sub_name[4:])\<close> for the digit strings the host produces; any other string
  raises \<^verbatim>\<open>ValueError\<close>.
\<close>

definition py_int :: "string \<Rightarrow> int option" where
  "py_int str =
     (if str \<noteq> [] \<and> list_all (\<lambda>c. c \<in> set ''0123456789'') str
      then Some (int (foldl (\<lambda>a c. 10 * a + (of_char c - 48)) 0 str))
      else None)"

text \<open>The loops of lines 26-33; \<open>None\<close> is the early return on a second object.\<close>

fun collect_sub_names :: "edge list \<Rightarrow> edge list \<Rightarrow> string list \<Rightarrow> error + edge list" where
  "collect_sub_names obj_edges selected_edges [] = Inr selected_edges"
| "collect_sub_names obj_edges selected_edges (sub_name # rest) =
     (if take 4 sub_name = ''Edge''
      then (case py_int (drop 4 sub_name) of
              None \<Rightarrow> Inl (Exception HostError ''ValueError'')
            | Some n \<Rightarrow>
                (case py_index obj_edges (n - 1) of
                   None \<Rightarrow> Inl (Exception HostError ''list index out of range'')
                 | Some e \<Rightarrow> collect_sub_names obj_edges (selected_edges @ [e]) rest))
      else collect_sub_names obj_edges selected_edges rest)"

fun collect_selection ::
  "sel_ex \<Rightarrow> edge list \<Rightarrow> sel_ex list \<Rightarrow> error + (edge list) option" where
  "collect_selection obj selected_edges [] = Inr (Some selected_edges)"
| "collect_selection obj selected_edges (sel # rest) =
     (if ObjectName sel \<noteq> ObjectName obj then Inr None
      else bind (collect_sub_names (ShapeEdges obj) selected_edges (SubElementNames sel))
             (\<lambda>selected_edges'. collect_selection obj selected_edges' rest))"

text \<open>The plane of the selection (lines 42-128) and the centre of the placement (131-136).\<close>

definition fit_plane :: "edge list \<Rightarrow> error + (vec \<times> vec)" where
  "fit_plane selected_edges =
     (if length selected_edges = 1 then fit_plane_single (selected_edges ! 0)
      else fit_plane_multi selected_edges)"

definition placement_center :: "edge list \<Rightarrow> vec \<Rightarrow> vec" where
  "placement_center selected_edges plane_point =
     (if length selected_edges = 1 then plane_point
      else (let all_points = snd (gather_edges ([], []) selected_edges)
            in multiply (foldl vadd (Vector 0 0 0) all_points) (1 / real (length all_points))))"

text \<open>\<^verbatim>\<open>show_destination_dialog\<close> (lines 189-210).\<close>

datatype choice = Standalone | NewBody | ExistingBody string

definition show_destination_dialog :: "env \<Rightarrow> document \<Rightarrow> choice option" where
  "show_destination_dialog ev doc =
     (let body_names = map Name (filter is_Body (Objects doc));
          options = [''<Standalone (Part Workbench)>'', ''<Create New Body (PartDesign)>'']
                      @ body_names;
          (item, ok) = getItem ev options
      in if \<not> ok \<or> item = [] then None
         else if item = ''<Standalone (Part Workbench)>'' then Some Standalone
         else if item = ''<Create New Body (PartDesign)>'' then Some NewBody
         else Some (ExistingBody item))"

text \<open>
  A step inside the \<^verbatim>\<open>try\<close> block returns the exception it raised, if any, with the
  document and the console as they are then.
\<close>

type_synonym step = "error option \<times> document \<times> msg list"

text \<open>\<^verbatim>\<open>create_standalone_sketch\<close> (lines 213-221).\<close>

definition create_standalone_sketch ::
  "host \<Rightarrow> env \<Rightarrow> document \<Rightarrow> msg list \<Rightarrow> placement \<Rightarrow> edge list \<Rightarrow> step" where
  "create_standalone_sketch h ev doc console pl edges =
     (let sketch = new_name ev doc ''Sketch'';
          doc1 = addObject doc (SketchObject sketch pl None [] []);
          inverse_placement = global_inverse ev doc1 sketch
      in case add_geometry_to_sketch h \<lparr>Geometry = [], Constraints = [], Console = console\<rparr>
                edges inverse_placement of
           Inr s \<Rightarrow> (None, store_sketch doc1 sketch s, Console s)
         | Inl (err, s) \<Rightarrow> (Some err, store_sketch doc1 sketch s, Console s))"

text \<open>\<^verbatim>\<open>create_body_sketch\<close> (lines 224-243).\<close>

definition create_body_sketch ::
  "host \<Rightarrow> env \<Rightarrow> document \<Rightarrow> msg list \<Rightarrow> string \<Rightarrow> placement \<Rightarrow> edge list \<Rightarrow> step" where
  "create_body_sketch h ev doc console body pl edges =
     (let sketch = new_name ev doc ''Sketch'';
          doc1 = addObject doc
                   (SketchObject sketch (Placement (Vector 0 0 0) Rotation)
                      (Some (body, ''ObjectXY'', pl)) [] []);
          doc2 = dropObject doc1 body sketch;
          inverse_placement = global_inverse ev doc2 sketch
      in case add_geometry_to_sketch h \<lparr>Geometry = [], Constraints = [], Console = console\<rparr>
                edges inverse_placement of
           Inr s \<Rightarrow> (None, store_sketch doc2 sketch s, Console s)
         | Inl (err, s) \<Rightarrow> (Some err, store_sketch doc2 sketch s, Console s))"

text \<open>Lines 147-157: the sketch is created where the user chose.\<close>

definition create_at ::
  "host \<Rightarrow> env \<Rightarrow> document \<Rightarrow> msg list \<Rightarrow> choice \<Rightarrow> placement \<Rightarrow> edge list \<Rightarrow> step" where
  "create_at h ev doc console ch pl edges =
     (case ch of
        Standalone \<Rightarrow> create_standalone_sketch h ev doc console pl edges
      | NewBody \<Rightarrow>
          (let body = new_name ev doc ''Body''
           in create_body_sketch h ev (addObject doc (BodyObject body [])) console body pl edges)
      | ExistingBody body_name \<Rightarrow>
          (case getObject doc body_name of
             None \<Rightarrow> (Some (Exception DestinationNotFoundError ''Body not found.''), doc, console)
           | Some (BodyObject b members) \<Rightarrow>
               create_body_sketch h ev doc console b pl edges
           | Some obj \<Rightarrow> (Some (Exception HostError ''AttributeError''), doc, console)))"

text \<open>
  How a run ends: one of the early returns before the transaction, an exception that
  leaves the macro before the \<^verbatim>\<open>try\<close> block, the cancellation, the \<^verbatim>\<open>except\<close> handler, or
  the commit.
\<close>

datatype ending =
    NoDocument
  | NoSelection
  | OtherObjectSelected
  | NoValidEdges
  | Uncaught error
  | Cancelled
  | Failed error
  | Committed

record outcome =
  Ending :: ending
  Document :: "document option"
  Messages :: "msg list"
  ErrorDialogs :: "string list"

text \<open>
  The \<^verbatim>\<open>try\<close> block (lines 41-168) on the document with its open transaction: \<open>Inl\<close> is
  the cancellation (line 143 has aborted the transaction), otherwise the step's result.
\<close>

definition plane_message :: "edge list \<Rightarrow> msg list" where
  "plane_message selected_edges =
     (if length selected_edges = 1
      then (if is_Circle (Curve (selected_edges ! 0))
            then [PrintMessage ''Using plane from circle geometry.'']
            else [PrintMessage ''Using plane from planar B-spline geometry.''])
      else [])"

definition try_block :: "host \<Rightarrow> env \<Rightarrow> document \<Rightarrow> edge list \<Rightarrow> (document \<times> msg list) + step" where
  "try_block h ev doc selected_edges =
     (case fit_plane selected_edges of
        Inl err \<Rightarrow> Inr (Some err, doc, [])
      | Inr (plane_point, plane_normal) \<Rightarrow>
          (let console = plane_message selected_edges;
               center = placement_center selected_edges plane_point;
               pl = create_sketch_placement plane_normal center
           in case show_destination_dialog ev doc of
                None \<Rightarrow>
                  Inl (abortTransaction doc,
                       console @ [PrintMessage ''Sketch creation cancelled.''])
              | Some ch \<Rightarrow>
                  (case create_at h ev doc console ch pl selected_edges of
                     (Some err, doc', console') \<Rightarrow> Inr (Some err, doc', console')
                   | (None, doc', console') \<Rightarrow>
                       if view_ok ev
                       then Inr (None, commitTransaction doc',
                              console' @ [PrintMessage ''Sketch created successfully.''])
                       else Inr (Some (Exception HostError ''activeView''), doc', console'))))"

text \<open>\<^verbatim>\<open>edge_loop_to_sketch\<close> (lines 7-173).\<close>

definition edge_loop_to_sketch :: "host \<Rightarrow> env \<Rightarrow> outcome" where
  "edge_loop_to_sketch h ev =
     (case ActiveDocument ev of
        None \<Rightarrow>
          \<lparr>Ending = NoDocument, Document = None,
           Messages = [PrintError ''Error: No active document.''], ErrorDialogs = []\<rparr>
      | Some doc \<Rightarrow>
          (case Selection ev of
             [] \<Rightarrow>
               \<lparr>Ending = NoSelection, Document = Some doc,
                Messages = [PrintError ''Error: No edges selected.''], ErrorDialogs = []\<rparr>
           | obj # others \<Rightarrow>
               (case collect_selection obj [] (obj # others) of
                  Inl err \<Rightarrow>
                    \<lparr>Ending = Uncaught err, Document = Some doc,
                     Messages = [], ErrorDialogs = []\<rparr>
                | Inr None \<Rightarrow>
                    \<lparr>Ending = OtherObjectSelected, Document = Some doc,
                     Messages = [PrintError ''Error: All edges must be from the same object.''],
                     ErrorDialogs = []\<rparr>
                | Inr (Some []) \<Rightarrow>
                    \<lparr>Ending = NoValidEdges, Document = Some doc,
                     Messages = [PrintError ''Error: No valid edges selected.''],
                     ErrorDialogs = []\<rparr>
                | Inr (Some selected_edges) \<Rightarrow>
                    (case try_block h ev (openTransaction doc) selected_edges of
                       Inl (doc', console) \<Rightarrow>
                         \<lparr>Ending = Cancelled, Document = Some doc',
                          Messages = console, ErrorDialogs = []\<rparr>
                     | Inr (None, doc', console) \<Rightarrow>
                         \<lparr>Ending = Committed, Document = Some doc',
                          Messages = console, ErrorDialogs = []\<rparr>
                     | Inr (Some err, doc', console) \<Rightarrow>
                         \<lparr>Ending = Failed err, Document = Some (abortTransaction doc'),
                          Messages = console @ [PrintError ''Sketch creation failed''],
                          ErrorDialogs = [''Sketch creation failed'']\<rparr>))))"

section \<open>Predicates of the statements and sample inputs\<close>

text \<open>
  \<open>separated us\<close>: no point of \<open>us\<close> equals, within the tolerance, a point before it.
  \<open>exceeds P i j\<close>: the cross product of the vectors from \<open>P ! 0\<close> to \<open>P ! i\<close> and to
  \<open>P ! j\<close> is longer than the tolerance. \<open>first_pair P i j\<close>: \<open>(i, j)\<close> is the first such
  pair with \<open>1 \<le> i < j\<close>, in the order of the two loops. \<open>big\<close> is \<open>exceeds\<close> for the list
  without its first point.
\<close>

definition separated :: "vec list \<Rightarrow> bool" where
  "separated us = (\<forall>j < length us. \<forall>i < j. \<not> isEqual (us ! j) (us ! i) tolerance)"

definition exceeds :: "vec list \<Rightarrow> nat \<Rightarrow> nat \<Rightarrow> bool" where
  "exceeds P i j = (Length (cross (vsub (P ! i) (P ! 0)) (vsub (P ! j) (P ! 0))) > tolerance)"

definition first_pair :: "vec list \<Rightarrow> nat \<Rightarrow> nat \<Rightarrow> bool" where
  "first_pair P i j =
     (1 \<le> i \<and> i < j \<and> j < length P \<and> exceeds P i j \<and>
      (\<forall>i' < length P. \<forall>j' < length P.
         1 \<le> i' \<and> i' < j' \<and> (i' < i \<or> (i' = i \<and> j' < j)) \<longrightarrow> \<not> exceeds P i' j'))"

definition big :: "vec \<Rightarrow> vec list \<Rightarrow> nat \<Rightarrow> nat \<Rightarrow> bool" where
  "big p0 ps i j = (Length (cross (vsub (ps ! i) p0) (vsub (ps ! j) p0)) > tolerance)"

text \<open>Two straight edges that share the corner \<open>(1, 0, 0)\<close>.\<close>

definition line_edge :: "vec \<Rightarrow> vec \<Rightarrow> edge" where
  "line_edge a b =
     \<lparr>Curve = Line, Vertexes = [a, b], ArcLength = distanceToPoint a b,
      ParameterRange = (0, distanceToPoint a b),
      valueAt = (\<lambda>t. vadd a (multiply (normalize (vsub b a)) t))\<rparr>"

definition corner_edges :: "edge list" where
  "corner_edges = [line_edge (Vector 0 0 0) (Vector 1 0 0), line_edge (Vector 1 0 0) (Vector 0 1 0)]"

definition spline_edge :: "vec list \<Rightarrow> edge" where
  "spline_edge poles =
     \<lparr>Curve = BSplineCurve poles [2, 2] [0, 1] False 1, Vertexes = [hd poles, last poles],
      ArcLength = 1, ParameterRange = (0, 1), valueAt = (\<lambda>t. hd poles)\<rparr>"

fun is_BSplineCurve :: "part \<Rightarrow> bool" where
  "is_BSplineCurve (BSplineCurve ps ms ks per d) = True"
| "is_BSplineCurve g = False"

definition unit_normal :: "vec \<Rightarrow> vec" where
  "unit_normal normal = (if Length normal > 1 / 1000000 then normalize normal else Vector 0 0 1)"

definition tilted_normal :: vec where
  "tilted_normal = Vector (100 / 2501) 0 (2499 / 2501)"

definition empty_sketch :: state where
  "empty_sketch = \<lparr>Geometry = [], Constraints = [], Console = []\<rparr>"

definition sample_host :: host where
  "sample_host =
     \<lparr>addGeometry_ok = (\<lambda>s g. True),
      addConstraint_ok = (\<lambda>s c. True),
      point_of = (\<lambda>g pos. case g of
          LineSegment a b \<Rightarrow> (if pos = 1 then Some a else if pos = 2 then Some b else None)
        | ArcOfCircle a m b \<Rightarrow> (if pos = 1 then Some a else if pos = 2 then Some b else None)
        | _ \<Rightarrow> None),
      CenterOf = (\<lambda>g. case g of Circle c a r \<Rightarrow> c | _ \<Rightarrow> Vector 0 0 0),
      RadiusOf = (\<lambda>g. case g of Circle c a r \<Rightarrow> r | ArcOfCircle a m b \<Rightarrow> Length a | _ \<Rightarrow> 0),
      other_has_endpoints = (\<lambda>n. False)\<rparr>"

definition circle_edge :: "vec \<Rightarrow> real \<Rightarrow> edge" where
  "circle_edge c r =
     \<lparr>Curve = Circle c (Vector 0 0 1) r, Vertexes = [vadd c (Vector r 0 0)],
      ArcLength = 2 * pi_literal * r, ParameterRange = (0, 2 * pi_literal),
      valueAt = (\<lambda>t. vadd c (Vector r 0 0))\<rparr>"

definition half_arc_edge :: edge where
  "half_arc_edge =
     \<lparr>Curve = Circle (Vector 0 0 0) (Vector 0 0 1) 1,
      Vertexes = [Vector 1 0 0, Vector (- 1) 0 0],
      ArcLength = pi_literal, ParameterRange = (0, pi_literal),
      valueAt = (\<lambda>t. Vector 0 1 0)\<rparr>"

text \<open>
  \<open>two_ended h geo\<close>: the geometry object is a segment, an arc or a B-spline (or a
  curve of another class that the host gives a start and an end point), not a full
  circle. \<open>visit h G g\<close>: the endpoints the vertex pass records for the entry of index
  \<open>g\<close>, each with its three coordinates rounded to six decimal places; nothing when one
  of the two points cannot be read.
\<close>

fun two_ended :: "host \<Rightarrow> part \<Rightarrow> bool" where
  "two_ended h (Circle c a r) = False"
| "two_ended h Line = False"
| "two_ended h (OtherCurve n) = other_has_endpoints h n"
| "two_ended h geo = True"

definition visit :: "host \<Rightarrow> (part \<times> bool) list \<Rightarrow> int \<Rightarrow> ((real \<times> real \<times> real) \<times> (int \<times> int)) list" where
  "visit h G g =
     (case py_index G g of
        None \<Rightarrow> []
      | Some entry \<Rightarrow>
          if two_ended h (fst entry)
          then (case (point_of h (fst entry) 1, point_of h (fst entry) 2) of
                  (Some v1, Some v2) \<Rightarrow>
                    [((round6 (vx v1), round6 (vy v1), round6 (vz v1)), (g, 1)),
                     ((round6 (vx v2), round6 (vy v2), round6 (vz v2)), (g, 2))]
                | _ \<Rightarrow> [])
          else [])"

definition members :: "host \<Rightarrow> (part \<times> bool) list \<Rightarrow> int list \<Rightarrow> ((real \<times> real \<times> real) \<times> (int \<times> int)) list" where
  "members h G gs = concat (map (visit h G) gs)"

definition first_occ :: "'a list \<Rightarrow> 'a list" where
  "first_occ xs = rev (remdups (rev xs))"

definition group_of :: "('k \<times> 'v) list \<Rightarrow> 'k \<Rightarrow> 'v list" where
  "group_of ms k = map snd (filter (\<lambda>m. fst m = k) ms)"

definition groups :: "('k \<times> 'v) list \<Rightarrow> ('k \<times> 'v list) list" where
  "groups ms = map (\<lambda>k. (k, group_of ms k)) (first_occ (map fst ms))"

definition pair_constraint :: "(int \<times> int) list \<Rightarrow> constraint" where
  "pair_constraint vertex_list =
     Coincident (fst (vertex_list ! 0)) (snd (vertex_list ! 0))
                (fst (vertex_list ! 1)) (snd (vertex_list ! 1))"

definition fill :: "vertex_map \<Rightarrow> ((real \<times> real \<times> real) \<times> (int \<times> int)) list \<Rightarrow> vertex_map" where
  "fill vm ms = foldl (\<lambda>m kv. setdefault_append m (fst kv) (snd kv)) vm ms"

text \<open>
  A sketch with a segment, a full circle, a segment that starts \<open>10\<^sup>-\<^sup>7\<close> away from the end
  of the first, an arc back to the origin and a third segment from the shared corner.
\<close>

definition loop_sketch :: state where
  "loop_sketch =
     \<lparr>Geometry = [(LineSegment (Vector 0 0 0) (Vector 1 0 0), False),
                  (Circle (Vector 5 5 0) (Vector 0 0 1) 1, False),
                  (LineSegment (Vector (10000001 / 10000000) 0 0) (Vector 1 1 0), False),
                  (ArcOfCircle (Vector 1 1 0) (Vector 0 1 0) (Vector 0 0 0), False),
                  (LineSegment (Vector 1 0 0) (Vector 2 0 0), False)],
      Constraints = [], Console = []\<rparr>"

definition loop_indices :: "(int \<times> edge) list" where
  "loop_indices =
     [(0, line_edge (Vector 0 0 10) (Vector 1 0 10)),
      (1, circle_edge (Vector 5 5 10) 1),
      (2, line_edge (Vector 1 0 10) (Vector 1 1 10)),
      (3, half_arc_edge),
      (4, line_edge (Vector 1 0 10) (Vector 2 0 10))]"

definition is_round :: "part \<Rightarrow> bool" where
  "is_round geo = (is_ArcOfCircle geo \<or> is_Circle geo)"

definition far :: "host \<Rightarrow> (part \<times> bool) list \<Rightarrow> int \<Rightarrow> bool" where
  "far h G g =
     (case py_index G g of
        None \<Rightarrow> False
      | Some entry \<Rightarrow> is_round (fst entry) \<and> Length (CenterOf h (fst entry)) > tolerance)"

definition near :: "host \<Rightarrow> (part \<times> bool) list \<Rightarrow> int \<Rightarrow> bool" where
  "near h G g =
     (case py_index G g of
        None \<Rightarrow> False
      | Some entry \<Rightarrow> is_round (fst entry) \<and> \<not> Length (CenterOf h (fst entry)) > tolerance)"

definition center_at :: "host \<Rightarrow> (part \<times> bool) list \<Rightarrow> int \<Rightarrow> vec" where
  "center_at h G g =
     (case py_index G g of None \<Rightarrow> Vector 0 0 0 | Some entry \<Rightarrow> CenterOf h (fst entry))"

fun anchors :: "host \<Rightarrow> (part \<times> bool) list \<Rightarrow> int \<Rightarrow> int list \<Rightarrow> constraint list" where
  "anchors h G n [] = []"
| "anchors h G n (g # gs) =
     (if far h G g
      then Coincident n 1 g 3 # Coincident n 2 (- 1) 1 # anchors h G (n + 1) gs
      else if near h G g then Coincident g 3 (- 1) 1 # anchors h G n gs
      else anchors h G n gs)"

definition valid_indices :: "(part \<times> bool) list \<Rightarrow> int list \<Rightarrow> bool" where
  "valid_indices G gs = list_all (\<lambda>g. 0 \<le> g \<and> g < int (length G)) gs"

definition circles_sketch :: state where
  "circles_sketch =
     \<lparr>Geometry = [(Circle (Vector 3 4 0) (Vector 0 0 1) 1, False),
                  (Circle (Vector 0 0 0) (Vector 0 0 1) 2, False)],
      Constraints = [], Console = []\<rparr>"

definition circles_indices :: "(int \<times> edge) list" where
  "circles_indices =
     [(0, circle_edge (Vector 3 4 10) 1), (1, circle_edge (Vector 0 0 10) 2)]"

definition circles_anchored :: state where
  "circles_anchored =
     \<lparr>Geometry = [(Circle (Vector 3 4 0) (Vector 0 0 1) 1, False),
                  (Circle (Vector 0 0 0) (Vector 0 0 1) 2, False),
                  (LineSegment (Vector 3 4 0) (Vector 0 0 0), True)],
      Constraints = [(Coincident 2 1 0 3, True), (Coincident 2 2 (- 1) 1, True),
                     (Coincident 1 3 (- 1) 1, True), (Block 2, True)],
      Console = []\<rparr>"

definition round_at :: "(part \<times> bool) list \<Rightarrow> int \<Rightarrow> bool" where
  "round_at G g = (case py_index G g of None \<Rightarrow> False | Some entry \<Rightarrow> is_round (fst entry))"

definition segment_at :: "(part \<times> bool) list \<Rightarrow> int \<Rightarrow> bool" where
  "segment_at G g =
     (case py_index G g of None \<Rightarrow> False | Some entry \<Rightarrow> is_LineSegment (fst entry))"

definition radius_at :: "host \<Rightarrow> (part \<times> bool) list \<Rightarrow> int \<Rightarrow> real" where
  "radius_at h G g =
     (case py_index G g of None \<Rightarrow> 0 | Some entry \<Rightarrow> RadiusOf h (fst entry))"

definition separation :: "host \<Rightarrow> (part \<times> bool) list \<Rightarrow> int \<Rightarrow> real" where
  "separation h G g =
     (case py_index G g of
        None \<Rightarrow> 0
      | Some entry \<Rightarrow>
          (case (point_of h (fst entry) 1, point_of h (fst entry) 2) of
             (Some p1, Some p2) \<Rightarrow> distanceToPoint p1 p2
           | _ \<Rightarrow> 0))"

definition has_points :: "host \<Rightarrow> (part \<times> bool) list \<Rightarrow> int \<Rightarrow> bool" where
  "has_points h G g =
     (case py_index G g of
        None \<Rightarrow> False
      | Some entry \<Rightarrow> point_of h (fst entry) 1 \<noteq> None \<and> point_of h (fst entry) 2 \<noteq> None)"

fun refs :: "constraint \<Rightarrow> int list" where
  "refs (Coincident g1 p1 g2 p2) = [g1, g2]"
| "refs (Radius g r) = [g]"
| "refs (Block g) = [g]"
| "refs (Distance g d) = [g]"

definition mentions :: "int \<Rightarrow> constraint \<times> bool \<Rightarrow> bool" where
  "mentions l cd = (l \<in> set (refs (fst cd)))"

fun is_Radius :: "constraint \<Rightarrow> bool" where
  "is_Radius (Radius g r) = True"
| "is_Radius c = False"

fun is_Distance :: "constraint \<Rightarrow> bool" where
  "is_Distance (Distance g d) = True"
| "is_Distance c = False"

fun radius_on :: "int \<Rightarrow> constraint \<times> bool \<Rightarrow> bool" where
  "radius_on g (Radius g' r, d) = (g' = g)"
| "radius_on g cd = False"

fun distance_on :: "int \<Rightarrow> constraint \<times> bool \<Rightarrow> bool" where
  "distance_on g (Distance g' v, d) = (g' = g)"
| "distance_on g cd = False"

definition pipe_edges :: "edge list" where
  "pipe_edges = [line_edge (Vector 0 0 0) (Vector 1 0 0), circle_edge (Vector 3 4 0) 1]"

definition pipe_sketch :: state where
  "pipe_sketch =
     \<lparr>Geometry = [(LineSegment (Vector 0 0 0) (Vector 1 0 0), False),
                  (Circle (Vector 3 4 0) (Vector 0 0 1) 1, False)],
      Constraints = [], Console = []\<rparr>"

definition pipe_indices :: "(int \<times> edge) list" where
  "pipe_indices =
     [(0, line_edge (Vector 0 0 0) (Vector 1 0 0)), (1, circle_edge (Vector 3 4 0) 1)]"

definition pipe_anchored :: state where
  "pipe_anchored =
     \<lparr>Geometry = [(LineSegment (Vector 0 0 0) (Vector 1 0 0), False),
                  (Circle (Vector 3 4 0) (Vector 0 0 1) 1, False),
                  (LineSegment (Vector 3 4 0) (Vector 0 0 0), True)],
      Constraints = [(Coincident 2 1 1 3, True), (Coincident 2 2 (- 1) 1, True),
                     (Block 2, True)],
      Console = []\<rparr>"

definition pipe_final :: state where
  "pipe_final =
     \<lparr>Geometry = [(LineSegment (Vector 0 0 0) (Vector 1 0 0), False),
                  (Circle (Vector 3 4 0) (Vector 0 0 1) 1, False),
                  (LineSegment (Vector 3 4 0) (Vector 0 0 0), True)],
      Constraints = [(Coincident 2 1 1 3, True), (Coincident 2 2 (- 1) 1, True),
                     (Block 2, True), (Radius 1 1, True), (Distance 0 1, False)],
      Console = []\<rparr>"

section \<open>The plane fitter on several edges\<close>

lemma dot_self_nonneg: "0 \<le> dot v v" by (simp add: dot_def)

lemma Length_nonneg: "0 \<le> Length v" by (simp add: Length_def dot_self_nonneg)

lemma Length_le_iff: "0 \<le> t \<Longrightarrow> Length v \<le> t \<longleftrightarrow> dot v v \<le> t * t"
  unfolding Length_def using dot_self_nonneg[of v]
  by (metis abs_of_nonneg real_sqrt_abs2 real_sqrt_le_iff real_sqrt_mult_self)

lemma Length_gt_iff: "0 \<le> t \<Longrightarrow> Length v > t \<longleftrightarrow> dot v v > t * t"
  using Length_le_iff[of t v] by auto

lemma Length_normalize: "0 < Length v \<Longrightarrow> Length (normalize v) = 1"
proof -
  assume pos: "0 < Length v"
  let ?L = "Length v"
  have sq: "?L * ?L = dot v v"
    unfolding Length_def using dot_self_nonneg[of v] by simp
  have "dot (normalize v) (normalize v) = dot v v / (?L * ?L)"
    by (simp add: normalize_def dot_def add_divide_distrib)
  also have "\<dots> = 1" using pos sq by (metis divide_self_if less_numeral_extra(3) mult_eq_0_iff)
  finally show ?thesis by (simp add: Length_def)
qed

lemma all_within_iff:
  "all_within p0 n pts \<longleftrightarrow> (\<forall>p \<in> set pts. \<bar>dot (vsub p p0) n\<bar> \<le> tolerance)"
  by (induction pts) auto

lemma gather_vertexes_snd: "snd (gather_vertexes (us, as) pts) = as @ pts"
  by (induction pts arbitrary: us as) auto

lemma gather_edges_snd: "snd (gather_edges st es) = snd st @ concat (map Vertexes es)"
proof (induction es arbitrary: st)
  case Nil then show ?case by simp
next
  case (Cons e es)
  obtain us as where st: "st = (us, as)" by (cases st)
  show ?case using Cons[of "gather_vertexes st (Vertexes e)"] 
    by (simp add: st gather_vertexes_snd)
qed


lemma separated_snoc:
  "separated us \<Longrightarrow> \<not> list_ex (\<lambda>existing. isEqual pt existing tolerance) us
     \<Longrightarrow> separated (us @ [pt])"
  unfolding separated_def list_ex_iff
  by (auto simp: nth_append less_Suc_eq)

lemma gather_vertexes_fst:
  "separated us \<Longrightarrow>
   separated (fst (gather_vertexes (us, as) pts)) \<and>
   (\<exists>ys. fst (gather_vertexes (us, as) pts) = us @ ys \<and> set ys \<subseteq> set pts) \<and>
   (\<forall>p \<in> set pts. \<exists>u \<in> set (fst (gather_vertexes (us, as) pts)). isEqual p u tolerance)"
proof (induction pts arbitrary: us as)
  case Nil
  then show ?case by simp
next
  case (Cons pt pts)
  let ?us' = "if list_ex (\<lambda>existing. isEqual pt existing tolerance) us then us else us @ [pt]"
  have self: "isEqual pt pt tolerance"
    by (simp add: isEqual_def vsub_def Length_def dot_def tolerance_def)
  have sep: "separated ?us'" using Cons.prems separated_snoc by simp
  note IH = Cons.IH[OF sep, of "as @ [pt]"]
  from IH obtain ys where ys: "fst (gather_vertexes (?us', as @ [pt]) pts) = ?us' @ ys"
    "set ys \<subseteq> set pts" by blast
  have pre: "\<exists>zs. ?us' = us @ zs \<and> set zs \<subseteq> {pt}" by auto
  have cov: "\<exists>u \<in> set ?us'. isEqual pt u tolerance"
    using self by (auto simp: list_ex_iff)
  have g: "gather_vertexes (us, as) (pt # pts) = gather_vertexes (?us', as @ [pt]) pts" by simp
  show ?case unfolding g
  proof (intro conjI)
    show "separated (fst (gather_vertexes (?us', as @ [pt]) pts))" using IH by blast
    show "\<exists>ys. fst (gather_vertexes (?us', as @ [pt]) pts) = us @ ys \<and> set ys \<subseteq> set (pt # pts)"
      using ys pre by (cases "list_ex (\<lambda>existing. isEqual pt existing tolerance) us") auto
    show "\<forall>p\<in>set (pt # pts). \<exists>u\<in>set (fst (gather_vertexes (?us', as @ [pt]) pts)).
            isEqual p u tolerance"
      using IH cov ys(1) by auto
  qed
qed

lemma gather_edges_fst:
  "separated (fst st) \<Longrightarrow>
   separated (fst (gather_edges st es)) \<and>
   (\<exists>ys. fst (gather_edges st es) = fst st @ ys \<and> set ys \<subseteq> set (concat (map Vertexes es))) \<and>
   (\<forall>p \<in> set (concat (map Vertexes es)). \<exists>u \<in> set (fst (gather_edges st es)). isEqual p u tolerance)"
proof (induction es arbitrary: st)
  case Nil
  then show ?case by simp
next
  case (Cons e es)
  obtain us as where st: "st = (us, as)" by (cases st)
  let ?st' = "gather_vertexes (us, as) (Vertexes e)"
  have sepus: "separated us" using Cons.prems st by simp
  note V = gather_vertexes_fst[OF sepus, of as "Vertexes e"]
  then have sep': "separated (fst ?st')" by blast
  note IH = Cons.IH[OF sep']
  from V obtain ys where ys: "fst ?st' = us @ ys" "set ys \<subseteq> set (Vertexes e)" by blast
  from IH obtain zs where zs: "fst (gather_edges ?st' es) = fst ?st' @ zs"
    "set zs \<subseteq> set (concat (map Vertexes es))" by blast
  have g: "gather_edges st (e # es) = gather_edges ?st' es" by (simp add: st)
  show ?case unfolding g
  proof (intro conjI)
    show "separated (fst (gather_edges ?st' es))" using IH by blast
    show "\<exists>ys. fst (gather_edges ?st' es) = fst st @ ys \<and> set ys \<subseteq> set (concat (map Vertexes (e # es)))"
      using ys zs st by auto
    show "\<forall>p\<in>set (concat (map Vertexes (e # es))). \<exists>u\<in>set (fst (gather_edges ?st' es)).
            isEqual p u tolerance"
    proof
      fix p assume "p \<in> set (concat (map Vertexes (e # es)))"
      then consider "p \<in> set (Vertexes e)" | "p \<in> set (concat (map Vertexes es))" by auto
      then show "\<exists>u\<in>set (fst (gather_edges ?st' es)). isEqual p u tolerance"
      proof cases
        case 1
        with V obtain u where "u \<in> set (fst ?st')" "isEqual p u tolerance" by blast
        then show ?thesis using zs(1) by auto
      next
        case 2
        then show ?thesis using IH by blast
      qed
    qed
  qed
qed

lemma inner_search_None:
  "inner_search p0 v1 qs = None \<longleftrightarrow>
     (\<forall>j < length qs. \<not> Length (cross v1 (vsub (qs ! j) p0)) > tolerance)"
  by (induction qs) (auto simp: less_Suc_eq_0_disj)

lemma inner_search_Some:
  "inner_search p0 v1 qs = Some n \<Longrightarrow>
     \<exists>j < length qs. Length (cross v1 (vsub (qs ! j) p0)) > tolerance \<and>
        n = normalize (cross v1 (vsub (qs ! j) p0)) \<and>
        (\<forall>j' < j. \<not> Length (cross v1 (vsub (qs ! j') p0)) > tolerance)"
proof (induction qs)
  case Nil
  then show ?case by simp
next
  case (Cons q qs)
  show ?case
  proof (cases "Length (cross v1 (vsub q p0)) > tolerance")
    case True
    with Cons.prems have "n = normalize (cross v1 (vsub q p0))" by simp
    with True show ?thesis by (intro exI[of _ 0]) simp
  next
    case False
    with Cons obtain j where j: "j < length qs"
      "Length (cross v1 (vsub (qs ! j) p0)) > tolerance"
      "n = normalize (cross v1 (vsub (qs ! j) p0))"
      "\<forall>j' < j. \<not> Length (cross v1 (vsub (qs ! j') p0)) > tolerance" by auto
    show ?thesis
      using j False by (intro exI[of _ "Suc j"]) (auto simp: less_Suc_eq_0_disj)
  qed
qed


lemma outer_search_None:
  "outer_search p0 ps = None \<longleftrightarrow> (\<forall>j < length ps. \<forall>i < j. \<not> big p0 ps i j)"
proof (induction ps)
  case Nil
  then show ?case by simp
next
  case (Cons p ps)
  have inner: "inner_search p0 (vsub p p0) ps = None \<longleftrightarrow>
      (\<forall>j < length ps. \<not> big p0 (p # ps) 0 (Suc j))"
    by (simp add: inner_search_None big_def)
  have shift: "\<And>i j. big p0 (p # ps) (Suc i) (Suc j) = big p0 ps i j"
    by (simp add: big_def)
  show ?case
  proof
    assume a: "outer_search p0 (p # ps) = None"
    then have i0: "inner_search p0 (vsub p p0) ps = None" and o: "outer_search p0 ps = None"
      by (auto split: option.splits)
    show "\<forall>j<length (p # ps). \<forall>i<j. \<not> big p0 (p # ps) i j"
    proof (intro allI impI)
      fix j i assume j: "j < length (p # ps)" and i: "i < j"
      then obtain j' where j': "j = Suc j'" "j' < length ps" by (cases j) auto
      show "\<not> big p0 (p # ps) i j"
      proof (cases i)
        case 0
        then show ?thesis using i0 inner j' by simp
      next
        case (Suc i')
        then show ?thesis using o Cons.IH j' i shift by auto
      qed
    qed
  next
    assume a: "\<forall>j<length (p # ps). \<forall>i<j. \<not> big p0 (p # ps) i j"
    have i0: "inner_search p0 (vsub p p0) ps = None"
      unfolding inner using a by auto
    have "\<forall>j<length ps. \<forall>i<j. \<not> big p0 ps i j"
    proof (intro allI impI)
      fix j i assume "j < length ps" "i < j"
      then have "\<not> big p0 (p # ps) (Suc i) (Suc j)" using a by auto
      then show "\<not> big p0 ps i j" by (simp add: shift)
    qed
    then have "outer_search p0 ps = None" using Cons.IH by simp
    with i0 show "outer_search p0 (p # ps) = None" by simp
  qed
qed

lemma outer_search_Some:
  "outer_search p0 ps = Some n \<Longrightarrow>
     \<exists>i j. i < j \<and> j < length ps \<and> big p0 ps i j \<and>
       n = normalize (cross (vsub (ps ! i) p0) (vsub (ps ! j) p0)) \<and>
       (\<forall>i' j'. i' < j' \<and> j' < length ps \<and> (i' < i \<or> (i' = i \<and> j' < j))
           \<longrightarrow> \<not> big p0 ps i' j')"
proof (induction ps)
  case Nil
  then show ?case by simp
next
  case (Cons p ps)
  have shift: "\<And>i j. big p0 (p # ps) (Suc i) (Suc j) = big p0 ps i j"
    by (simp add: big_def)
  show ?case
  proof (cases "inner_search p0 (vsub p p0) ps")
    case (Some m)
    with Cons.prems have nm: "n = m" by simp
    from inner_search_Some[OF Some] obtain j where j: "j < length ps"
      "Length (cross (vsub p p0) (vsub (ps ! j) p0)) > tolerance"
      "m = normalize (cross (vsub p p0) (vsub (ps ! j) p0))"
      "\<forall>j' < j. \<not> Length (cross (vsub p p0) (vsub (ps ! j') p0)) > tolerance" by blast
    have small: "\<forall>i' j'. i' < j' \<and> j' < length (p # ps) \<and> (i' < 0 \<or> (i' = 0 \<and> j' < Suc j))
           \<longrightarrow> \<not> big p0 (p # ps) i' j'"
    proof (intro allI impI)
      fix i' j' assume a: "i' < j' \<and> j' < length (p # ps) \<and> (i' < 0 \<or> (i' = 0 \<and> j' < Suc j))"
      then obtain k where k: "j' = Suc k" "k < j" "i' = 0" by (cases j') auto
      then show "\<not> big p0 (p # ps) i' j'" using j(4) by (simp add: big_def)
    qed
    show ?thesis
      apply (rule exI[of _ 0], rule exI[of _ "Suc j"])
      using j nm small by (simp add: big_def)
  next
    case None
    with Cons.prems have o: "outer_search p0 ps = Some n" by simp
    from Cons.IH[OF o] obtain i j where ij: "i < j" "j < length ps" "big p0 ps i j"
      "n = normalize (cross (vsub (ps ! i) p0) (vsub (ps ! j) p0))"
      "\<forall>i' j'. i' < j' \<and> j' < length ps \<and> (i' < i \<or> (i' = i \<and> j' < j))
           \<longrightarrow> \<not> big p0 ps i' j'" by blast
    have inner: "\<forall>j < length ps. \<not> big p0 (p # ps) 0 (Suc j)"
      using None by (simp add: inner_search_None big_def)
    have small: "\<forall>i' j'. i' < j' \<and> j' < length (p # ps) \<and>
          (i' < Suc i \<or> (i' = Suc i \<and> j' < Suc j)) \<longrightarrow> \<not> big p0 (p # ps) i' j'"
    proof (intro allI impI)
      fix i' j'
      assume a: "i' < j' \<and> j' < length (p # ps) \<and> (i' < Suc i \<or> (i' = Suc i \<and> j' < Suc j))"
      then obtain k where k: "j' = Suc k" "k < length ps" by (cases j') auto
      show "\<not> big p0 (p # ps) i' j'"
      proof (cases i')
        case 0
        then show ?thesis using inner k by simp
      next
        case (Suc l)
        have "l < k \<and> k < length ps \<and> (l < i \<or> (l = i \<and> k < j))" using a k Suc by auto
        then have "\<not> big p0 ps l k" using ij(5) by blast
        then show ?thesis using Suc k shift by simp
      qed
    qed
    show ?thesis
      apply (rule exI[of _ "Suc i"], rule exI[of _ "Suc j"])
      using ij small by (simp add: big_def)
  qed
qed

lemma first_pair_unique:
  "first_pair P i j \<Longrightarrow> first_pair P k l \<Longrightarrow> i = k \<and> j = l"
  unfolding first_pair_def
  by (metis (no_types, lifting) less_trans linorder_neqE_nat)

lemma find_normal_None:
  "find_normal P = None \<longleftrightarrow> \<not> (\<exists>i j. 1 \<le> i \<and> i < j \<and> j < length P \<and> exceeds P i j)"
proof (cases P)
  case Nil
  then show ?thesis by simp
next
  case (Cons p0 ps)
  have e: "\<And>i j. exceeds P (Suc i) (Suc j) = big p0 ps i j"
    by (simp add: exceeds_def big_def Cons)
  show ?thesis
  proof
    assume "find_normal P = None"
    then have n: "\<forall>j < length ps. \<forall>i < j. \<not> big p0 ps i j"
      using outer_search_None Cons by simp
    show "\<not> (\<exists>i j. 1 \<le> i \<and> i < j \<and> j < length P \<and> exceeds P i j)"
    proof
      assume "\<exists>i j. 1 \<le> i \<and> i < j \<and> j < length P \<and> exceeds P i j"
      then obtain i j where ij: "1 \<le> i" "i < j" "j < length P" "exceeds P i j" by blast
      then obtain i' j' where s: "i = Suc i'" "j = Suc j'"
        by (metis One_nat_def Suc_le_D less_imp_Suc_add)
      then show False using ij n e Cons by auto
    qed
  next
    assume a: "\<not> (\<exists>i j. 1 \<le> i \<and> i < j \<and> j < length P \<and> exceeds P i j)"
    have "\<forall>j < length ps. \<forall>i < j. \<not> big p0 ps i j"
    proof (intro allI impI)
      fix j i assume "j < length ps" "i < j"
      then have "\<not> exceeds P (Suc i) (Suc j)" using a Cons by auto
      then show "\<not> big p0 ps i j" using e by simp
    qed
    then show "find_normal P = None" using outer_search_None Cons by simp
  qed
qed

lemma find_normal_Some:
  assumes "find_normal P = Some n"
  shows "\<exists>i j. first_pair P i j \<and>
           n = normalize (cross (vsub (P ! i) (P ! 0)) (vsub (P ! j) (P ! 0)))"
proof (cases P)
  case Nil
  with assms show ?thesis by simp
next
  case (Cons p0 ps)
  have e: "\<And>i j. exceeds P (Suc i) (Suc j) = big p0 ps i j"
    by (simp add: exceeds_def big_def Cons)
  from assms Cons have "outer_search p0 ps = Some n" by simp
  from outer_search_Some[OF this] obtain i j where ij: "i < j" "j < length ps" "big p0 ps i j"
      "n = normalize (cross (vsub (ps ! i) p0) (vsub (ps ! j) p0))"
      "\<forall>i' j'. i' < j' \<and> j' < length ps \<and> (i' < i \<or> (i' = i \<and> j' < j))
           \<longrightarrow> \<not> big p0 ps i' j'" by blast
  have fp: "first_pair P (Suc i) (Suc j)"
    unfolding first_pair_def
  proof (intro conjI allI impI)
    show "1 \<le> Suc i" by simp
    show "Suc i < Suc j" using ij by simp
    show "Suc j < length P" using ij Cons by simp
    show "exceeds P (Suc i) (Suc j)" using ij e by simp
  next
    fix i' j'
    assume b: "i' < length P" "j' < length P"
      and a: "1 \<le> i' \<and> i' < j' \<and> (i' < Suc i \<or> (i' = Suc i \<and> j' < Suc j))"
    then obtain k l where kl: "i' = Suc k" "j' = Suc l"
      by (metis One_nat_def Suc_le_D less_imp_Suc_add)
    have "k < l \<and> l < length ps \<and> (k < i \<or> (k = i \<and> l < j))" using a b kl Cons by auto
    then have "\<not> big p0 ps k l" using ij(5) by blast
    then show "\<not> exceeds P i' j'" using kl e by simp
  qed
  show ?thesis
    apply (rule exI[of _ "Suc i"], rule exI[of _ "Suc j"])
    using fp ij(4) Cons by simp
qed

lemma find_normal_first_pair:
  assumes "first_pair P i j"
  shows "find_normal P = Some (normalize (cross (vsub (P ! i) (P ! 0)) (vsub (P ! j) (P ! 0))))"
proof (cases "find_normal P")
  case None
  then show ?thesis using assms find_normal_None[of P] unfolding first_pair_def by blast
next
  case (Some n)
  from find_normal_Some[OF Some] obtain k l where kl: "first_pair P k l"
    "n = normalize (cross (vsub (P ! k) (P ! 0)) (vsub (P ! l) (P ! 0)))" by blast
  with first_pair_unique[OF assms kl(1)] Some show ?thesis by simp
qed

lemma isEqual_tolerance:
  "isEqual a b tolerance \<longleftrightarrow> dot (vsub a b) (vsub a b) \<le> tolerance * tolerance"
  unfolding isEqual_def by (rule Length_le_iff) (simp add: tolerance_def)

lemma Length_gt_tolerance:
  "Length v > tolerance \<longleftrightarrow> dot v v > tolerance * tolerance"
  by (rule Length_gt_iff) (simp add: tolerance_def)

text \<open>
  Claim C1. For a selection of at least two edges the plane fitter gathers every edge
  endpoint, keeps of them the points that differ, beyond the tolerance, from every point
  kept before, fails with InsufficientDataError when fewer than three points are kept,
  fails with PlanarityError when no pair of vectors from the first kept point has a cross
  product longer than the tolerance, and otherwise takes the normalized cross product of
  the first such pair as the normal and checks every endpoint against the plane through the
  first kept point: it fails with PlanarityError when one of them is farther than the
  tolerance from it. When it returns a plane, the normal has length one and every endpoint
  is within the tolerance of the plane.
\<close>

theorem C1_fit_plane_multi:
  assumes "2 \<le> length selected_edges"
  shows "snd (gather_edges ([], []) selected_edges) = concat (map Vertexes selected_edges) \<and>
    separated (fst (gather_edges ([], []) selected_edges)) \<and>
    set (fst (gather_edges ([], []) selected_edges)) \<subseteq> set (concat (map Vertexes selected_edges)) \<and>
    (\<forall>p \<in> set (concat (map Vertexes selected_edges)).
        \<exists>u \<in> set (fst (gather_edges ([], []) selected_edges)). isEqual p u tolerance) \<and>
    (length (fst (gather_edges ([], []) selected_edges)) < 3 \<longrightarrow>
        fit_plane selected_edges = Inl (Exception InsufficientDataError
          ''Selected edges do not provide enough unique points to define a plane.'')) \<and>
    (3 \<le> length (fst (gather_edges ([], []) selected_edges)) \<and>
     \<not> (\<exists>i j. 1 \<le> i \<and> i < j \<and> j < length (fst (gather_edges ([], []) selected_edges)) \<and>
              exceeds (fst (gather_edges ([], []) selected_edges)) i j) \<longrightarrow>
        fit_plane selected_edges = Inl (Exception PlanarityError
          ''Selected edges are collinear and cannot define a plane.'')) \<and>
    (\<forall>i j. first_pair (fst (gather_edges ([], []) selected_edges)) i j \<longrightarrow>
        fit_plane selected_edges =
          (let unique_points = fst (gather_edges ([], []) selected_edges);
               n = normalize (cross (vsub (unique_points ! i) (unique_points ! 0))
                                    (vsub (unique_points ! j) (unique_points ! 0)))
           in if \<forall>p \<in> set (concat (map Vertexes selected_edges)).
                    \<bar>dot (vsub p (unique_points ! 0)) n\<bar> \<le> tolerance
              then Inr (unique_points ! 0, n)
              else Inl (Exception PlanarityError ''Selected edges are not coplanar.''))) \<and>
    (\<forall>plane_point plane_normal. fit_plane selected_edges = Inr (plane_point, plane_normal) \<longrightarrow>
        Length plane_normal = 1 \<and>
        (\<forall>p \<in> set (concat (map Vertexes selected_edges)).
           \<bar>dot (vsub p plane_point) plane_normal\<bar> \<le> tolerance))"
proof -
  let ?g = "gather_edges ([], []) selected_edges"
  let ?U = "fst ?g"
  let ?A = "concat (map Vertexes selected_edges)"
  have A: "snd ?g = ?A" by (simp add: gather_edges_snd)
  have sep0: "separated (fst (([], [])::vec list \<times> vec list))" by (simp add: separated_def)
  note G = gather_edges_fst[OF sep0, of selected_edges]
  have fit: "fit_plane selected_edges = fit_plane_multi selected_edges"
    using assms by (simp add: fit_plane_def)
  have g: "?g = (?U, ?A)" using A by (metis prod.collapse)
  have multi: "fit_plane_multi selected_edges =
     (if length ?U < 3
      then Inl (Exception InsufficientDataError
             ''Selected edges do not provide enough unique points to define a plane.'')
      else (case find_normal ?U of
              None \<Rightarrow> Inl (Exception PlanarityError
                ''Selected edges are collinear and cannot define a plane.'')
            | Some plane_normal \<Rightarrow>
                if all_within (hd ?U) plane_normal ?A
                then Inr (hd ?U, plane_normal)
                else Inl (Exception PlanarityError ''Selected edges are not coplanar.'')))"
    unfolding fit_plane_multi_def by (subst g) simp
  have hd0: "3 \<le> length ?U \<Longrightarrow> hd ?U = ?U ! 0"
    by (cases ?U) auto
  have c1: "length ?U < 3 \<longrightarrow> fit_plane selected_edges = Inl (Exception InsufficientDataError
          ''Selected edges do not provide enough unique points to define a plane.'')"
    using fit multi by simp
  have c2: "3 \<le> length ?U \<and> \<not> (\<exists>i j. 1 \<le> i \<and> i < j \<and> j < length ?U \<and> exceeds ?U i j) \<longrightarrow>
        fit_plane selected_edges = Inl (Exception PlanarityError
          ''Selected edges are collinear and cannot define a plane.'')"
  proof
    assume a: "3 \<le> length ?U \<and> \<not> (\<exists>i j. 1 \<le> i \<and> i < j \<and> j < length ?U \<and> exceeds ?U i j)"
    then have "find_normal ?U = None" using find_normal_None by blast
    then show "fit_plane selected_edges = Inl (Exception PlanarityError
          ''Selected edges are collinear and cannot define a plane.'')"
      using a fit multi by simp
  qed
  have c3: "\<forall>i j. first_pair ?U i j \<longrightarrow>
        fit_plane selected_edges =
          (let unique_points = ?U;
               n = normalize (cross (vsub (unique_points ! i) (unique_points ! 0))
                                    (vsub (unique_points ! j) (unique_points ! 0)))
           in if \<forall>p \<in> set ?A. \<bar>dot (vsub p (unique_points ! 0)) n\<bar> \<le> tolerance
              then Inr (unique_points ! 0, n)
              else Inl (Exception PlanarityError ''Selected edges are not coplanar.''))"
  proof (intro allI impI)
    fix i j assume fp: "first_pair ?U i j"
    then have len: "3 \<le> length ?U" unfolding first_pair_def by linarith
    show "fit_plane selected_edges =
          (let unique_points = ?U;
               n = normalize (cross (vsub (unique_points ! i) (unique_points ! 0))
                                    (vsub (unique_points ! j) (unique_points ! 0)))
           in if \<forall>p \<in> set ?A. \<bar>dot (vsub p (unique_points ! 0)) n\<bar> \<le> tolerance
              then Inr (unique_points ! 0, n)
              else Inl (Exception PlanarityError ''Selected edges are not coplanar.''))"
      using len fit multi find_normal_first_pair[OF fp] hd0[OF len]
      by (simp add: all_within_iff Let_def)
  qed
  have c4: "\<forall>plane_point plane_normal. fit_plane selected_edges = Inr (plane_point, plane_normal) \<longrightarrow>
        Length plane_normal = 1 \<and>
        (\<forall>p \<in> set ?A. \<bar>dot (vsub p plane_point) plane_normal\<bar> \<le> tolerance)"
  proof (intro allI impI)
    fix pp pn assume r: "fit_plane selected_edges = Inr (pp, pn)"
    then have len: "\<not> length ?U < 3" using fit multi by (auto split: if_splits)
    from r len obtain n where n: "find_normal ?U = Some n"
      using fit multi by (cases "find_normal ?U") auto
    from r len n have w: "all_within (hd ?U) n ?A" and e: "pp = hd ?U" "pn = n"
      using fit multi by (auto split: if_splits)
    from find_normal_Some[OF n] obtain i j where fp: "first_pair ?U i j"
      and nn: "n = normalize (cross (vsub (?U ! i) (?U ! 0)) (vsub (?U ! j) (?U ! 0)))" by blast
    have "Length (cross (vsub (?U ! i) (?U ! 0)) (vsub (?U ! j) (?U ! 0))) > 0"
      using fp unfolding first_pair_def exceeds_def by (simp add: tolerance_def)
    then have "Length n = 1" using nn Length_normalize by simp
    then show "Length pn = 1 \<and> (\<forall>p \<in> set ?A. \<bar>dot (vsub p pp) pn\<bar> \<le> tolerance)"
      using w e by (simp add: all_within_iff)
  qed
  from G have g2: "separated ?U" and g3: "set ?U \<subseteq> set ?A"
    and g4: "\<forall>p \<in> set ?A. \<exists>u \<in> set ?U. isEqual p u tolerance" by auto
  show ?thesis using A g2 g3 g4 c1 c2 c3 c4 by blast
qed


lemma isEqual_tolerance_eval:
  "isEqual a b tolerance \<longleftrightarrow> dot (vsub a b) (vsub a b) \<le> 1 / 1000000000000"
  unfolding isEqual_tolerance by (simp add: tolerance_def)

lemma Length_gt_tolerance_eval:
  "Length v > tolerance \<longleftrightarrow> dot v v > 1 / 1000000000000"
  unfolding Length_gt_tolerance by (simp add: tolerance_def)

lemma corner_gather:
  "gather_edges ([], []) corner_edges =
     ([Vector 0 0 0, Vector 1 0 0, Vector 0 1 0],
      [Vector 0 0 0, Vector 1 0 0, Vector 1 0 0, Vector 0 1 0])"
  by (simp add: corner_edges_def line_edge_def isEqual_tolerance_eval dot_def vsub_def)

lemma corner_first_pair:
  "first_pair [Vector 0 0 0, Vector 1 0 0, Vector 0 1 0] 1 2"
  unfolding first_pair_def exceeds_def Length_gt_tolerance_eval
  by (auto simp: dot_def vsub_def cross_def less_Suc_eq numeral_3_eq_3)

theorem C1_fit_plane_multi_witness:
  "2 \<le> length corner_edges \<and>
   first_pair (fst (gather_edges ([], []) corner_edges)) 1 2 \<and>
   fit_plane corner_edges = Inr (Vector 0 0 0, Vector 0 0 1) \<and>
   Length (Vector 0 0 1) = 1 \<and>
   list_all (\<lambda>p. \<bar>dot (vsub p (Vector 0 0 0)) (Vector 0 0 1)\<bar> \<le> tolerance)
     (concat (map Vertexes corner_edges))"
proof -
  have h: "2 \<le> length corner_edges" by (simp add: corner_edges_def)
  have fp: "first_pair (fst (gather_edges ([], []) corner_edges)) 1 2"
    using corner_first_pair by (simp add: corner_gather)
  have A: "concat (map Vertexes corner_edges) =
      [Vector 0 0 0, Vector 1 0 0, Vector 1 0 0, Vector 0 1 0]"
    by (simp add: corner_edges_def line_edge_def)
  have n: "normalize (cross (Vector 1 0 0) (Vector 0 1 0)) = Vector 0 0 1"
    by (simp add: normalize_def cross_def Length_def dot_def)
  have r0: "fit_plane corner_edges =
          (let unique_points = fst (gather_edges ([], []) corner_edges);
               n = normalize (cross (vsub (unique_points ! 1) (unique_points ! 0))
                                    (vsub (unique_points ! 2) (unique_points ! 0)))
           in if \<forall>p \<in> set (concat (map Vertexes corner_edges)).
                    \<bar>dot (vsub p (unique_points ! 0)) n\<bar> \<le> tolerance
              then Inr (unique_points ! 0, n)
              else Inl (Exception PlanarityError ''Selected edges are not coplanar.''))"
    using C1_fit_plane_multi[OF h] fp by blast
  have r: "fit_plane corner_edges = Inr (Vector 0 0 0, Vector 0 0 1)"
    unfolding r0 by (simp add: corner_gather A n Let_def dot_def vsub_def tolerance_def)
  have d: "Length (Vector 0 0 1) = 1 \<and>
     (\<forall>p \<in> set (concat (map Vertexes corner_edges)).
       \<bar>dot (vsub p (Vector 0 0 0)) (Vector 0 0 1)\<bar> \<le> tolerance)"
    using C1_fit_plane_multi[OF h] r by blast
  show ?thesis using h fp r d unfolding list_all_iff by blast
qed

section \<open>The plane fitter on one edge\<close>

lemma hd_nth0: "xs \<noteq> [] \<Longrightarrow> hd xs = xs ! 0"
  by (cases xs) auto

text \<open>
  Claim C6, amended. For a selection of exactly one edge: if its curve is a circle, the
  plane is the circle's center and (normalized) axis. If it is a B-spline with fewer than
  three poles, it fails with the error "not enough control points" (InsufficientDataError);
  with three or more poles, the first pair of pole-difference vectors from pole 0 whose
  cross product is longer than the tolerance defines the normal, it fails with
  PlanarityError when there is no such pair and with PlanarityError when a pole is farther
  than the tolerance from the plane through pole 0. An edge of any other curve kind fails
  with UnsupportedGeometryError.
\<close>

theorem C6_fit_plane_single:
  "(\<forall>center axis radius. Curve e = Circle center axis radius \<longrightarrow>
       fit_plane [e] = Inr (center, normalize axis) \<and>
       (Length axis = 1 \<longrightarrow> normalize axis = axis)) \<and>
   (\<forall>poles mults knots periodic degree.
       Curve e = BSplineCurve poles mults knots periodic degree \<longrightarrow>
         (length poles < 3 \<longrightarrow>
            fit_plane [e] = Inl (Exception InsufficientDataError
              ''B-spline does not have enough control points to define a plane.'')) \<and>
         (3 \<le> length poles \<and>
          \<not> (\<exists>i j. 1 \<le> i \<and> i < j \<and> j < length poles \<and> exceeds poles i j) \<longrightarrow>
            fit_plane [e] = Inl (Exception PlanarityError
              ''B-spline control points are collinear and cannot define a plane.'')) \<and>
         (\<forall>i j. first_pair poles i j \<longrightarrow>
            fit_plane [e] =
              (let n = normalize (cross (vsub (poles ! i) (poles ! 0))
                                        (vsub (poles ! j) (poles ! 0)))
               in if \<forall>p \<in> set poles. \<bar>dot (vsub p (poles ! 0)) n\<bar> \<le> tolerance
                  then Inr (poles ! 0, n)
                  else Inl (Exception PlanarityError
                    ''B-spline is non-planar (3D curve). Select additional edges to define the plane.'')))) \<and>
   (\<not> is_Circle (Curve e) \<and> \<not> is_BSplineCurve (Curve e) \<longrightarrow>
       fit_plane [e] = Inl (Exception UnsupportedGeometryError
         (''Single edge of type '' @ CHR 0x27 # type_name (Curve e) @
          CHR 0x27 # '' cannot define a plane. Select at least 2 edges.'')))"
proof (intro conjI allI impI)
  fix center axis radius assume "Curve e = Circle center axis radius"
  then show "fit_plane [e] = Inr (center, normalize axis)"
    by (simp add: fit_plane_def fit_plane_single_def)
next
  fix center axis radius assume "Length axis = 1"
  then show "normalize axis = axis" by (cases axis) (simp add: normalize_def)
next
  fix poles mults knots periodic degree
  assume c: "Curve e = BSplineCurve poles mults knots periodic degree" and "length poles < 3"
  then show "fit_plane [e] = Inl (Exception InsufficientDataError
              ''B-spline does not have enough control points to define a plane.'')"
    by (simp add: fit_plane_def fit_plane_single_def)
next
  fix poles mults knots periodic degree
  assume c: "Curve e = BSplineCurve poles mults knots periodic degree"
    and a: "3 \<le> length poles \<and>
          \<not> (\<exists>i j. 1 \<le> i \<and> i < j \<and> j < length poles \<and> exceeds poles i j)"
  then have "find_normal poles = None" using find_normal_None by blast
  then show "fit_plane [e] = Inl (Exception PlanarityError
              ''B-spline control points are collinear and cannot define a plane.'')"
    using c a by (simp add: fit_plane_def fit_plane_single_def)
next
  fix poles mults knots periodic degree i j
  assume c: "Curve e = BSplineCurve poles mults knots periodic degree"
    and fp: "first_pair poles i j"
  then have len: "3 \<le> length poles" unfolding first_pair_def by linarith
  then have hd: "hd poles = poles ! 0" by (intro hd_nth0) auto
  show "fit_plane [e] =
              (let n = normalize (cross (vsub (poles ! i) (poles ! 0))
                                        (vsub (poles ! j) (poles ! 0)))
               in if \<forall>p \<in> set poles. \<bar>dot (vsub p (poles ! 0)) n\<bar> \<le> tolerance
                  then Inr (poles ! 0, n)
                  else Inl (Exception PlanarityError
                    ''B-spline is non-planar (3D curve). Select additional edges to define the plane.''))"
    using c len hd find_normal_first_pair[OF fp]
    by (simp add: fit_plane_def fit_plane_single_def all_within_iff Let_def)
next
  assume "\<not> is_Circle (Curve e) \<and> \<not> is_BSplineCurve (Curve e)"
  then show "fit_plane [e] = Inl (Exception UnsupportedGeometryError
         (''Single edge of type '' @ CHR 0x27 # type_name (Curve e) @
          CHR 0x27 # '' cannot define a plane. Select at least 2 edges.''))"
    by (cases "Curve e") (simp_all add: fit_plane_def fit_plane_single_def)
qed

theorem C6_fit_plane_single_witness:
  "Curve (spline_edge [Vector 0 0 0, Vector 1 0 0, Vector 0 1 0]) =
     BSplineCurve [Vector 0 0 0, Vector 1 0 0, Vector 0 1 0] [2, 2] [0, 1] False 1 \<and>
   first_pair [Vector 0 0 0, Vector 1 0 0, Vector 0 1 0] 1 2 \<and>
   fit_plane [spline_edge [Vector 0 0 0, Vector 1 0 0, Vector 0 1 0]] =
     Inr (Vector 0 0 0, Vector 0 0 1)"
proof -
  let ?P = "[Vector 0 0 0, Vector 1 0 0, Vector 0 1 0]"
  have c: "Curve (spline_edge ?P) = BSplineCurve ?P [2, 2] [0, 1] False 1"
    by (simp add: spline_edge_def)
  have n: "normalize (cross (Vector 1 0 0) (Vector 0 1 0)) = Vector 0 0 1"
    by (simp add: normalize_def cross_def Length_def dot_def)
  have r0: "fit_plane [spline_edge ?P] =
              (let n = normalize (cross (vsub (?P ! 1) (?P ! 0)) (vsub (?P ! 2) (?P ! 0)))
               in if \<forall>p \<in> set ?P. \<bar>dot (vsub p (?P ! 0)) n\<bar> \<le> tolerance
                  then Inr (?P ! 0, n)
                  else Inl (Exception PlanarityError
                    ''B-spline is non-planar (3D curve). Select additional edges to define the plane.''))"
    using C6_fit_plane_single[of "spline_edge ?P"] c corner_first_pair by blast
  have "fit_plane [spline_edge ?P] = Inr (Vector 0 0 0, Vector 0 0 1)"
    unfolding r0 by (simp add: n Let_def dot_def vsub_def tolerance_def)
  then show ?thesis using c corner_first_pair by blast
qed

text \<open>
  Claim C6 as stated fails on a B-spline with two poles: its poles are collinear, and the
  error is the one of the guard on the number of poles, not the PlanarityError for
  collinear poles.
\<close>

theorem C6_two_poles_counterexample:
  "find_normal [Vector 0 0 0, Vector 1 0 0] = None \<and>
   fit_plane [spline_edge [Vector 0 0 0, Vector 1 0 0]] =
     Inl (Exception InsufficientDataError
       ''B-spline does not have enough control points to define a plane.'') \<and>
   fit_plane [spline_edge [Vector 0 0 0, Vector 1 0 0]] \<noteq>
     Inl (Exception PlanarityError
       ''B-spline control points are collinear and cannot define a plane.'')"
  by (simp add: fit_plane_def fit_plane_single_def spline_edge_def)

section \<open>The frame builder\<close>

lemma Length_Z: "Length (Vector 0 0 1) = 1"
  by (simp add: Length_def dot_def)

lemma normalize_unit: "Length v = 1 \<Longrightarrow> normalize v = v"
  by (cases v) (simp add: normalize_def)

lemma Length_unit_normal: "Length (unit_normal normal) = 1"
  unfolding unit_normal_def
  by (simp add: Length_Z Length_normalize)

lemma unit_vz_bound: "Length v = 1 \<Longrightarrow> \<bar>vz v\<bar> \<le> 1"
proof -
  assume "Length v = 1"
  then have "dot v v = 1" unfolding Length_def by simp
  then have "vz v * vz v \<le> 1"
    unfolding dot_def
    by (smt (verit) zero_le_square)
  then show ?thesis
    by (metis abs_le_square_iff abs_one power2_eq_square one_power2)
qed

lemma multVec_from_Z:
  assumes "Length n = 1" and "1 + vz n \<noteq> 0"
  shows "multVec (RotationFromTo (Vector 0 0 1) n) (Vector 0 0 1) = n"
proof -
  have nz: "normalize (Vector 0 0 1) = Vector 0 0 1"
    by (simp add: normalize_unit Length_Z)
  have nn: "normalize n = n" using assms(1) by (rule normalize_unit)
  have c: "dot (Vector 0 0 1) n = vz n" by (simp add: dot_def)
  have "multVec (RotationFromTo (Vector 0 0 1) n) (Vector 0 0 1) =
      vadd (vadd (multiply (Vector 0 0 1) (vz n)) (cross (cross (Vector 0 0 1) n) (Vector 0 0 1)))
        (multiply (cross (Vector 0 0 1) n)
           (dot (cross (Vector 0 0 1) n) (Vector 0 0 1) / (1 + vz n)))"
    using assms(2) by (simp only: multVec.simps Let_def nz nn c if_False)
  also have "\<dots> = n"
    by (cases n) (simp add: cross_def dot_def vadd_def multiply_def)
  finally show ?thesis .
qed

lemma multVec_half_turn_X:
  "multVec (RotationAxisAngle (Vector 1 0 0) 180) (Vector 0 0 1) = Vector 0 0 (- 1)"
proof -
  have nx: "normalize (Vector 1 0 0) = Vector 1 0 0"
    by (simp add: normalize_def Length_def dot_def)
  show ?thesis
    by (simp add: nx rotate_about_def cross_def dot_def vadd_def multiply_def)
qed

text \<open>
  Claim C4, amended. The frame builder always returns a placement, whose base is the given
  point. The normal is first normalized, a normal no longer than 1e-6 being replaced by
  global +Z. When the Z component of the normalized normal is above 0.999 the rotation is
  the identity, when it is below -0.999 the rotation is the half turn about the X axis
  (which maps +Z onto -Z), whatever the X and Y components are; otherwise the rotation is
  the one the host builds from +Z to the normal, and it maps +Z onto the normal.
\<close>

theorem C4_create_sketch_placement:
  "Base (create_sketch_placement normal center) = center \<and>
   Length (unit_normal normal) = 1 \<and>
   (Length normal \<le> 1 / 1000000 \<longrightarrow> unit_normal normal = Vector 0 0 1) \<and>
   (Length normal = 1 \<longrightarrow> unit_normal normal = normal) \<and>
   (vz (unit_normal normal) > 999 / 1000 \<longrightarrow>
      Rot (create_sketch_placement normal center) = Rotation \<and>
      multVec (Rot (create_sketch_placement normal center)) (Vector 0 0 1) = Vector 0 0 1) \<and>
   (vz (unit_normal normal) < - (999 / 1000) \<longrightarrow>
      Rot (create_sketch_placement normal center) = RotationAxisAngle (Vector 1 0 0) 180 \<and>
      multVec (Rot (create_sketch_placement normal center)) (Vector 0 0 1) = Vector 0 0 (- 1)) \<and>
   (\<bar>vz (unit_normal normal)\<bar> \<le> 999 / 1000 \<longrightarrow>
      Rot (create_sketch_placement normal center) =
        RotationFromTo (Vector 0 0 1) (unit_normal normal) \<and>
      multVec (Rot (create_sketch_placement normal center)) (Vector 0 0 1) = unit_normal normal)"
proof -
  let ?n = "unit_normal normal"
  have p: "create_sketch_placement normal center =
      Placement center
        (if \<bar>vz ?n\<bar> > 999 / 1000
         then (if vz ?n > 0 then Rotation else RotationAxisAngle (Vector 1 0 0) 180)
         else RotationFromTo (Vector 0 0 1) ?n)"
    by (simp add: create_sketch_placement_def unit_normal_def Let_def dot_def)
  have u: "Length ?n = 1" by (rule Length_unit_normal)
  have a: "Length normal \<le> 1 / 1000000 \<longrightarrow> ?n = Vector 0 0 1"
    by (simp add: unit_normal_def)
  have b: "Length normal = 1 \<longrightarrow> ?n = normal"
    by (simp add: unit_normal_def normalize_unit)
  have c: "vz ?n > 999 / 1000 \<longrightarrow>
      Rot (create_sketch_placement normal center) = Rotation \<and>
      multVec (Rot (create_sketch_placement normal center)) (Vector 0 0 1) = Vector 0 0 1"
    unfolding p by auto
  have d: "vz ?n < - (999 / 1000) \<longrightarrow>
      Rot (create_sketch_placement normal center) = RotationAxisAngle (Vector 1 0 0) 180 \<and>
      multVec (Rot (create_sketch_placement normal center)) (Vector 0 0 1) = Vector 0 0 (- 1)"
    unfolding p using multVec_half_turn_X by auto
  have e: "\<bar>vz ?n\<bar> \<le> 999 / 1000 \<longrightarrow>
      Rot (create_sketch_placement normal center) = RotationFromTo (Vector 0 0 1) ?n \<and>
      multVec (Rot (create_sketch_placement normal center)) (Vector 0 0 1) = ?n"
  proof
    assume h: "\<bar>vz ?n\<bar> \<le> 999 / 1000"
    then have nz: "1 + vz ?n \<noteq> 0" by linarith
    have r: "Rot (create_sketch_placement normal center) = RotationFromTo (Vector 0 0 1) ?n"
      unfolding p using h by simp
    show "Rot (create_sketch_placement normal center) = RotationFromTo (Vector 0 0 1) ?n \<and>
      multVec (Rot (create_sketch_placement normal center)) (Vector 0 0 1) = ?n"
      using r multVec_from_Z[OF u nz] by simp
  qed
  have f: "Base (create_sketch_placement normal center) = center" unfolding p by simp
  show ?thesis using f u a b c d e by blast
qed

lemma Length_tilted: "Length tilted_normal = 1"
proof -
  have "dot tilted_normal tilted_normal = 1"
    by (simp add: tilted_normal_def dot_def)
  then show ?thesis by (simp add: Length_def)
qed

theorem C4_create_sketch_placement_witness:
  "Length (Vector 3 0 4) \<noteq> 1 \<and>
   unit_normal (Vector 3 0 4) = Vector (3 / 5) 0 (4 / 5) \<and>
   \<bar>vz (unit_normal (Vector 3 0 4))\<bar> \<le> 999 / 1000 \<and>
   Rot (create_sketch_placement (Vector 3 0 4) (Vector 1 2 3)) =
     RotationFromTo (Vector 0 0 1) (Vector (3 / 5) 0 (4 / 5)) \<and>
   multVec (Rot (create_sketch_placement (Vector 3 0 4) (Vector 1 2 3))) (Vector 0 0 1) =
     Vector (3 / 5) 0 (4 / 5) \<and>
   Rot (create_sketch_placement tilted_normal (Vector 1 2 3)) = Rotation"
proof -
  have L: "Length (Vector 3 0 4) = 5"
  proof -
    have "dot (Vector 3 0 4) (Vector 3 0 4) = 5 * 5" by (simp add: dot_def)
    then show ?thesis unfolding Length_def by (metis real_sqrt_abs2 abs_numeral)
  qed
  have n: "unit_normal (Vector 3 0 4) = Vector (3 / 5) 0 (4 / 5)"
    by (simp add: unit_normal_def L normalize_def)
  have h: "\<bar>vz (unit_normal (Vector 3 0 4))\<bar> \<le> 999 / 1000" by (simp add: n)
  have t: "unit_normal tilted_normal = tilted_normal"
    using C4_create_sketch_placement[of tilted_normal] Length_tilted by blast
  have tz: "vz (unit_normal tilted_normal) > 999 / 1000"
    unfolding t by (simp add: tilted_normal_def)
  have r1: "Rot (create_sketch_placement (Vector 3 0 4) (Vector 1 2 3)) =
        RotationFromTo (Vector 0 0 1) (unit_normal (Vector 3 0 4)) \<and>
      multVec (Rot (create_sketch_placement (Vector 3 0 4) (Vector 1 2 3))) (Vector 0 0 1) =
        unit_normal (Vector 3 0 4)"
    using C4_create_sketch_placement[of "Vector 3 0 4" "Vector 1 2 3"] h by blast
  have r2: "Rot (create_sketch_placement tilted_normal (Vector 1 2 3)) = Rotation"
    using C4_create_sketch_placement[of tilted_normal "Vector 1 2 3"] tz by blast
  have L1: "Length (Vector 3 0 4) \<noteq> 1" by (simp add: L)
  show ?thesis using r1[unfolded n] r2 h L1 n by blast
qed

text \<open>
  Claim C4 as stated fails on the unit normal (100/2501, 0, 2499/2501): it is neither
  parallel nor anti-parallel to +Z, yet the rotation is the identity, which does not map
  +Z onto it.
\<close>

theorem C4_near_parallel_counterexample:
  "Length tilted_normal = 1 \<and>
   tilted_normal \<noteq> Vector 0 0 1 \<and>
   tilted_normal \<noteq> Vector 0 0 (- 1) \<and>
   cross (Vector 0 0 1) tilted_normal \<noteq> Vector 0 0 0 \<and>
   Rot (create_sketch_placement tilted_normal (Vector 0 0 0)) = Rotation \<and>
   multVec (Rot (create_sketch_placement tilted_normal (Vector 0 0 0))) (Vector 0 0 1)
     \<noteq> tilted_normal"
proof -
  have n: "normalize tilted_normal = tilted_normal"
    by (rule normalize_unit) (rule Length_tilted)
  have r: "Rot (create_sketch_placement tilted_normal (Vector 0 0 0)) = Rotation"
    by (simp add: create_sketch_placement_def Length_tilted n Let_def dot_def)
       (simp add: tilted_normal_def)
  show ?thesis
    unfolding r using Length_tilted
    by (simp add: tilted_normal_def cross_def)
qed

section \<open>Re-projection of circles and arcs\<close>

lemma py_index_first: "xs \<noteq> [] \<Longrightarrow> py_index xs 0 = Some (hd xs)"
  by (cases xs) (auto simp: py_index_def)

lemma py_index_last: "xs \<noteq> [] \<Longrightarrow> py_index xs (- 1) = Some (last xs)"
proof -
  assume ne: "xs \<noteq> []"
  then have "nat (int (length xs) + - 1) = length xs - 1" by (cases xs) auto
  moreover have "Suc 0 \<le> length xs" using ne by (cases xs) auto
  ultimately show ?thesis using ne
    by (simp add: py_index_def last_conv_nth)
qed

text \<open>
  Claim C7. For an edge on a circle, the arc length is compared with twice the literal
  3.141592653589793 (the macro's value of pi) times the radius: when they differ by less
  than 0.01, the entry added is a full circle with the transformed center, the axis +Z and
  the radius; otherwise it is the arc through the transformed first vertex, the transformed
  point at the middle of the parameter range and the transformed last vertex. The entry is
  appended as ordinary (not construction) geometry and its index is returned.
\<close>

theorem C7_add_circle_to_sketch:
  assumes "Curve e = Circle center axis radius"
  shows
   "(\<bar>ArcLength e - 2 * pi_literal * radius\<bar> < 1 / 100 \<and>
     addGeometry_ok h s (Circle (inverse_placement center) (Vector 0 0 1) radius) \<longrightarrow>
       add_circle_to_sketch h s e inverse_placement =
         Inr (s\<lparr>Geometry := Geometry s @
                  [(Circle (inverse_placement center) (Vector 0 0 1) radius, False)]\<rparr>,
              int (length (Geometry s)))) \<and>
    (\<not> \<bar>ArcLength e - 2 * pi_literal * radius\<bar> < 1 / 100 \<and> Vertexes e \<noteq> [] \<and>
     addGeometry_ok h s
       (ArcOfCircle (inverse_placement (hd (Vertexes e)))
          (inverse_placement
             (valueAt e ((fst (ParameterRange e) + snd (ParameterRange e)) / 2)))
          (inverse_placement (last (Vertexes e)))) \<longrightarrow>
       add_circle_to_sketch h s e inverse_placement =
         Inr (s\<lparr>Geometry := Geometry s @
                  [(ArcOfCircle (inverse_placement (hd (Vertexes e)))
                      (inverse_placement
                         (valueAt e ((fst (ParameterRange e) + snd (ParameterRange e)) / 2)))
                      (inverse_placement (last (Vertexes e))), False)]\<rparr>,
              int (length (Geometry s))))"
proof (intro conjI impI)
  assume "\<bar>ArcLength e - 2 * pi_literal * radius\<bar> < 1 / 100 \<and>
     addGeometry_ok h s (Circle (inverse_placement center) (Vector 0 0 1) radius)"
  then show "add_circle_to_sketch h s e inverse_placement =
         Inr (s\<lparr>Geometry := Geometry s @
                  [(Circle (inverse_placement center) (Vector 0 0 1) radius, False)]\<rparr>,
              int (length (Geometry s)))"
    using assms by (simp add: add_circle_to_sketch_def addGeometry_def Let_def)
next
  let ?arc = "ArcOfCircle (inverse_placement (hd (Vertexes e)))
          (inverse_placement
             (valueAt e ((fst (ParameterRange e) + snd (ParameterRange e)) / 2)))
          (inverse_placement (last (Vertexes e)))"
  assume a: "\<not> \<bar>ArcLength e - 2 * pi_literal * radius\<bar> < 1 / 100 \<and> Vertexes e \<noteq> [] \<and>
     addGeometry_ok h s ?arc"
  then have v0: "Vertexes_at e 0 = Inr (hd (Vertexes e))"
    and v1: "Vertexes_at e (- 1) = Inr (last (Vertexes e))"
    by (simp_all add: Vertexes_at_def py_index_first py_index_last)
  show "add_circle_to_sketch h s e inverse_placement =
         Inr (s\<lparr>Geometry := Geometry s @ [(?arc, False)]\<rparr>, int (length (Geometry s)))"
    using assms a
    by (simp add: add_circle_to_sketch_def addGeometry_def Let_def v0 v1 raise_at_def)
qed

theorem C7_add_circle_to_sketch_witness:
  "add_circle_to_sketch sample_host empty_sketch (circle_edge (Vector 0 0 10) 5)
       (\<lambda>p. vsub p (Vector 0 0 10)) =
     Inr (empty_sketch\<lparr>Geometry := [(Circle (Vector 0 0 0) (Vector 0 0 1) 5, False)]\<rparr>, 0) \<and>
   add_circle_to_sketch sample_host empty_sketch half_arc_edge (\<lambda>p. p) =
     Inr (empty_sketch\<lparr>Geometry :=
            [(ArcOfCircle (Vector 1 0 0) (Vector 0 1 0) (Vector (- 1) 0 0), False)]\<rparr>, 0)"
proof -
  have c: "Curve (circle_edge (Vector 0 0 10) 5) = Circle (Vector 0 0 10) (Vector 0 0 1) 5"
    by (simp add: circle_edge_def)
  have full: "\<bar>ArcLength (circle_edge (Vector 0 0 10) 5) - 2 * pi_literal * 5\<bar> < 1 / 100 \<and>
     addGeometry_ok sample_host empty_sketch
       (Circle (vsub (Vector 0 0 10) (Vector 0 0 10)) (Vector 0 0 1) 5)"
    by (simp add: circle_edge_def sample_host_def)
  have r1: "add_circle_to_sketch sample_host empty_sketch (circle_edge (Vector 0 0 10) 5)
       (\<lambda>p. vsub p (Vector 0 0 10)) =
     Inr (empty_sketch\<lparr>Geometry := Geometry empty_sketch @
            [(Circle (vsub (Vector 0 0 10) (Vector 0 0 10)) (Vector 0 0 1) 5, False)]\<rparr>,
          int (length (Geometry empty_sketch)))"
    using C7_add_circle_to_sketch[OF c, where h = sample_host and s = empty_sketch
        and inverse_placement = "\<lambda>p. vsub p (Vector 0 0 10)"]
      full by blast
  have a: "Curve half_arc_edge = Circle (Vector 0 0 0) (Vector 0 0 1) 1"
    by (simp add: half_arc_edge_def)
  have arc: "\<not> \<bar>ArcLength half_arc_edge - 2 * pi_literal * 1\<bar> < 1 / 100 \<and>
     Vertexes half_arc_edge \<noteq> [] \<and>
     addGeometry_ok sample_host empty_sketch
       (ArcOfCircle (hd (Vertexes half_arc_edge))
          (valueAt half_arc_edge
             ((fst (ParameterRange half_arc_edge) + snd (ParameterRange half_arc_edge)) / 2))
          (last (Vertexes half_arc_edge)))"
    by (simp add: half_arc_edge_def sample_host_def pi_literal_def)
  have r2: "add_circle_to_sketch sample_host empty_sketch half_arc_edge (\<lambda>p. p) =
     Inr (empty_sketch\<lparr>Geometry := Geometry empty_sketch @
            [(ArcOfCircle (hd (Vertexes half_arc_edge))
                (valueAt half_arc_edge
                   ((fst (ParameterRange half_arc_edge) + snd (ParameterRange half_arc_edge)) / 2))
                (last (Vertexes half_arc_edge)), False)]\<rparr>,
          int (length (Geometry empty_sketch)))"
    using C7_add_circle_to_sketch[OF a, where h = sample_host and s = empty_sketch
        and inverse_placement = "\<lambda>p. p"]
      arc by blast
  show ?thesis
    unfolding r1 r2 by (simp add: empty_sketch_def half_arc_edge_def vsub_def)
qed

section \<open>The vertex-coincidence pass\<close>

lemma bind_Inr_iff: "bind m f = Inr y \<longleftrightarrow> (\<exists>a. m = Inr a \<and> f a = Inr y)"
  by (cases m) auto

lemma bind_Inl_iff: "bind m f = Inl x \<longleftrightarrow> m = Inl x \<or> (\<exists>a. m = Inr a \<and> f a = Inl x)"
  by (cases m) auto

lemma addConstraint_Inr:
  "addConstraint h s c = Inr r \<longleftrightarrow>
     addConstraint_ok h s c \<and>
     r = (s\<lparr>Constraints := Constraints s @ [(c, True)]\<rparr>, int (length (Constraints s)))"
  by (auto simp: addConstraint_def)

lemma addConstraint_Inl:
  "addConstraint h s c = Inl r \<longleftrightarrow>
     \<not> addConstraint_ok h s c \<and> r = (Exception HostError ''addConstraint'', s)"
  by (auto simp: addConstraint_def)

lemma addGeometry_Inr:
  "addGeometry h s g c = Inr r \<longleftrightarrow>
     addGeometry_ok h s g \<and>
     r = (s\<lparr>Geometry := Geometry s @ [(g, c)]\<rparr>, int (length (Geometry s)))"
  by (auto simp: addGeometry_def)

lemma addGeometry_Inl:
  "addGeometry h s g c = Inl r \<longleftrightarrow>
     \<not> addGeometry_ok h s g \<and> r = (Exception HostError ''addGeometry'', s)"
  by (auto simp: addGeometry_def)

lemma Geometry_at_Inr:
  "Geometry_at s g = Inr geo \<longleftrightarrow> (\<exists>entry. py_index (Geometry s) g = Some entry \<and> geo = fst entry)"
  by (auto simp: Geometry_at_def split: option.splits)

lemma Geometry_at_Inl:
  "Geometry_at s g = Inl r \<longleftrightarrow>
     py_index (Geometry s) g = None \<and> r = (Exception HostError ''list index out of range'', s)"
  by (auto simp: Geometry_at_def split: option.splits)

lemma getPoint_eq:
  "py_index (Geometry s) g = Some entry \<Longrightarrow>
   getPoint h s g pos =
     (case point_of h (fst entry) pos of
        None \<Rightarrow> Inl (Exception HostError ''getPoint'', s) | Some p \<Rightarrow> Inr p)"
  by (simp add: getPoint_def)

lemma two_ended_iff: "two_ended h geo \<longleftrightarrow> \<not> is_Circle geo \<and> has_endpoints h geo"
  by (cases geo) auto

lemma fill_append: "fill vm (xs @ ys) = fill (fill vm xs) ys"
  by (simp add: fill_def)

lemma collect_vertices_fill:
  "collect_vertices h (s, vm) gi = Inr (s', vm') \<Longrightarrow>
     Geometry s' = Geometry s \<and> Constraints s' = Constraints s \<and>
     vm' = fill vm (members h (Geometry s) (map fst gi))"
proof (induction gi arbitrary: s vm)
  case Nil
  then show ?case by (simp add: members_def fill_def)
next
  case (Cons ge rest)
  obtain g e where ge: "ge = (g, e)" by (cases ge)
  from Cons.prems obtain geo where geo: "Geometry_at s g = Inr geo"
    by (auto simp: ge bind_Inr_iff)
  then obtain entry where entry: "py_index (Geometry s) g = Some entry" "geo = fst entry"
    by (auto simp: Geometry_at_Inr)
  have mem: "members h (Geometry s) (g # map fst rest) =
      visit h (Geometry s) g @ members h (Geometry s) (map fst rest)"
    by (simp add: members_def)
  show ?case
  proof (cases "\<not> is_Circle geo \<and> has_endpoints h geo")
    case False
    then have v: "visit h (Geometry s) g = []"
      using entry by (auto simp: visit_def two_ended_iff)
    from False Cons.prems geo have "collect_vertices h (s, vm) rest = Inr (s', vm')"
      by (auto simp: ge split: if_splits)
    from Cons.IH[OF this] show ?thesis by (simp add: ge mem v fill_def)
  next
    case True
    show ?thesis
    proof (cases "point_of h geo 1")
      case None
      then have v: "visit h (Geometry s) g = []"
        using entry True by (simp add: visit_def two_ended_iff)
      have "getPoint h s g 1 = Inl (Exception HostError ''getPoint'', s)"
        using entry None by (simp add: getPoint_eq)
      with True Cons.prems geo have
        "collect_vertices h (warn s ''Could not get points for geometry'', vm) rest = Inr (s', vm')"
        by (auto simp: ge)
      from Cons.IH[OF this] show ?thesis by (simp add: ge mem v fill_def warn_def)
    next
      case (Some v1)
      then have g1: "getPoint h s g 1 = Inr v1" using entry by (simp add: getPoint_eq)
      show ?thesis
      proof (cases "point_of h geo 2")
        case None
        then have v: "visit h (Geometry s) g = []"
          using entry True Some by (simp add: visit_def two_ended_iff)
        have "getPoint h s g 2 = Inl (Exception HostError ''getPoint'', s)"
          using entry None by (simp add: getPoint_eq)
        with True Cons.prems geo g1 have
          "collect_vertices h (warn s ''Could not get points for geometry'', vm) rest = Inr (s', vm')"
          by (auto simp: ge)
        from Cons.IH[OF this] show ?thesis by (simp add: ge mem v fill_def warn_def)
      next
        case (Some v2)
        then have g2: "getPoint h s g 2 = Inr v2" using entry by (simp add: getPoint_eq)
        have v: "visit h (Geometry s) g = [(rounded_key v1, (g, 1)), (rounded_key v2, (g, 2))]"
          using entry True \<open>point_of h geo 1 = Some v1\<close> Some
          by (simp add: visit_def two_ended_iff rounded_key_def)
        from True Cons.prems geo g1 g2 have
          "collect_vertices h (s, setdefault_append (setdefault_append vm (rounded_key v1) (g, 1))
                (rounded_key v2) (g, 2)) rest = Inr (s', vm')"
          by (auto simp: ge)
        from Cons.IH[OF this] show ?thesis by (simp add: ge mem v fill_def)
      qed
    qed
  qed
qed

lemma first_occ_snoc:
  "first_occ (xs @ [k]) = (if k \<in> set xs then first_occ xs else first_occ xs @ [k])"
  by (simp add: first_occ_def)

lemma set_first_occ: "set (first_occ xs) = set xs"
  by (simp add: first_occ_def)

lemma distinct_first_occ: "distinct (first_occ xs)"
  by (simp add: first_occ_def)

lemma group_of_snoc:
  "group_of (ms @ [(k, v)]) k' = (if k' = k then group_of ms k' @ [v] else group_of ms k')"
  by (simp add: group_of_def)

lemma group_of_absent: "k \<notin> fst ` set ms \<Longrightarrow> group_of ms k = []"
  by (auto simp: group_of_def filter_empty_conv)

lemma setdefault_append_map:
  "distinct ks \<Longrightarrow>
   setdefault_append (map (\<lambda>k'. (k', f k')) ks) k v =
     (if k \<in> set ks
      then map (\<lambda>k'. (k', if k' = k then f k' @ [v] else f k')) ks
      else map (\<lambda>k'. (k', f k')) ks @ [(k, [v])])"
  by (induction ks) auto

lemma groups_snoc: "groups (ms @ [(k, v)]) = setdefault_append (groups ms) k v"
proof -
  let ?ks = "first_occ (map fst ms)"
  have d: "distinct ?ks" by (rule distinct_first_occ)
  have s: "set ?ks = fst ` set ms" by (simp add: set_first_occ)
  show ?thesis
  proof (cases "k \<in> fst ` set ms")
    case True
    then have "groups (ms @ [(k, v)]) =
        map (\<lambda>k'. (k', if k' = k then group_of ms k' @ [v] else group_of ms k')) ?ks"
      by (simp add: groups_def first_occ_snoc group_of_snoc)
    also have "\<dots> = setdefault_append (groups ms) k v"
      unfolding groups_def using setdefault_append_map[OF d, of "group_of ms" k v] True s
      by simp
    finally show ?thesis .
  next
    case False
    then have notin: "k \<notin> set ?ks" using s by simp
    have same: "map (\<lambda>k'. (k', group_of (ms @ [(k, v)]) k')) ?ks =
        map (\<lambda>k'. (k', group_of ms k')) ?ks"
      using notin by (intro map_cong) (auto simp: group_of_snoc)
    have "groups (ms @ [(k, v)]) = map (\<lambda>k'. (k', group_of ms k')) ?ks @ [(k, [v])]"
      using False same by (simp add: groups_def first_occ_snoc group_of_snoc group_of_absent)
    also have "\<dots> = setdefault_append (groups ms) k v"
      unfolding groups_def using setdefault_append_map[OF d, of "group_of ms" k v] notin
      by simp
    finally show ?thesis .
  qed
qed

lemma fill_groups: "fill [] ms = groups ms"
proof (induction ms rule: rev_induct)
  case Nil
  then show ?case by (simp add: fill_def groups_def first_occ_def)
next
  case (snoc kv ms)
  obtain k v where kv: "kv = (k, v)" by (cases kv)
  have "fill [] (ms @ [kv]) = setdefault_append (fill [] ms) k v"
    by (simp add: fill_def kv)
  then show ?case using snoc groups_snoc[of ms k v] by (simp add: kv)
qed

lemma constrain_groups_accepting:
  assumes ok: "\<And>st a b c d. addConstraint_ok h st (Coincident a b c d)"
  shows "Geometry (constrain_groups h s vm) = Geometry s \<and>
         Console (constrain_groups h s vm) = Console s \<and>
         Constraints (constrain_groups h s vm) =
           Constraints s @ map (\<lambda>kv. (pair_constraint (snd kv), True))
                              (filter (\<lambda>kv. 1 < length (snd kv)) vm)"
proof (induction vm arbitrary: s)
  case Nil
  then show ?case by simp
next
  case (Cons kv vm)
  obtain k vl where kv: "kv = (k, vl)" by (cases kv)
  show ?case
  proof (cases "1 < length vl")
    case False
    then show ?thesis using Cons.IH[of s] by (simp add: kv)
  next
    case True
    let ?c = "Coincident (fst (vl ! 0)) (snd (vl ! 0)) (fst (vl ! 1)) (snd (vl ! 1))"
    let ?s1 = "s\<lparr>Constraints := Constraints s @ [(?c, True)]\<rparr>"
    have a: "addConstraint h s ?c = Inr (?s1, int (length (Constraints s)))"
      using ok by (simp add: addConstraint_def)
    have "constrain_groups h s (kv # vm) = constrain_groups h ?s1 vm"
      using True a by (simp add: kv Let_def)
    then show ?thesis using Cons.IH[of ?s1] True by (simp add: kv pair_constraint_def)
  qed
qed

lemma round_half_even_near: "\<bar>of_int (round_half_even y) - y\<bar> \<le> 1 / 2"
proof -
  have "of_int \<lfloor>y\<rfloor> \<le> y" "y < of_int \<lfloor>y\<rfloor> + 1" by linarith+
  then show ?thesis
    unfolding round_half_even_def Let_def by (auto simp: abs_le_iff)
qed

lemma round6_near: "\<bar>round6 x - x\<bar> \<le> 1 / 2000000"
proof -
  have "\<bar>of_int (round_half_even (x * 1000000)) - x * 1000000\<bar> \<le> 1 / 2"
    by (rule round_half_even_near)
  then show ?thesis unfolding round6_def by (simp add: abs_le_iff field_simps)
qed

lemma round6_grid: "round6 x * 1000000 = of_int (round_half_even (x * 1000000))"
  by (simp add: round6_def)

section \<open>The vertex-coincidence pass on a sketch\<close>

lemma constrain_groups_any:
  "Geometry (constrain_groups h s vm) = Geometry s \<and>
   (\<exists>ws. subseq ws (filter (\<lambda>kv. 1 < length (snd kv)) vm) \<and>
         Constraints (constrain_groups h s vm) =
           Constraints s @ map (\<lambda>kv. (pair_constraint (snd kv), True)) ws)"
proof (induction vm arbitrary: s)
  case Nil
  then show ?case by simp
next
  case (Cons kv vm)
  obtain k vl where kv: "kv = (k, vl)" by (cases kv)
  show ?case
  proof (cases "1 < length vl")
    case False
    then show ?thesis using Cons.IH[of s] by (simp add: kv)
  next
    case True
    let ?c = "Coincident (fst (vl ! 0)) (snd (vl ! 0)) (fst (vl ! 1)) (snd (vl ! 1))"
    show ?thesis
    proof (cases "addConstraint_ok h s ?c")
      case ok: True
      let ?s1 = "s\<lparr>Constraints := Constraints s @ [(?c, True)]\<rparr>"
      have e: "constrain_groups h s (kv # vm) = constrain_groups h ?s1 vm"
        using True ok by (simp add: kv Let_def addConstraint_def)
      from Cons.IH[of ?s1] obtain ws where ws:
        "subseq ws (filter (\<lambda>kv. 1 < length (snd kv)) vm)"
        "Constraints (constrain_groups h ?s1 vm) =
           Constraints ?s1 @ map (\<lambda>kv. (pair_constraint (snd kv), True)) ws"
        and g: "Geometry (constrain_groups h ?s1 vm) = Geometry ?s1" by blast
      have "subseq (kv # ws) (filter (\<lambda>kv. 1 < length (snd kv)) (kv # vm))"
        using ws(1) True by (simp add: kv)
      moreover have "Constraints (constrain_groups h s (kv # vm)) =
           Constraints s @ map (\<lambda>kv. (pair_constraint (snd kv), True)) (kv # ws)"
        using ws(2) e by (simp add: kv pair_constraint_def)
      moreover have "Geometry (constrain_groups h s (kv # vm)) = Geometry s"
        using g e by simp
      ultimately show ?thesis by blast
    next
      case no: False
      let ?s1 = "warn s ''Failed to constrain''"
      have e: "constrain_groups h s (kv # vm) = constrain_groups h ?s1 vm"
        using True no by (simp add: kv Let_def addConstraint_def)
      from Cons.IH[of ?s1] obtain ws where ws:
        "subseq ws (filter (\<lambda>kv. 1 < length (snd kv)) vm)"
        "Constraints (constrain_groups h ?s1 vm) =
           Constraints ?s1 @ map (\<lambda>kv. (pair_constraint (snd kv), True)) ws"
        and g: "Geometry (constrain_groups h ?s1 vm) = Geometry ?s1" by blast
      have "subseq ws (filter (\<lambda>kv. 1 < length (snd kv)) (kv # vm))"
        using ws(1) True by (auto simp: kv)
      moreover have "Constraints (constrain_groups h s (kv # vm)) =
           Constraints s @ map (\<lambda>kv. (pair_constraint (snd kv), True)) ws"
        using ws(2) e by (simp add: warn_def)
      moreover have "Geometry (constrain_groups h s (kv # vm)) = Geometry s"
        using g e by (simp add: warn_def)
      ultimately show ?thesis by blast
    qed
  qed
qed

lemma round_half_even_tie:
  "\<bar>of_int (round_half_even y) - y\<bar> = 1 / 2 \<Longrightarrow> even (round_half_even y)"
proof -
  assume a: "\<bar>of_int (round_half_even y) - y\<bar> = 1 / 2"
  have b: "of_int \<lfloor>y\<rfloor> \<le> y" "y < of_int \<lfloor>y\<rfloor> + 1" by linarith+
  show ?thesis
  proof (cases "y - of_int \<lfloor>y\<rfloor> < 1 / 2")
    case True
    then have n: "round_half_even y = \<lfloor>y\<rfloor>" by (simp add: round_half_even_def Let_def)
    have "\<bar>of_int \<lfloor>y\<rfloor> - y\<bar> = y - of_int \<lfloor>y\<rfloor>" using b by linarith
    with a True n have False by simp
    then show ?thesis by blast
  next
    case False
    show ?thesis
    proof (cases "y - of_int \<lfloor>y\<rfloor> > 1 / 2")
      case True
      then have n: "round_half_even y = \<lfloor>y\<rfloor> + 1"
        by (simp add: round_half_even_def Let_def)
      have "\<bar>of_int (\<lfloor>y\<rfloor> + 1) - y\<bar> = of_int \<lfloor>y\<rfloor> + 1 - y" using b by simp
      with a True n have False by simp
      then show ?thesis by blast
    next
      case neither: False
      with False show ?thesis by (simp add: round_half_even_def Let_def)
    qed
  qed
qed

lemma round6_spec:
  "\<bar>round6 x - x\<bar> \<le> 1 / 2000000 \<and>
   (\<exists>n. round6 x = of_int n / 1000000 \<and> (\<bar>round6 x - x\<bar> = 1 / 2000000 \<longrightarrow> even n))"
proof -
  let ?n = "round_half_even (x * 1000000)"
  have r: "round6 x = of_int ?n / 1000000" by (simp add: round6_def)
  have "\<bar>round6 x - x\<bar> = 1 / 2000000 \<longrightarrow> even ?n"
  proof
    assume "\<bar>round6 x - x\<bar> = 1 / 2000000"
    then have "\<bar>of_int ?n / 1000000 - x\<bar> * 1000000 = 1 / 2" by (simp add: r)
    then have "\<bar>of_int ?n - x * 1000000\<bar> = 1 / 2"
      by (simp add: abs_if field_simps split: if_splits)
    then show "even ?n" by (rule round_half_even_tie)
  qed
  then show ?thesis using round6_near r by blast
qed

text \<open>
  Claim C5. The vertex-coincidence pass leaves the geometry as it is. It visits the
  entries in order, skips full circles, and for an entry with two endpoints reads both
  points from the geometry object stored in the sketch at the entry's index (the source
  edge of the entry is not used); the key of an endpoint is the triple of its coordinates,
  each rounded to six decimal places (the nearest multiple of 1e-6, at most 5e-7 away, an
  exact tie going to the even multiple); the endpoints are grouped by their keys, the
  groups in the order of their first member. The constraints added are Coincident
  constraints between the first two members of groups with at least two members, at most
  one for a group and in the order of the groups; when the host accepts every Coincident
  constraint there is exactly one for each such group.
\<close>

theorem C5_vertex_coincidence:
  assumes "add_vertex_coincident_constraints h s geo_indices = Inr s'"
  shows "Geometry s' = Geometry s \<and>
    (\<exists>ws. subseq ws (filter (\<lambda>kv. 1 < length (snd kv))
                      (groups (members h (Geometry s) (map fst geo_indices)))) \<and>
          Constraints s' = Constraints s @ map (\<lambda>kv. (pair_constraint (snd kv), True)) ws) \<and>
    ((\<forall>st a b c d. addConstraint_ok h st (Coincident a b c d)) \<longrightarrow>
       Constraints s' =
         Constraints s @
         map (\<lambda>kv. (pair_constraint (snd kv), True))
           (filter (\<lambda>kv. 1 < length (snd kv))
              (groups (members h (Geometry s) (map fst geo_indices))))) \<and>
    (\<forall>x. \<bar>round6 x - x\<bar> \<le> 1 / 2000000 \<and>
         (\<exists>n. round6 x = of_int n / 1000000 \<and>
              (\<bar>round6 x - x\<bar> = 1 / 2000000 \<longrightarrow> even n)))"
proof -
  from assms obtain s1 vm where c: "collect_vertices h (s, []) geo_indices = Inr (s1, vm)"
    and r: "s' = constrain_groups h s1 vm"
    by (auto simp: add_vertex_coincident_constraints_def bind_Inr_iff)
  from collect_vertices_fill[OF c] have g1: "Geometry s1 = Geometry s"
    and c1: "Constraints s1 = Constraints s"
    and vm: "vm = groups (members h (Geometry s) (map fst geo_indices))"
    by (simp_all add: fill_groups)
  have a: "Geometry s' = Geometry s"
    using constrain_groups_any[of h s1 vm] g1 r by simp
  have b: "\<exists>ws. subseq ws (filter (\<lambda>kv. 1 < length (snd kv))
                      (groups (members h (Geometry s) (map fst geo_indices)))) \<and>
          Constraints s' = Constraints s @ map (\<lambda>kv. (pair_constraint (snd kv), True)) ws"
    using constrain_groups_any[of h s1 vm] c1 r vm by simp
  have d: "(\<forall>st a b c d. addConstraint_ok h st (Coincident a b c d)) \<longrightarrow>
       Constraints s' =
         Constraints s @
         map (\<lambda>kv. (pair_constraint (snd kv), True))
           (filter (\<lambda>kv. 1 < length (snd kv))
              (groups (members h (Geometry s) (map fst geo_indices))))"
  proof
    assume ok: "\<forall>st a b c d. addConstraint_ok h st (Coincident a b c d)"
    show "Constraints s' =
         Constraints s @
         map (\<lambda>kv. (pair_constraint (snd kv), True))
           (filter (\<lambda>kv. 1 < length (snd kv))
              (groups (members h (Geometry s) (map fst geo_indices))))"
      using constrain_groups_accepting[of h s1 vm] ok c1 r vm by simp
  qed
  show ?thesis using a b d round6_spec by blast
qed

lemma round6_eval [simp]:
  "round6 0 = 0" "round6 1 = 1" "round6 2 = 2" "round6 (10000001 / 10000000) = 1"
  by (simp_all add: round6_def round_half_even_def)

lemma sample_point_of [simp]:
  "point_of sample_host (LineSegment a b) 1 = Some a"
  "point_of sample_host (LineSegment a b) 2 = Some b"
  "point_of sample_host (ArcOfCircle a m b) 1 = Some a"
  "point_of sample_host (ArcOfCircle a m b) 2 = Some b"
  by (simp_all add: sample_host_def)

lemma sample_accepts [simp]:
  "addConstraint_ok sample_host st c" "addGeometry_ok sample_host st g"
  by (simp_all add: sample_host_def)

lemma sample_has_endpoints [simp]: "other_has_endpoints sample_host n = False"
  by (simp add: sample_host_def)

lemma py_index_0 [simp]: "py_index (x # xs) 0 = Some x"
  by (simp add: py_index_def)

lemma py_index_1 [simp]: "py_index (x # y # xs) 1 = Some y"
  by (simp add: py_index_def)

lemma py_index_2 [simp]: "py_index (x # y # z # xs) 2 = Some z"
  by (simp add: py_index_def)

lemma py_index_3 [simp]: "py_index (x # y # z # u # xs) 3 = Some u"
  by (simp add: py_index_def)

lemma py_index_4 [simp]: "py_index (x # y # z # u # v # xs) 4 = Some v"
  by (simp add: py_index_def)

lemma loop_Geometry_at:
  "Geometry_at loop_sketch 0 = Inr (LineSegment (Vector 0 0 0) (Vector 1 0 0))"
  "Geometry_at loop_sketch 1 = Inr (Circle (Vector 5 5 0) (Vector 0 0 1) 1)"
  "Geometry_at loop_sketch 2 =
     Inr (LineSegment (Vector (10000001 / 10000000) 0 0) (Vector 1 1 0))"
  "Geometry_at loop_sketch 3 =
     Inr (ArcOfCircle (Vector 1 1 0) (Vector 0 1 0) (Vector 0 0 0))"
  "Geometry_at loop_sketch 4 = Inr (LineSegment (Vector 1 0 0) (Vector 2 0 0))"
  by (simp_all add: loop_sketch_def Geometry_at_def)

lemma loop_getPoint:
  "getPoint sample_host loop_sketch 0 1 = Inr (Vector 0 0 0)"
  "getPoint sample_host loop_sketch 0 2 = Inr (Vector 1 0 0)"
  "getPoint sample_host loop_sketch 2 1 = Inr (Vector (10000001 / 10000000) 0 0)"
  "getPoint sample_host loop_sketch 2 2 = Inr (Vector 1 1 0)"
  "getPoint sample_host loop_sketch 3 1 = Inr (Vector 1 1 0)"
  "getPoint sample_host loop_sketch 3 2 = Inr (Vector 0 0 0)"
  "getPoint sample_host loop_sketch 4 1 = Inr (Vector 1 0 0)"
  "getPoint sample_host loop_sketch 4 2 = Inr (Vector 2 0 0)"
  by (simp_all add: loop_sketch_def getPoint_def)

lemma loop_keys:
  "rounded_key (Vector 0 0 0) = (0, 0, 0)"
  "rounded_key (Vector 1 0 0) = (1, 0, 0)"
  "rounded_key (Vector (10000001 / 10000000) 0 0) = (1, 0, 0)"
  "rounded_key (Vector 1 1 0) = (1, 1, 0)"
  "rounded_key (Vector 2 0 0) = (2, 0, 0)"
  by (simp_all add: rounded_key_def)

lemma loop_collect:
  "collect_vertices sample_host (loop_sketch, []) loop_indices =
     Inr (loop_sketch,
       [((0, 0, 0), [(0, 1), (3, 2)]), ((1, 0, 0), [(0, 2), (2, 1), (4, 1)]),
        ((1, 1, 0), [(2, 2), (3, 1)]), ((2, 0, 0), [(4, 2)])])"
  by (simp add: loop_indices_def loop_Geometry_at loop_getPoint loop_keys)

lemma loop_vertex_pass:
  "add_vertex_coincident_constraints sample_host loop_sketch loop_indices =
     Inr (loop_sketch\<lparr>Constraints :=
            [(Coincident 0 1 3 2, True), (Coincident 0 2 2 1, True),
             (Coincident 2 2 3 1, True)]\<rparr>)"
  by (simp add: add_vertex_coincident_constraints_def loop_collect addConstraint_def)
     (simp add: loop_sketch_def)

theorem C5_vertex_coincidence_witness:
  "add_vertex_coincident_constraints sample_host loop_sketch loop_indices =
     Inr (loop_sketch\<lparr>Constraints :=
            [(Coincident 0 1 3 2, True), (Coincident 0 2 2 1, True),
             (Coincident 2 2 3 1, True)]\<rparr>) \<and>
   (10000001 / 10000000 :: real) \<noteq> 1 \<and>
   visit sample_host (Geometry loop_sketch) 1 = [] \<and>
   visit sample_host (Geometry loop_sketch) 2 = [((1, 0, 0), (2, 1)), ((1, 1, 0), (2, 2))] \<and>
   groups (members sample_host (Geometry loop_sketch) (map fst loop_indices)) =
     [((0, 0, 0), [(0, 1), (3, 2)]), ((1, 0, 0), [(0, 2), (2, 1), (4, 1)]),
      ((1, 1, 0), [(2, 2), (3, 1)]), ((2, 0, 0), [(4, 2)])] \<and>
   Constraints loop_sketch @
     map (\<lambda>kv. (pair_constraint (snd kv), True))
       (filter (\<lambda>kv. 1 < length (snd kv))
          (groups (members sample_host (Geometry loop_sketch) (map fst loop_indices)))) =
     [(Coincident 0 1 3 2, True), (Coincident 0 2 2 1, True), (Coincident 2 2 3 1, True)]"
proof -
  have ok: "\<forall>st a b c d. addConstraint_ok sample_host st (Coincident a b c d)"
    by simp
  have v0: "visit sample_host (Geometry loop_sketch) 0 =
      [((0, 0, 0), (0, 1)), ((1, 0, 0), (0, 2))]"
    by (simp add: visit_def loop_sketch_def)
  have v1: "visit sample_host (Geometry loop_sketch) 1 = []"
    by (simp add: visit_def loop_sketch_def)
  have v2: "visit sample_host (Geometry loop_sketch) 2 =
      [((1, 0, 0), (2, 1)), ((1, 1, 0), (2, 2))]"
    by (simp add: visit_def loop_sketch_def)
  have v3: "visit sample_host (Geometry loop_sketch) 3 =
      [((1, 1, 0), (3, 1)), ((0, 0, 0), (3, 2))]"
    by (simp add: visit_def loop_sketch_def)
  have v4: "visit sample_host (Geometry loop_sketch) 4 =
      [((1, 0, 0), (4, 1)), ((2, 0, 0), (4, 2))]"
    by (simp add: visit_def loop_sketch_def)
  have m: "members sample_host (Geometry loop_sketch) (map fst loop_indices) =
      [((0, 0, 0), (0, 1)), ((1, 0, 0), (0, 2)), ((1, 0, 0), (2, 1)), ((1, 1, 0), (2, 2)),
       ((1, 1, 0), (3, 1)), ((0, 0, 0), (3, 2)), ((1, 0, 0), (4, 1)), ((2, 0, 0), (4, 2))]"
    by (simp add: members_def loop_indices_def v0 v1 v2 v3 v4)
  have g: "groups (members sample_host (Geometry loop_sketch) (map fst loop_indices)) =
     [((0, 0, 0), [(0, 1), (3, 2)]), ((1, 0, 0), [(0, 2), (2, 1), (4, 1)]),
      ((1, 1, 0), [(2, 2), (3, 1)]), ((2, 0, 0), [(4, 2)])]"
    unfolding m by (simp add: groups_def first_occ_def group_of_def)
  have "Constraints (loop_sketch\<lparr>Constraints :=
            [(Coincident 0 1 3 2, True), (Coincident 0 2 2 1, True),
             (Coincident 2 2 3 1, True)]\<rparr>) =
     Constraints loop_sketch @
     map (\<lambda>kv. (pair_constraint (snd kv), True))
       (filter (\<lambda>kv. 1 < length (snd kv))
          (groups (members sample_host (Geometry loop_sketch) (map fst loop_indices))))"
    using C5_vertex_coincidence[OF loop_vertex_pass] ok by blast
  then show ?thesis using loop_vertex_pass g v1 v2 by simp
qed

section \<open>The center-anchoring pass\<close>

lemma py_index_append:
  "0 \<le> g \<Longrightarrow> g < int (length G) \<Longrightarrow> py_index (G @ extra) g = py_index G g"
  by (auto simp: py_index_def nth_append)

lemma block_loop_Inr:
  "block_loop h s idxs = Inr s' \<Longrightarrow>
     Geometry s' = Geometry s \<and> Console s' = Console s \<and>
     Constraints s' = Constraints s @ map (\<lambda>l. (Block l, True)) idxs"
proof (induction idxs arbitrary: s)
  case Nil
  then show ?case by simp
next
  case (Cons l idxs)
  from Cons.prems obtain r where a: "addConstraint h s (Block l) = Inr r"
    and b: "block_loop h (fst r) idxs = Inr s'"
    by (auto simp: bind_Inr_iff)
  from a have r: "fst r = s\<lparr>Constraints := Constraints s @ [(Block l, True)]\<rparr>"
    by (auto simp: addConstraint_Inr)
  from Cons.IH[OF b] show ?case by (simp add: r)
qed

lemma anchor_center_far:
  assumes "Length (CenterOf h geo) > tolerance"
    and "anchor_center h (s, idxs) g geo = Inr (s', idxs')"
  shows "Geometry s' = Geometry s @ [(LineSegment (CenterOf h geo) (Vector 0 0 0), True)] \<and>
         Constraints s' = Constraints s @
           [(Coincident (int (length (Geometry s))) 1 g 3, True),
            (Coincident (int (length (Geometry s))) 2 (- 1) 1, True)] \<and>
         Console s' = Console s \<and>
         idxs' = idxs @ [int (length (Geometry s))]"
proof -
  let ?line = "LineSegment (CenterOf h geo) (Vector 0 0 0)"
  let ?n = "int (length (Geometry s))"
  from assms obtain r1 where a1: "addGeometry h s ?line True = Inr r1"
    and rest1: "(case r1 of (s1, line_idx) \<Rightarrow>
           bind (addConstraint h s1 (Coincident line_idx 1 g 3)) (\<lambda>(s2, i2).
           bind (addConstraint h s2 (Coincident line_idx 2 (- 1) 1)) (\<lambda>(s3, i3).
             Inr (s3, idxs @ [line_idx])))) = Inr (s', idxs')"
    by (auto simp: anchor_center_def Let_def bind_Inr_iff)
  from a1 have r1: "r1 = (s\<lparr>Geometry := Geometry s @ [(?line, True)]\<rparr>, ?n)"
    by (auto simp: addGeometry_Inr)
  let ?s1 = "s\<lparr>Geometry := Geometry s @ [(?line, True)]\<rparr>"
  from rest1 r1 obtain r2 where a2: "addConstraint h ?s1 (Coincident ?n 1 g 3) = Inr r2"
    and rest2: "(case r2 of (s2, i2) \<Rightarrow>
           bind (addConstraint h s2 (Coincident ?n 2 (- 1) 1)) (\<lambda>(s3, i3).
             Inr (s3, idxs @ [?n]))) = Inr (s', idxs')"
    by (auto simp: bind_Inr_iff)
  let ?s2 = "?s1\<lparr>Constraints := Constraints ?s1 @ [(Coincident ?n 1 g 3, True)]\<rparr>"
  from a2 have r2: "fst r2 = ?s2" by (auto simp: addConstraint_Inr)
  from rest2 r2 obtain r3 where a3: "addConstraint h ?s2 (Coincident ?n 2 (- 1) 1) = Inr r3"
    and rest3: "(case r3 of (s3, i3) \<Rightarrow> Inr (s3, idxs @ [?n])) = Inr (s', idxs')"
    by (cases r2) (auto simp: bind_Inr_iff)
  let ?s3 = "?s2\<lparr>Constraints := Constraints ?s2 @ [(Coincident ?n 2 (- 1) 1, True)]\<rparr>"
  from a3 have r3: "fst r3 = ?s3" by (auto simp: addConstraint_Inr)
  from rest3 r3 have "s' = ?s3" "idxs' = idxs @ [?n]" by (cases r3; auto)+
  then show ?thesis by simp
qed

lemma anchor_center_near:
  assumes "\<not> Length (CenterOf h geo) > tolerance"
    and "anchor_center h (s, idxs) g geo = Inr (s', idxs')"
  shows "Geometry s' = Geometry s \<and>
         Constraints s' = Constraints s @ [(Coincident g 3 (- 1) 1, True)] \<and>
         Console s' = Console s \<and> idxs' = idxs"
proof -
  from assms obtain r1 where a1: "addConstraint h s (Coincident g 3 (- 1) 1) = Inr r1"
    and rest1: "(case r1 of (s1, i1) \<Rightarrow> Inr (s1, idxs)) = Inr (s', idxs')"
    by (auto simp: anchor_center_def Let_def bind_Inr_iff)
  from a1 have r1: "fst r1 = s\<lparr>Constraints := Constraints s @ [(Coincident g 3 (- 1) 1, True)]\<rparr>"
    by (auto simp: addConstraint_Inr)
  from rest1 r1 have "s' = s\<lparr>Constraints := Constraints s @ [(Coincident g 3 (- 1) 1, True)]\<rparr>"
    "idxs' = idxs" by (cases r1; auto)+
  then show ?thesis by simp
qed

lemma upt_shift_map:
  "map (\<lambda>k. int (Suc n + k)) [0..<m] = map (\<lambda>k. int (n + k)) [Suc 0..<Suc m]"
proof -
  have "map (\<lambda>k. int (n + k)) [Suc 0..<Suc m] = map (\<lambda>k. int (n + k)) (map Suc [0..<m])"
    by (simp only: map_Suc_upt)
  then show ?thesis by (simp add: comp_def)
qed

lemma line_indices_Cons:
  "int n # map (\<lambda>k. int (Suc n + k)) [0..<m] = map (\<lambda>k. int (n + k)) [0..<Suc m]"
proof -
  have "[0..<Suc m] = 0 # [Suc 0..<Suc m]" by (simp add: upt_conv_Cons)
  then show ?thesis using upt_shift_map[of n m] by simp
qed

lemma anchor_loop_Inr:
  assumes "valid_indices G0 (map fst gi)"
    and "Geometry s = G0 @ extra"
    and "anchor_loop h (s, idxs) gi = Inr (s', idxs')"
  shows "Geometry s' = Geometry s @
           map (\<lambda>g. (LineSegment (center_at h G0 g) (Vector 0 0 0), True))
             (filter (far h G0) (map fst gi)) \<and>
         Constraints s' = Constraints s @
           map (\<lambda>c. (c, True)) (anchors h G0 (int (length (Geometry s))) (map fst gi)) \<and>
         Console s' = Console s \<and>
         idxs' = idxs @ map (\<lambda>k. int (length (Geometry s) + k))
                          [0..<length (filter (far h G0) (map fst gi))]"
  using assms
proof (induction gi arbitrary: s idxs extra)
  case Nil
  then show ?case by simp
next
  case (Cons ge rest)
  obtain g e where ge: "ge = (g, e)" by (cases ge)
  have vg: "0 \<le> g" "g < int (length G0)" and vrest: "valid_indices G0 (map fst rest)"
    using Cons.prems(1) by (simp_all add: valid_indices_def ge)
  from Cons.prems(3) obtain geo where geo: "Geometry_at s g = Inr geo"
    by (auto simp: ge bind_Inr_iff)
  then obtain entry where entry: "py_index (Geometry s) g = Some entry" "geo = fst entry"
    by (auto simp: Geometry_at_Inr)
  have e0: "py_index G0 g = Some entry"
    using entry(1) Cons.prems(2) py_index_append[OF vg] by simp
  show ?case
  proof (cases "is_round geo")
    case False
    then have nf: "\<not> far h G0 g" "\<not> near h G0 g"
      using e0 entry(2) by (simp_all add: far_def near_def)
    from False Cons.prems(3) geo have "anchor_loop h (s, idxs) rest = Inr (s', idxs')"
      by (auto simp: ge is_round_def)
    from Cons.IH[OF vrest Cons.prems(2) this] show ?thesis
      using nf by (simp add: ge)
  next
    case True
    from True Cons.prems(3) geo obtain st1 where
      st1: "anchor_center h (s, idxs) g geo = Inr st1"
      and rest: "anchor_loop h st1 rest = Inr (s', idxs')"
      by (auto simp: ge is_round_def bind_Inr_iff split: if_splits)
    obtain s1 idxs1 where st1_eq: "st1 = (s1, idxs1)" by (cases st1)
    have c: "center_at h G0 g = CenterOf h geo"
      using e0 entry(2) by (simp add: center_at_def)
    show ?thesis
    proof (cases "Length (CenterOf h geo) > tolerance")
      case far: True
      then have f: "far h G0 g" using e0 entry(2) True by (simp add: far_def)
      note A = anchor_center_far[OF far st1[unfolded st1_eq]]
      have g1: "Geometry s1 = G0 @ (extra @ [(LineSegment (CenterOf h geo) (Vector 0 0 0), True)])"
        using A Cons.prems(2) by simp
      have len1: "length (Geometry s1) = Suc (length (Geometry s))" using A by simp
      note IH = Cons.IH[OF vrest g1 rest[unfolded st1_eq]]
      have i: "idxs' = idxs @ map (\<lambda>k. int (length (Geometry s) + k))
                          [0..<length (filter (far h G0) (map fst (ge # rest)))]"
      proof -
        have "idxs' = idxs @ (int (length (Geometry s)) #
                 map (\<lambda>k. int (Suc (length (Geometry s)) + k))
                   [0..<length (filter (far h G0) (map fst rest))])"
          using IH A len1 by simp
        then show ?thesis
          using f by (simp only: line_indices_Cons) (simp add: ge)
      qed
      have geo_eq: "Geometry s' = Geometry s @
           map (\<lambda>g. (LineSegment (center_at h G0 g) (Vector 0 0 0), True))
             (filter (far h G0) (map fst (ge # rest)))"
        using IH A f c by (simp add: ge)
      have con_eq: "Constraints s' = Constraints s @
           map (\<lambda>c. (c, True)) (anchors h G0 (int (length (Geometry s))) (map fst (ge # rest)))"
        using IH A f len1 by (simp add: ge add.commute)
      have "Console s' = Console s" using IH A by simp
      then show ?thesis using geo_eq con_eq i by blast
    next
      case nfar: False
      then have f: "\<not> far h G0 g" "near h G0 g"
        using e0 entry(2) True by (simp_all add: far_def near_def)
      note A = anchor_center_near[OF nfar st1[unfolded st1_eq]]
      have g1: "Geometry s1 = G0 @ extra" using A Cons.prems(2) by simp
      note IH = Cons.IH[OF vrest g1 rest[unfolded st1_eq]]
      show ?thesis using IH A f by (simp add: ge)
    qed
  qed
qed

text \<open>
  Claim C3. When the center-anchoring pass completes on entries whose indices are
  geometry indices of the sketch, it has appended, for every arc or circle entry whose
  realized center is farther than the tolerance from the origin, in the order of the
  entries, one construction line from that center to the origin, and it has added, entry by
  entry, for such an entry the two Coincident constraints of its line (start of the line to
  point 3 of the entry, end of the line to the origin reference (-1, 1)) and for an arc or
  circle entry with its center within the tolerance the single Coincident constraint of
  its center to the origin (and no line); the number of these constraints is twice the
  number of far entries plus the number of near ones. After them come the Block constraints,
  one for each construction line in order; they are added by the second loop, when the
  geometry is already the final one and every blocked line exists.
\<close>

theorem C3_center_anchoring:
  assumes "valid_indices (Geometry s) (map fst geo_indices)"
    and "add_center_construction_lines h s geo_indices = Inr s'"
  shows
   "Geometry s' = Geometry s @
      map (\<lambda>g. (LineSegment (center_at h (Geometry s) g) (Vector 0 0 0), True))
        (filter (far h (Geometry s)) (map fst geo_indices)) \<and>
    Constraints s' = Constraints s @
      map (\<lambda>c. (c, True))
        (anchors h (Geometry s) (int (length (Geometry s))) (map fst geo_indices) @
         map (\<lambda>k. Block (int (length (Geometry s) + k)))
           [0..<length (filter (far h (Geometry s)) (map fst geo_indices))]) \<and>
    length (anchors h (Geometry s) (int (length (Geometry s))) (map fst geo_indices)) =
      2 * length (filter (far h (Geometry s)) (map fst geo_indices)) +
      length (filter (near h (Geometry s)) (map fst geo_indices)) \<and>
    (\<exists>s1 lines. anchor_loop h (s, []) geo_indices = Inr (s1, lines) \<and>
        block_loop h s1 lines = Inr s' \<and>
        Geometry s1 = Geometry s' \<and>
        Constraints s' = Constraints s1 @ map (\<lambda>l. (Block l, True)) lines \<and>
        list_all (\<lambda>l. 0 \<le> l \<and> l < int (length (Geometry s1))) lines)"
proof -
  let ?gs = "map fst geo_indices"
  let ?G = "Geometry s"
  from assms(2) obtain s1 lines where
    a: "anchor_loop h (s, []) geo_indices = Inr (s1, lines)"
    and b: "block_loop h s1 lines = Inr s'"
    by (auto simp: add_center_construction_lines_def bind_Inr_iff)
  have pre: "Geometry s = Geometry s @ []" by simp
  note A = anchor_loop_Inr[OF assms(1) pre a]
  note B = block_loop_Inr[OF b]
  have lines: "lines = map (\<lambda>k. int (length ?G + k)) [0..<length (filter (far h ?G) ?gs)]"
    using A by simp
  have g: "Geometry s' = Geometry s @
      map (\<lambda>g. (LineSegment (center_at h ?G g) (Vector 0 0 0), True)) (filter (far h ?G) ?gs)"
    using A B by simp
  have c: "Constraints s' = Constraints s @
      map (\<lambda>c. (c, True))
        (anchors h ?G (int (length ?G)) ?gs @
         map (\<lambda>k. Block (int (length ?G + k))) [0..<length (filter (far h ?G) ?gs)])"
    using A B by (simp add: lines comp_def)
  have cnt: "length (anchors h ?G m gs) =
      2 * length (filter (far h ?G) gs) + length (filter (near h ?G) gs)" for m gs
    by (induction gs arbitrary: m) (auto simp: far_def near_def split: option.splits)
  have la: "list_all (\<lambda>l. 0 \<le> l \<and> l < int (length (Geometry s1))) lines"
    using A by (simp add: lines list_all_iff)
  have "\<exists>s1 lines. anchor_loop h (s, []) geo_indices = Inr (s1, lines) \<and>
        block_loop h s1 lines = Inr s' \<and>
        Geometry s1 = Geometry s' \<and>
        Constraints s' = Constraints s1 @ map (\<lambda>l. (Block l, True)) lines \<and>
        list_all (\<lambda>l. 0 \<le> l \<and> l < int (length (Geometry s1))) lines"
    using a b B la by (intro exI[of _ s1] exI[of _ lines]) simp
  then show ?thesis using g c cnt by blast
qed

lemma sample_CenterOf [simp]: "CenterOf sample_host (Circle c a r) = c"
  by (simp add: sample_host_def)

lemma sample_RadiusOf [simp]: "RadiusOf sample_host (Circle c a r) = r"
  by (simp add: sample_host_def)

lemma circles_run:
  "add_center_construction_lines sample_host circles_sketch circles_indices =
     Inr circles_anchored"
  by (simp add: add_center_construction_lines_def circles_sketch_def circles_indices_def
      circles_anchored_def Geometry_at_def anchor_center_def addGeometry_def addConstraint_def
      Length_gt_tolerance_eval dot_def Let_def)

theorem C3_center_anchoring_witness:
  "valid_indices (Geometry circles_sketch) (map fst circles_indices) \<and>
   add_center_construction_lines sample_host circles_sketch circles_indices =
     Inr circles_anchored \<and>
   filter (far sample_host (Geometry circles_sketch)) (map fst circles_indices) = [0] \<and>
   filter (near sample_host (Geometry circles_sketch)) (map fst circles_indices) = [1] \<and>
   Geometry circles_anchored =
     Geometry circles_sketch @ [(LineSegment (Vector 3 4 0) (Vector 0 0 0), True)] \<and>
   Constraints circles_anchored =
     Constraints circles_sketch @
     map (\<lambda>c. (c, True))
       ([Coincident 2 1 0 3, Coincident 2 2 (- 1) 1, Coincident 1 3 (- 1) 1] @ [Block 2])"
proof -
  have v: "valid_indices (Geometry circles_sketch) (map fst circles_indices)"
    by (simp add: valid_indices_def circles_sketch_def circles_indices_def)
  have f: "far sample_host (Geometry circles_sketch) 0"
    "\<not> far sample_host (Geometry circles_sketch) 1"
    by (simp_all add: far_def circles_sketch_def is_round_def Length_gt_tolerance_eval dot_def)
  have n: "\<not> near sample_host (Geometry circles_sketch) 0"
    "near sample_host (Geometry circles_sketch) 1"
    by (simp_all add: near_def circles_sketch_def is_round_def Length_gt_tolerance_eval dot_def)
  have ff: "filter (far sample_host (Geometry circles_sketch)) (map fst circles_indices) = [0]"
    and nn: "filter (near sample_host (Geometry circles_sketch)) (map fst circles_indices) = [1]"
    using f n by (simp_all add: circles_indices_def)
  have c: "center_at sample_host (Geometry circles_sketch) 0 = Vector 3 4 0"
    by (simp add: center_at_def circles_sketch_def)
  have a: "anchors sample_host (Geometry circles_sketch) 2 (map fst circles_indices) =
           [Coincident 2 1 0 3, Coincident 2 2 (- 1) 1, Coincident 1 3 (- 1) 1]"
    using f n by (simp add: circles_indices_def)
  have len: "length (Geometry circles_sketch) = 2" by (simp add: circles_sketch_def)
  from C3_center_anchoring[OF v circles_run]
  have "Geometry circles_anchored = Geometry circles_sketch @
      map (\<lambda>g. (LineSegment (center_at sample_host (Geometry circles_sketch) g) (Vector 0 0 0), True))
        (filter (far sample_host (Geometry circles_sketch)) (map fst circles_indices))"
    and "Constraints circles_anchored = Constraints circles_sketch @
      map (\<lambda>c. (c, True))
        (anchors sample_host (Geometry circles_sketch) (int (length (Geometry circles_sketch)))
           (map fst circles_indices) @
         map (\<lambda>k. Block (int (length (Geometry circles_sketch) + k)))
           [0..<length (filter (far sample_host (Geometry circles_sketch))
                          (map fst circles_indices))])"
    by blast+
  then show ?thesis using v circles_run ff nn
    by (simp add: c a len)
qed

section \<open>The re-projection loop and the four passes in sequence\<close>

lemma add_radius_constraints_Inr:
  assumes "valid_indices G0 (map fst gi)"
    and "Geometry s = G0 @ extra"
    and "add_radius_constraints h s gi = Inr s'"
  shows "Geometry s' = Geometry s \<and> Console s' = Console s \<and>
         Constraints s' = Constraints s @
           map (\<lambda>g. (Radius g (radius_at h G0 g), True)) (filter (round_at G0) (map fst gi))"
  using assms
proof (induction gi arbitrary: s)
  case Nil
  then show ?case by simp
next
  case (Cons ge rest)
  obtain g e where ge: "ge = (g, e)" by (cases ge)
  have vg: "0 \<le> g" "g < int (length G0)" and vrest: "valid_indices G0 (map fst rest)"
    using Cons.prems(1) by (simp_all add: valid_indices_def ge)
  from Cons.prems(3) obtain geo where geo: "Geometry_at s g = Inr geo"
    by (auto simp: ge bind_Inr_iff)
  then obtain entry where entry: "py_index (Geometry s) g = Some entry" "geo = fst entry"
    by (auto simp: Geometry_at_Inr)
  have e0: "py_index G0 g = Some entry"
    using entry(1) Cons.prems(2) py_index_append[OF vg] by simp
  show ?case
  proof (cases "is_round geo")
    case False
    then have nr: "\<not> round_at G0 g" using e0 entry(2) by (simp add: round_at_def)
    from False Cons.prems(3) geo have "add_radius_constraints h s rest = Inr s'"
      by (auto simp: ge is_round_def)
    from Cons.IH[OF vrest Cons.prems(2) this] show ?thesis using nr by (simp add: ge)
  next
    case True
    then have r: "round_at G0 g" using e0 entry(2) by (simp add: round_at_def)
    have rad: "radius_at h G0 g = RadiusOf h geo" using e0 entry(2) by (simp add: radius_at_def)
    from True Cons.prems(3) geo obtain r1 where
      a: "addConstraint h s (Radius g (RadiusOf h geo)) = Inr r1"
      and rest: "add_radius_constraints h (fst r1) rest = Inr s'"
      by (auto simp: ge is_round_def bind_Inr_iff split: if_splits)
    let ?s1 = "s\<lparr>Constraints := Constraints s @ [(Radius g (RadiusOf h geo), True)]\<rparr>"
    from a have r1: "fst r1 = ?s1" by (auto simp: addConstraint_Inr)
    have g1: "Geometry ?s1 = G0 @ extra" using Cons.prems(2) by simp
    from Cons.IH[OF vrest g1 rest[unfolded r1]] show ?thesis
      using r rad by (simp add: ge)
  qed
qed

lemma setDriving_last:
  "setDriving (s\<lparr>Constraints := Constraints s @ [(c, True)]\<rparr>) (int (length (Constraints s))) False
     = s\<lparr>Constraints := Constraints s @ [(c, False)]\<rparr>"
  by (simp add: setDriving_def)

lemma add_line_distance_constraints_Inr:
  assumes "valid_indices G0 (map fst gi)"
    and "Geometry s = G0 @ extra"
    and "add_line_distance_constraints h s gi = Inr s'"
  shows "Geometry s' = Geometry s \<and> Console s' = Console s \<and>
         Constraints s' = Constraints s @
           map (\<lambda>g. (Distance g (separation h G0 g), False)) (filter (segment_at G0) (map fst gi)) \<and>
         list_all (\<lambda>g. segment_at G0 g \<longrightarrow> has_points h G0 g) (map fst gi)"
  using assms
proof (induction gi arbitrary: s)
  case Nil
  then show ?case by simp
next
  case (Cons ge rest)
  obtain g e where ge: "ge = (g, e)" by (cases ge)
  have vg: "0 \<le> g" "g < int (length G0)" and vrest: "valid_indices G0 (map fst rest)"
    using Cons.prems(1) by (simp_all add: valid_indices_def ge)
  from Cons.prems(3) obtain geo where geo: "Geometry_at s g = Inr geo"
    by (auto simp: ge bind_Inr_iff)
  then obtain entry where entry: "py_index (Geometry s) g = Some entry" "geo = fst entry"
    by (auto simp: Geometry_at_Inr)
  have e0: "py_index G0 g = Some entry"
    using entry(1) Cons.prems(2) py_index_append[OF vg] by simp
  show ?case
  proof (cases "is_LineSegment geo")
    case False
    then have nr: "\<not> segment_at G0 g" using e0 entry(2) by (simp add: segment_at_def)
    from False Cons.prems(3) geo have "add_line_distance_constraints h s rest = Inr s'"
      by (auto simp: ge)
    from Cons.IH[OF vrest Cons.prems(2) this] show ?thesis using nr by (simp add: ge)
  next
    case True
    then have r: "segment_at G0 g" using e0 entry(2) by (simp add: segment_at_def)
    from True Cons.prems(3) geo obtain p1 p2 r1 where
      p1: "getPoint h s g 1 = Inr p1" and p2: "getPoint h s g 2 = Inr p2"
      and a: "addConstraint h s (Distance g (distanceToPoint p1 p2)) = Inr r1"
      and rest: "add_line_distance_constraints h (setDriving (fst r1) (snd r1) False) rest = Inr s'"
      by (auto simp: ge bind_Inr_iff)
    have q1: "point_of h (fst entry) 1 = Some p1" and q2: "point_of h (fst entry) 2 = Some p2"
      using p1 p2 entry(1) by (auto simp: getPoint_eq split: option.splits)
    have sep: "separation h G0 g = distanceToPoint p1 p2"
      using e0 q1 q2 by (simp add: separation_def)
    let ?c = "Distance g (distanceToPoint p1 p2)"
    from a have r1: "r1 = (s\<lparr>Constraints := Constraints s @ [(?c, True)]\<rparr>,
        int (length (Constraints s)))"
      by (auto simp: addConstraint_Inr)
    let ?s1 = "s\<lparr>Constraints := Constraints s @ [(?c, False)]\<rparr>"
    have sd: "setDriving (fst r1) (snd r1) False = ?s1"
      unfolding r1 by (simp add: setDriving_last)
    have g1: "Geometry ?s1 = G0 @ extra" using Cons.prems(2) by simp
    from Cons.IH[OF vrest g1 rest[unfolded sd]] show ?thesis
      using r sep e0 q1 q2 by (simp add: ge has_points_def)
  qed
qed

lemma add_line_to_sketch_cases:
  "(\<exists>err. add_line_to_sketch h s e ip = Inl (err, s)) \<or>
   (\<exists>g. add_line_to_sketch h s e ip =
      Inr (s\<lparr>Geometry := Geometry s @ [(g, False)]\<rparr>, int (length (Geometry s))))"
  by (cases "Vertexes_at e 0"; cases "Vertexes_at e (- 1)")
     (auto simp: add_line_to_sketch_def raise_at_def addGeometry_def)

lemma add_circle_to_sketch_cases:
  "(\<exists>err. add_circle_to_sketch h s e ip = Inl (err, s)) \<or>
   (\<exists>g. add_circle_to_sketch h s e ip =
      Inr (s\<lparr>Geometry := Geometry s @ [(g, False)]\<rparr>, int (length (Geometry s))))"
  by (cases "Vertexes_at e 0"; cases "Vertexes_at e (- 1)"; cases "Curve e")
     (auto simp: add_circle_to_sketch_def raise_at_def addGeometry_def Let_def)

lemma add_bspline_to_sketch_cases:
  "(\<exists>err. add_bspline_to_sketch h s e ip = Inl (err, s)) \<or>
   (\<exists>g. add_bspline_to_sketch h s e ip =
      Inr (s\<lparr>Geometry := Geometry s @ [(g, False)]\<rparr>, int (length (Geometry s))))"
  by (cases "Curve e") (auto simp: add_bspline_to_sketch_def addGeometry_def)

lemma add_edge_Inl:
  assumes "add_edge h s e ip = Inl (err, sw)"
  shows "Geometry sw = Geometry s \<and> Constraints sw = Constraints s"
proof -
  let ?w = "warn s ''Unsupported curve type, converting to line.''"
  have w: "Geometry ?w = Geometry s" "Constraints ?w = Constraints s" by (simp_all add: warn_def)
  from assms consider "add_line_to_sketch h s e ip = Inl (err, sw)"
    | "add_circle_to_sketch h s e ip = Inl (err, sw)"
    | "add_bspline_to_sketch h s e ip = Inl (err, sw)"
    | "add_line_to_sketch h ?w e ip = Inl (err, sw)"
    by (cases "Curve e") (auto simp: add_edge_def)
  then show ?thesis
  proof cases
    case 1
    then show ?thesis using add_line_to_sketch_cases[of h s e ip] by auto
  next
    case 2
    then show ?thesis using add_circle_to_sketch_cases[of h s e ip] by auto
  next
    case 3
    then show ?thesis using add_bspline_to_sketch_cases[of h s e ip] by auto
  next
    case 4
    then show ?thesis using add_line_to_sketch_cases[of h ?w e ip] w by auto
  qed
qed

lemma add_edge_Inr:
  assumes "add_edge h s e ip = Inr (s', i)"
  shows "\<exists>g. Geometry s' = Geometry s @ [(g, False)] \<and> Constraints s' = Constraints s \<and>
             i = int (length (Geometry s))"
proof -
  let ?w = "warn s ''Unsupported curve type, converting to line.''"
  have w: "Geometry ?w = Geometry s" "Constraints ?w = Constraints s" by (simp_all add: warn_def)
  from assms consider "add_line_to_sketch h s e ip = Inr (s', i)"
    | "add_circle_to_sketch h s e ip = Inr (s', i)"
    | "add_bspline_to_sketch h s e ip = Inr (s', i)"
    | "add_line_to_sketch h ?w e ip = Inr (s', i)"
    by (cases "Curve e") (auto simp: add_edge_def)
  then show ?thesis
  proof cases
    case 1
    then show ?thesis using add_line_to_sketch_cases[of h s e ip] by auto
  next
    case 2
    then show ?thesis using add_circle_to_sketch_cases[of h s e ip] by auto
  next
    case 3
    then show ?thesis using add_bspline_to_sketch_cases[of h s e ip] by auto
  next
    case 4
    then show ?thesis using add_line_to_sketch_cases[of h ?w e ip] w by auto
  qed
qed

lemma reproject_result:
  "reproject h ip (s, gi0) edges = (s1, gi1) \<Longrightarrow>
     \<exists>news. Geometry s1 = Geometry s @ map (\<lambda>g. (g, False)) news \<and>
            Constraints s1 = Constraints s \<and>
            map fst gi1 = map fst gi0 @
              map (\<lambda>k. int (length (Geometry s) + k)) [0..<length news]"
proof (induction edges arbitrary: s gi0)
  case Nil
  then show ?case by (intro exI[of _ "[]"]) simp
next
  case (Cons e es)
  show ?case
  proof (cases "add_edge h s e ip")
    case (Inl r)
    obtain err sw where r: "r = (err, sw)" by (cases r)
    from add_edge_Inl[OF Inl[unfolded r]]
    have g: "Geometry sw = Geometry s" and c: "Constraints sw = Constraints s" by simp_all
    from Cons.prems Inl r have
      "reproject h ip (warn sw ''Failed to add edge'', gi0) es = (s1, gi1)" by simp
    from Cons.IH[OF this] show ?thesis using g c by (simp add: warn_def)
  next
    case (Inr r)
    obtain s' i where r: "r = (s', i)" by (cases r)
    from add_edge_Inr[OF Inr[unfolded r]] obtain g where
      g: "Geometry s' = Geometry s @ [(g, False)]" and c: "Constraints s' = Constraints s"
      and i: "i = int (length (Geometry s))" by blast
    from Cons.prems Inr r have
      "reproject h ip (s', gi0 @ [(i, e)]) es = (s1, gi1)" by simp
    from Cons.IH[OF this] obtain news where n:
      "Geometry s1 = Geometry s' @ map (\<lambda>g. (g, False)) news"
      "Constraints s1 = Constraints s'"
      "map fst gi1 = map fst (gi0 @ [(i, e)]) @
              map (\<lambda>k. int (length (Geometry s') + k)) [0..<length news]" by blast
    have idx: "map fst gi1 = map fst gi0 @
        map (\<lambda>k. int (length (Geometry s) + k)) [0..<length (g # news)]"
      using n(3) g i line_indices_Cons[of "length (Geometry s)" "length news"] by simp
    show ?thesis
      using n(1,2) c g idx by (intro exI[of _ "g # news"]) simp
  qed
qed

lemma visit_refs:
  assumes "m \<in> set (visit h G g)"
  shows "fst (snd m) = g"
proof (cases "py_index G g")
  case None
  then have "visit h G g = []" by (simp add: visit_def)
  with assms show ?thesis by simp
next
  case (Some entry)
  show ?thesis
  proof (cases "two_ended h (fst entry)")
    case False
    with Some have "visit h G g = []" by (simp add: visit_def)
    with assms show ?thesis by simp
  next
    case True
    show ?thesis
    proof (cases "point_of h (fst entry) 1")
      case None
      with Some True have "visit h G g = []" by (simp add: visit_def)
      with assms show ?thesis by simp
    next
      case v1: (Some v1)
      show ?thesis
      proof (cases "point_of h (fst entry) 2")
        case None
        with Some True v1 have "visit h G g = []" by (simp add: visit_def)
        with assms show ?thesis by simp
      next
        case v2: (Some v2)
        with Some True v1 have "visit h G g =
            [((round6 (vx v1), round6 (vy v1), round6 (vz v1)), (g, 1)),
             ((round6 (vx v2), round6 (vy v2), round6 (vz v2)), (g, 2))]"
          by (simp add: visit_def)
        with assms show ?thesis by auto
      qed
    qed
  qed
qed

lemma members_refs:
  assumes "m \<in> set (members h G gs)"
  shows "fst (snd m) \<in> set gs"
proof -
  from assms obtain g where "g \<in> set gs" "m \<in> set (visit h G g)"
    by (auto simp: members_def)
  then show ?thesis using visit_refs by blast
qed

lemma groups_members:
  assumes "kv \<in> set (groups ms)"
  shows "set (snd kv) \<subseteq> snd ` set ms"
proof -
  from assms obtain k where "kv = (k, group_of ms k)" by (auto simp: groups_def)
  then show ?thesis by (auto simp: group_of_def)
qed

lemma pair_constraint_refs:
  assumes "kv \<in> set (groups (members h G gs))" and "1 < length (snd kv)"
  shows "set (refs (pair_constraint (snd kv))) \<subseteq> set gs"
proof -
  have sub: "set (snd kv) \<subseteq> snd ` set (members h G gs)"
    using assms(1) by (rule groups_members)
  have "snd kv ! 0 \<in> set (snd kv)" "snd kv ! 1 \<in> set (snd kv)"
    using assms(2) by (auto intro: nth_mem)
  then have "snd kv ! 0 \<in> snd ` set (members h G gs)" "snd kv ! 1 \<in> snd ` set (members h G gs)"
    using sub by blast+
  then have "fst (snd kv ! 0) \<in> set gs" "fst (snd kv ! 1) \<in> set gs"
    using members_refs[of _ h G gs] by auto
  then show ?thesis by (simp add: pair_constraint_def)
qed

lemma vertex_pass_Inr:
  assumes "add_vertex_coincident_constraints h s gi = Inr s'"
  shows "Geometry s' = Geometry s \<and>
    (\<exists>ws. subseq ws (filter (\<lambda>kv. 1 < length (snd kv))
                      (groups (members h (Geometry s) (map fst gi)))) \<and>
          Constraints s' = Constraints s @ map (\<lambda>kv. (pair_constraint (snd kv), True)) ws)"
proof -
  from assms obtain s1 vm where c: "collect_vertices h (s, []) gi = Inr (s1, vm)"
    and r: "s' = constrain_groups h s1 vm"
    by (auto simp: add_vertex_coincident_constraints_def bind_Inr_iff)
  from collect_vertices_fill[OF c] have g1: "Geometry s1 = Geometry s"
    and c1: "Constraints s1 = Constraints s"
    and vm: "vm = groups (members h (Geometry s) (map fst gi))"
    by (simp_all add: fill_groups)
  show ?thesis using constrain_groups_any[of h s1 vm] g1 c1 r vm by simp
qed

lemma center_pass_Inr:
  assumes "valid_indices (Geometry s) (map fst gi)"
    and "add_center_construction_lines h s gi = Inr s'"
  shows "Geometry s' = Geometry s @
      map (\<lambda>g. (LineSegment (center_at h (Geometry s) g) (Vector 0 0 0), True))
        (filter (far h (Geometry s)) (map fst gi)) \<and>
    Constraints s' = Constraints s @
      map (\<lambda>c. (c, True)) (anchors h (Geometry s) (int (length (Geometry s))) (map fst gi)) @
      map (\<lambda>k. (Block (int (length (Geometry s) + k)), True))
        [0..<length (filter (far h (Geometry s)) (map fst gi))]"
proof -
  from assms(2) obtain s1 lines where
    a: "anchor_loop h (s, []) gi = Inr (s1, lines)"
    and b: "block_loop h s1 lines = Inr s'"
    by (auto simp: add_center_construction_lines_def bind_Inr_iff)
  have pre: "Geometry s = Geometry s @ []" by simp
  note A = anchor_loop_Inr[OF assms(1) pre a]
  note B = block_loop_Inr[OF b]
  show ?thesis using A B by (simp add: comp_def)
qed

lemma valid_indices_range:
  "valid_indices (G @ map f news) (map (\<lambda>k. int (length G + k)) [0..<length news])"
  by (simp add: valid_indices_def list_all_iff)

lemma pipeline:
  assumes rp: "reproject h ip (s, []) edges = (s1, gi)"
    and run: "build_constraint_data h s1 gi = Inr s'"
  shows "\<exists>news ws.
     Geometry s1 = Geometry s @ map (\<lambda>g. (g, False)) news \<and>
     map fst gi = map (\<lambda>k. int (length (Geometry s) + k)) [0..<length news] \<and>
     Geometry s' = Geometry s1 @
       map (\<lambda>g. (LineSegment (center_at h (Geometry s1) g) (Vector 0 0 0), True))
         (filter (far h (Geometry s1)) (map fst gi)) \<and>
     subseq ws (filter (\<lambda>kv. 1 < length (snd kv))
                  (groups (members h (Geometry s1) (map fst gi)))) \<and>
     Constraints s' = Constraints s @
       map (\<lambda>kv. (pair_constraint (snd kv), True)) ws @
       map (\<lambda>c. (c, True)) (anchors h (Geometry s1) (int (length (Geometry s1))) (map fst gi)) @
       map (\<lambda>k. (Block (int (length (Geometry s1) + k)), True))
         [0..<length (filter (far h (Geometry s1)) (map fst gi))] @
       map (\<lambda>g. (Radius g (radius_at h (Geometry s1) g), True))
         (filter (round_at (Geometry s1)) (map fst gi)) @
       map (\<lambda>g. (Distance g (separation h (Geometry s1) g), False))
         (filter (segment_at (Geometry s1)) (map fst gi)) \<and>
     list_all (\<lambda>g. segment_at (Geometry s1) g \<longrightarrow> has_points h (Geometry s1) g) (map fst gi)"
proof -
  from reproject_result[OF rp] obtain news where n:
    "Geometry s1 = Geometry s @ map (\<lambda>g. (g, False)) news"
    "Constraints s1 = Constraints s"
    "map fst gi = map (\<lambda>k. int (length (Geometry s) + k)) [0..<length news]" by auto
  have v1: "valid_indices (Geometry s1) (map fst gi)"
    unfolding n(1) n(3) by (rule valid_indices_range)
  from run obtain s2 s3 s4 where
    p1: "add_vertex_coincident_constraints h s1 gi = Inr s2"
    and p2: "add_center_construction_lines h s2 gi = Inr s3"
    and p3: "add_radius_constraints h s3 gi = Inr s4"
    and p4: "add_line_distance_constraints h s4 gi = Inr s'"
    by (auto simp: build_constraint_data_def bind_Inr_iff)
  from vertex_pass_Inr[OF p1] obtain ws where V:
    "Geometry s2 = Geometry s1"
    "subseq ws (filter (\<lambda>kv. 1 < length (snd kv))
                  (groups (members h (Geometry s1) (map fst gi))))"
    "Constraints s2 = Constraints s1 @ map (\<lambda>kv. (pair_constraint (snd kv), True)) ws"
    by blast
  have v2: "valid_indices (Geometry s2) (map fst gi)" using v1 V(1) by simp
  note C = center_pass_Inr[OF v2 p2, unfolded V(1)]
  let ?lines = "map (\<lambda>g. (LineSegment (center_at h (Geometry s1) g) (Vector 0 0 0), True))
        (filter (far h (Geometry s1)) (map fst gi))"
  have g3: "Geometry s3 = Geometry s1 @ ?lines" using C by simp
  note R = add_radius_constraints_Inr[OF v1 g3 p3]
  have g4: "Geometry s4 = Geometry s1 @ ?lines" using R g3 by simp
  note D = add_line_distance_constraints_Inr[OF v1 g4 p4]
  have geo: "Geometry s' = Geometry s1 @ ?lines" using D g4 by simp
  have con: "Constraints s' = Constraints s @
       map (\<lambda>kv. (pair_constraint (snd kv), True)) ws @
       map (\<lambda>c. (c, True)) (anchors h (Geometry s1) (int (length (Geometry s1))) (map fst gi)) @
       map (\<lambda>k. (Block (int (length (Geometry s1) + k)), True))
         [0..<length (filter (far h (Geometry s1)) (map fst gi))] @
       map (\<lambda>g. (Radius g (radius_at h (Geometry s1) g), True))
         (filter (round_at (Geometry s1)) (map fst gi)) @
       map (\<lambda>g. (Distance g (separation h (Geometry s1) g), False))
         (filter (segment_at (Geometry s1)) (map fst gi))"
    using D R C V(3) n(2) by simp
  have pts: "list_all (\<lambda>g. segment_at (Geometry s1) g \<longrightarrow> has_points h (Geometry s1) g)
      (map fst gi)"
    using D by simp
  show ?thesis
    using n(1) n(3) geo V(2) con pts by (intro exI[of _ news] exI[of _ ws]) simp
qed

section \<open>Radius, distance and construction lines in the finished sketch\<close>

lemma anchors_other:
  assumes "\<forall>g \<in> set gs. 0 \<le> g \<and> g < int n"
    and "l < int n \<or> int n + int (length (filter (far h G) gs)) \<le> l"
    and "l \<notin> set gs" and "l \<noteq> - 1"
  shows "filter (\<lambda>c. l \<in> set (refs c)) (anchors h G (int n) gs) = []"
  using assms
proof (induction gs arbitrary: n)
  case Nil
  then show ?case by simp
next
  case (Cons g gs)
  have gl: "g \<noteq> l" and lgs: "l \<notin> set gs" using Cons.prems(3) by auto
  show ?case
  proof (cases "far h G g")
    case True
    have nl: "int n \<noteq> l" using Cons.prems(2) True by auto
    have a: "\<forall>g \<in> set gs. 0 \<le> g \<and> g < int (Suc n)" using Cons.prems(1) by auto
    have b: "l < int (Suc n) \<or> int (Suc n) + int (length (filter (far h G) gs)) \<le> l"
      using Cons.prems(2) True by auto
    have "filter (\<lambda>c. l \<in> set (refs c)) (anchors h G (int (Suc n)) gs) = []"
      by (rule Cons.IH[OF a b lgs Cons.prems(4)])
    then show ?thesis using True nl gl Cons.prems(4) by (simp add: add.commute)
  next
    case False
    have a: "\<forall>g \<in> set gs. 0 \<le> g \<and> g < int n" using Cons.prems(1) by auto
    have b: "l < int n \<or> int n + int (length (filter (far h G) gs)) \<le> l"
      using Cons.prems(2) False by auto
    have "filter (\<lambda>c. l \<in> set (refs c)) (anchors h G (int n) gs) = []"
      by (rule Cons.IH[OF a b lgs Cons.prems(4)])
    then show ?thesis using False gl Cons.prems(4) by simp
  qed
qed

lemma anchors_mention:
  assumes "\<forall>g \<in> set gs. 0 \<le> g \<and> g < int n"
    and "k < length (filter (far h G) gs)"
  shows "filter (\<lambda>c. int (n + k) \<in> set (refs c)) (anchors h G (int n) gs) =
     [Coincident (int (n + k)) 1 (filter (far h G) gs ! k) 3,
      Coincident (int (n + k)) 2 (- 1) 1]"
  using assms
proof (induction gs arbitrary: n k)
  case Nil
  then show ?case by simp
next
  case (Cons g gs)
  have gn: "g < int n" "0 \<le> g" using Cons.prems(1) by auto
  have a: "\<forall>g \<in> set gs. 0 \<le> g \<and> g < int (Suc n)" using Cons.prems(1) by auto
  have a0: "\<forall>g \<in> set gs. 0 \<le> g \<and> g < int n" using Cons.prems(1) by auto
  show ?case
  proof (cases "far h G g")
    case True
    show ?thesis
    proof (cases k)
      case 0
      have b: "int n < int (Suc n) \<or> int (Suc n) + int (length (filter (far h G) gs)) \<le> int n"
        by simp
      have c: "int n \<notin> set gs" using a0 by auto
      have "filter (\<lambda>c. int n \<in> set (refs c)) (anchors h G (int (Suc n)) gs) = []"
        by (rule anchors_other[OF a b c]) simp
      then show ?thesis using True 0 by (simp add: add.commute)
    next
      case (Suc k')
      have kk: "k' < length (filter (far h G) gs)" using Cons.prems(2) True Suc by simp
      have e: "int (n + k) = int (Suc n + k')" using Suc by simp
      have ne: "int n \<noteq> int (n + k)" "g \<noteq> int (n + k)" "- 1 \<noteq> int (n + k)"
        using Suc gn by auto
      from Cons.IH[OF a kk] show ?thesis
        using True Suc ne unfolding e by (simp add: add.commute)
    qed
  next
    case False
    have kk: "k < length (filter (far h G) gs)" using Cons.prems(2) False by simp
    have ne: "g \<noteq> int (n + k)" "- 1 \<noteq> int (n + k)" using gn by auto
    from Cons.IH[OF a0 kk] show ?thesis using False ne by simp
  qed
qed

lemma filter_distinct_eq:
  "distinct xs \<Longrightarrow> x \<in> set xs \<Longrightarrow> filter (\<lambda>y. y = x) xs = [x]"
  by (induction xs) (auto simp: filter_empty_conv)

lemma range_indices:
  "distinct (map (\<lambda>k. int (n + k)) [0..<m]) \<and>
   (\<forall>g \<in> set (map (\<lambda>k. int (n + k)) [0..<m]). int n \<le> g \<and> g < int (n + m))"
  by (auto simp: distinct_map inj_on_def)

lemma anchors_Coincident:
  "c \<in> set (anchors h G n gs) \<Longrightarrow> \<exists>g1 p1 g2 p2. c = Coincident g1 p1 g2 p2"
  by (induction gs arbitrary: n) (auto split: if_splits)

lemma radius_on_anchor: "c \<in> set (anchors h G n gs) \<Longrightarrow> \<not> radius_on g (c, d)"
  using anchors_Coincident[of c h G n gs] by auto

lemma distance_on_anchor: "c \<in> set (anchors h G n gs) \<Longrightarrow> \<not> distance_on g (c, d)"
  using anchors_Coincident[of c h G n gs] by auto

lemma filter_radius_on_parts:
  "filter (radius_on g) (map (\<lambda>kv. (pair_constraint (snd kv), True)) ws) = []"
  "filter (radius_on g) (map (\<lambda>c. (c, True)) (anchors h G n gs)) = []"
  "filter (radius_on g) (map (\<lambda>k. (Block (f k), True)) ks) = []"
  "filter (radius_on g) (map (\<lambda>g'. (Distance g' (sep g'), False)) xs) = []"
  "filter (radius_on g) (map (\<lambda>g'. (Radius g' (rad g'), True)) xs) =
     map (\<lambda>g'. (Radius g' (rad g'), True)) (filter (\<lambda>g'. g' = g) xs)"
  by (auto simp: filter_empty_conv pair_constraint_def radius_on_anchor filter_map comp_def)

lemma filter_distance_on_parts:
  "filter (distance_on g) (map (\<lambda>kv. (pair_constraint (snd kv), True)) ws) = []"
  "filter (distance_on g) (map (\<lambda>c. (c, True)) (anchors h G n gs)) = []"
  "filter (distance_on g) (map (\<lambda>k. (Block (f k), True)) ks) = []"
  "filter (distance_on g) (map (\<lambda>g'. (Radius g' (rad g'), True)) xs) = []"
  "filter (distance_on g) (map (\<lambda>g'. (Distance g' (sep g'), False)) xs) =
     map (\<lambda>g'. (Distance g' (sep g'), False)) (filter (\<lambda>g'. g' = g) xs)"
  by (auto simp: filter_empty_conv pair_constraint_def distance_on_anchor filter_map comp_def)

lemma filter_eq_in:
  assumes "distinct xs" and "x \<in> set xs"
  shows "filter (\<lambda>y. P y \<and> y = x) xs = (if P x then [x] else [])"
proof -
  have "filter (\<lambda>y. P y \<and> y = x) xs = filter P (filter (\<lambda>y. y = x) xs)"
    by (simp add: conj_commute)
  then show ?thesis using filter_distinct_eq[OF assms] by simp
qed

lemma py_index_nat:
  "0 \<le> g \<Longrightarrow> nat g < length G \<Longrightarrow> py_index G g = Some (G ! nat g)"
  by (auto simp: py_index_def)

text \<open>
  Claim C9. After the re-projection of the selected edges and the four passes have
  completed, every recorded entry is an index of the final geometry, and among the
  constraints added: an entry whose geometry object is a circle or an arc of circle has
  exactly one Radius constraint on its index, driving, whose value is the radius read from
  that object; an entry whose geometry object is a segment has both its points readable and
  has exactly one Distance constraint on its index, whose value is the distance between the
  two points read from the object and which is marked non-driving.
\<close>

theorem C9_radius_and_distance:
  assumes "reproject h ip (s, []) edges = (s1, geo_indices)"
    and "build_constraint_data h s1 geo_indices = Inr s'"
  shows "\<forall>g \<in> set (map fst geo_indices).
     0 \<le> g \<and> nat g < length (Geometry s') \<and>
     (case fst (Geometry s' ! nat g) of
        Circle c a r \<Rightarrow>
          filter (radius_on g) (drop (length (Constraints s)) (Constraints s')) =
            [(Radius g (RadiusOf h (Circle c a r)), True)]
      | ArcOfCircle a m b \<Rightarrow>
          filter (radius_on g) (drop (length (Constraints s)) (Constraints s')) =
            [(Radius g (RadiusOf h (ArcOfCircle a m b)), True)]
      | LineSegment a b \<Rightarrow>
          (\<exists>p1 p2. point_of h (LineSegment a b) 1 = Some p1 \<and>
                   point_of h (LineSegment a b) 2 = Some p2 \<and>
                   filter (distance_on g) (drop (length (Constraints s)) (Constraints s')) =
                     [(Distance g (distanceToPoint p1 p2), False)])
      | _ \<Rightarrow> True)"
proof
  fix g assume gin: "g \<in> set (map fst geo_indices)"
  from pipeline[OF assms] obtain news ws where P0:
     "Geometry s1 = Geometry s @ map (\<lambda>g. (g, False)) news \<and>
     map fst geo_indices = map (\<lambda>k. int (length (Geometry s) + k)) [0..<length news] \<and>
     Geometry s' = Geometry s1 @
       map (\<lambda>g. (LineSegment (center_at h (Geometry s1) g) (Vector 0 0 0), True))
         (filter (far h (Geometry s1)) (map fst geo_indices)) \<and>
     subseq ws (filter (\<lambda>kv. 1 < length (snd kv))
                  (groups (members h (Geometry s1) (map fst geo_indices)))) \<and>
     Constraints s' = Constraints s @
       map (\<lambda>kv. (pair_constraint (snd kv), True)) ws @
       map (\<lambda>c. (c, True))
         (anchors h (Geometry s1) (int (length (Geometry s1))) (map fst geo_indices)) @
       map (\<lambda>k. (Block (int (length (Geometry s1) + k)), True))
         [0..<length (filter (far h (Geometry s1)) (map fst geo_indices))] @
       map (\<lambda>g. (Radius g (radius_at h (Geometry s1) g), True))
         (filter (round_at (Geometry s1)) (map fst geo_indices)) @
       map (\<lambda>g. (Distance g (separation h (Geometry s1) g), False))
         (filter (segment_at (Geometry s1)) (map fst geo_indices)) \<and>
     list_all (\<lambda>g. segment_at (Geometry s1) g \<longrightarrow> has_points h (Geometry s1) g)
        (map fst geo_indices)"
    by (elim exE) (rule that)
  note P = P0[THEN conjunct1] P0[THEN conjunct2, THEN conjunct1]
    P0[THEN conjunct2, THEN conjunct2, THEN conjunct1]
    P0[THEN conjunct2, THEN conjunct2, THEN conjunct2, THEN conjunct2, THEN conjunct1]
    P0[THEN conjunct2, THEN conjunct2, THEN conjunct2, THEN conjunct2, THEN conjunct2]
    P0[THEN conjunct2, THEN conjunct2, THEN conjunct2, THEN conjunct1]
  let ?gs = "map fst geo_indices"
  let ?G1 = "Geometry s1"
  let ?new = "drop (length (Constraints s)) (Constraints s')"
  have d: "distinct ?gs" and rng: "\<forall>g \<in> set ?gs. int (length (Geometry s)) \<le> g \<and>
      g < int (length (Geometry s) + length news)"
    unfolding P(2) using range_indices[of "length (Geometry s)" "length news"] by blast+
  have len1: "length ?G1 = length (Geometry s) + length news" using P(1) by simp
  have g0: "0 \<le> g" and g1: "nat g < length ?G1" using rng gin len1 by auto
  have g2: "nat g < length (Geometry s')" using g1 P(3) by simp
  have nth: "Geometry s' ! nat g = ?G1 ! nat g" using g1 P(3) by (simp add: nth_append)
  have pi: "py_index ?G1 g = Some (?G1 ! nat g)" by (rule py_index_nat[OF g0 g1])
  let ?geo = "fst (?G1 ! nat g)"
  have new: "?new =
       map (\<lambda>kv. (pair_constraint (snd kv), True)) ws @
       map (\<lambda>c. (c, True))
         (anchors h ?G1 (int (length ?G1)) ?gs) @
       map (\<lambda>k. (Block (int (length ?G1 + k)), True))
         [0..<length (filter (far h ?G1) ?gs)] @
       map (\<lambda>g. (Radius g (radius_at h ?G1 g), True)) (filter (round_at ?G1) ?gs) @
       map (\<lambda>g. (Distance g (separation h ?G1 g), False)) (filter (segment_at ?G1) ?gs)"
    using P(4) by simp
  have rad: "filter (radius_on g) ?new =
      (if round_at ?G1 g then [(Radius g (radius_at h ?G1 g), True)] else [])"
    unfolding new by (simp add: filter_radius_on_parts filter_eq_in[OF d gin])
  have dis: "filter (distance_on g) ?new =
      (if segment_at ?G1 g then [(Distance g (separation h ?G1 g), False)] else [])"
    unfolding new by (simp add: filter_distance_on_parts filter_eq_in[OF d gin])
  have hp: "segment_at ?G1 g \<longrightarrow> has_points h ?G1 g"
    using P(5) gin by (auto simp: list_all_iff)
  have body: "(case ?geo of
        Circle c a r \<Rightarrow>
          filter (radius_on g) ?new = [(Radius g (RadiusOf h (Circle c a r)), True)]
      | ArcOfCircle a m b \<Rightarrow>
          filter (radius_on g) ?new = [(Radius g (RadiusOf h (ArcOfCircle a m b)), True)]
      | LineSegment a b \<Rightarrow>
          (\<exists>p1 p2. point_of h (LineSegment a b) 1 = Some p1 \<and>
                   point_of h (LineSegment a b) 2 = Some p2 \<and>
                   filter (distance_on g) ?new = [(Distance g (distanceToPoint p1 p2), False)])
      | _ \<Rightarrow> True)"
  proof (cases ?geo)
    case (Circle c a r)
    then show ?thesis using rad pi by (simp add: round_at_def radius_at_def is_round_def)
  next
    case (ArcOfCircle a m b)
    then show ?thesis using rad pi by (simp add: round_at_def radius_at_def is_round_def)
  next
    case (LineSegment a b)
    then have seg: "segment_at ?G1 g" using pi by (simp add: segment_at_def)
    with hp have "has_points h ?G1 g" by simp
    then obtain p1 p2 where p: "point_of h (LineSegment a b) 1 = Some p1"
      "point_of h (LineSegment a b) 2 = Some p2"
      using pi LineSegment by (auto simp: has_points_def)
    then have "separation h ?G1 g = distanceToPoint p1 p2"
      using pi LineSegment by (simp add: separation_def)
    then show ?thesis using dis seg p LineSegment by simp
  qed simp_all
  show "0 \<le> g \<and> nat g < length (Geometry s') \<and>
     (case fst (Geometry s' ! nat g) of
        Circle c a r \<Rightarrow>
          filter (radius_on g) ?new = [(Radius g (RadiusOf h (Circle c a r)), True)]
      | ArcOfCircle a m b \<Rightarrow>
          filter (radius_on g) ?new = [(Radius g (RadiusOf h (ArcOfCircle a m b)), True)]
      | LineSegment a b \<Rightarrow>
          (\<exists>p1 p2. point_of h (LineSegment a b) 1 = Some p1 \<and>
                   point_of h (LineSegment a b) 2 = Some p2 \<and>
                   filter (distance_on g) ?new = [(Distance g (distanceToPoint p1 p2), False)])
      | _ \<Rightarrow> True)"
    using g0 g2 body unfolding nth by blast
qed

lemma mentions_map:
  "filter (mentions l) (map (\<lambda>c. (c, d)) cs) = map (\<lambda>c. (c, d)) (filter (\<lambda>c. l \<in> set (refs c)) cs)"
  by (simp add: filter_map comp_def mentions_def)

lemma mentions_vertex_part:
  assumes "subseq ws (filter (\<lambda>kv. 1 < length (snd kv)) (groups (members h G gs)))"
    and "\<forall>g \<in> set gs. g < l"
  shows "filter (mentions l) (map (\<lambda>kv. (pair_constraint (snd kv), True)) ws) = []"
proof -
  have "\<not> mentions l (pair_constraint (snd kv), True)" if "kv \<in> set ws" for kv
  proof -
    from list_emb_set[OF assms(1) that]
    have "kv \<in> set (filter (\<lambda>kv. 1 < length (snd kv)) (groups (members h G gs)))"
      by blast
    then have "kv \<in> set (groups (members h G gs))" "1 < length (snd kv)" by auto
    from pair_constraint_refs[OF this] have "set (refs (pair_constraint (snd kv))) \<subseteq> set gs" .
    then show ?thesis using assms(2) by (auto simp: mentions_def)
  qed
  then show ?thesis by (auto simp: filter_empty_conv)
qed

lemma mentions_own_part:
  assumes "\<forall>g \<in> set gs. g < l"
  shows "filter (mentions l) (map (\<lambda>g. (Radius g (rad g), True)) (filter P gs)) = []"
    and "filter (mentions l) (map (\<lambda>g. (Distance g (sep g), False)) (filter Q gs)) = []"
  using assms by (auto simp: filter_empty_conv mentions_def)

lemma filter_upt_eq: "k < m \<Longrightarrow> filter (\<lambda>j. k = j) [0..<m] = [k]"
proof (induction m)
  case 0
  then show ?case by simp
next
  case (Suc m)
  show ?case
  proof (cases "k = m")
    case True
    then have "filter (\<lambda>j. k = j) [0..<m] = []" by (auto simp: filter_empty_conv)
    then show ?thesis using True by simp
  next
    case False
    then have "k < m" using Suc.prems by simp
    from Suc.IH[OF this] show ?thesis using False by simp
  qed
qed

lemma mentions_block_part:
  assumes "k < m"
  shows "filter (mentions (int (n + k))) (map (\<lambda>k. (Block (int (n + k)), True)) [0..<m]) =
     [(Block (int (n + k)), True)]"
proof -
  have "filter (mentions (int (n + k))) (map (\<lambda>k. (Block (int (n + k)), True)) [0..<m]) =
      map (\<lambda>k. (Block (int (n + k)), True)) (filter (\<lambda>j. k = j) [0..<m])"
    by (simp add: filter_map comp_def mentions_def)
  then show ?thesis using filter_upt_eq[OF assms] by simp
qed

text \<open>
  Claim C10. After the re-projection and the four passes have completed, the indices the
  passes iterate over are the indices of the geometry created by the re-projection, all
  below the number of geometry objects at the end of the re-projection, and that geometry is
  still the beginning of the final geometry. Every geometry index at or after that number
  is a construction line to the origin, and the constraints added that name it are exactly
  three: the Coincident constraint of its start with point 3 of a recorded entry, the
  Coincident constraint of its end with the origin reference (-1, 1), and its Block
  constraint; so it has no Radius, no Distance and no vertex-coincidence constraint.
\<close>

theorem C10_construction_lines:
  assumes "reproject h ip (s, []) edges = (s1, geo_indices)"
    and "build_constraint_data h s1 geo_indices = Inr s'"
  shows "(\<forall>g \<in> set (map fst geo_indices).
            int (length (Geometry s)) \<le> g \<and> g < int (length (Geometry s1))) \<and>
         take (length (Geometry s1)) (Geometry s') = Geometry s1 \<and>
         (\<forall>l. length (Geometry s1) \<le> l \<and> l < length (Geometry s') \<longrightarrow>
            (\<exists>c g. Geometry s' ! l = (LineSegment c (Vector 0 0 0), True) \<and>
                   g \<in> set (map fst geo_indices) \<and>
                   filter (mentions (int l)) (drop (length (Constraints s)) (Constraints s')) =
                     [(Coincident (int l) 1 g 3, True),
                      (Coincident (int l) 2 (- 1) 1, True),
                      (Block (int l), True)]))"
proof -
  from pipeline[OF assms] obtain news ws where P0:
     "Geometry s1 = Geometry s @ map (\<lambda>g. (g, False)) news \<and>
     map fst geo_indices = map (\<lambda>k. int (length (Geometry s) + k)) [0..<length news] \<and>
     Geometry s' = Geometry s1 @
       map (\<lambda>g. (LineSegment (center_at h (Geometry s1) g) (Vector 0 0 0), True))
         (filter (far h (Geometry s1)) (map fst geo_indices)) \<and>
     subseq ws (filter (\<lambda>kv. 1 < length (snd kv))
                  (groups (members h (Geometry s1) (map fst geo_indices)))) \<and>
     Constraints s' = Constraints s @
       map (\<lambda>kv. (pair_constraint (snd kv), True)) ws @
       map (\<lambda>c. (c, True))
         (anchors h (Geometry s1) (int (length (Geometry s1))) (map fst geo_indices)) @
       map (\<lambda>k. (Block (int (length (Geometry s1) + k)), True))
         [0..<length (filter (far h (Geometry s1)) (map fst geo_indices))] @
       map (\<lambda>g. (Radius g (radius_at h (Geometry s1) g), True))
         (filter (round_at (Geometry s1)) (map fst geo_indices)) @
       map (\<lambda>g. (Distance g (separation h (Geometry s1) g), False))
         (filter (segment_at (Geometry s1)) (map fst geo_indices)) \<and>
     list_all (\<lambda>g. segment_at (Geometry s1) g \<longrightarrow> has_points h (Geometry s1) g)
        (map fst geo_indices)"
    by (elim exE) (rule that)
  note P = P0[THEN conjunct1] P0[THEN conjunct2, THEN conjunct1]
    P0[THEN conjunct2, THEN conjunct2, THEN conjunct1]
    P0[THEN conjunct2, THEN conjunct2, THEN conjunct2, THEN conjunct2, THEN conjunct1]
    P0[THEN conjunct2, THEN conjunct2, THEN conjunct2, THEN conjunct1]
  let ?gs = "map fst geo_indices"
  let ?G1 = "Geometry s1"
  let ?n1 = "length ?G1"
  let ?fars = "filter (far h ?G1) ?gs"
  let ?new = "drop (length (Constraints s)) (Constraints s')"
  have len1: "?n1 = length (Geometry s) + length news" using P(1) by simp
  have rng: "\<forall>g \<in> set ?gs. int (length (Geometry s)) \<le> g \<and> g < int ?n1"
    unfolding P(2) len1 using range_indices[of "length (Geometry s)" "length news"] by blast
  have valid: "\<forall>g \<in> set ?gs. 0 \<le> g \<and> g < int ?n1" using rng by auto
  have tk: "take ?n1 (Geometry s') = ?G1" using P(3) by simp
  have new: "?new =
       map (\<lambda>kv. (pair_constraint (snd kv), True)) ws @
       map (\<lambda>c. (c, True)) (anchors h ?G1 (int ?n1) ?gs) @
       map (\<lambda>k. (Block (int (?n1 + k)), True)) [0..<length ?fars] @
       map (\<lambda>g. (Radius g (radius_at h ?G1 g), True)) (filter (round_at ?G1) ?gs) @
       map (\<lambda>g. (Distance g (separation h ?G1 g), False)) (filter (segment_at ?G1) ?gs)"
    using P(4) by simp
  have lines: "\<exists>c g. Geometry s' ! l = (LineSegment c (Vector 0 0 0), True) \<and>
                   g \<in> set ?gs \<and>
                   filter (mentions (int l)) ?new =
                     [(Coincident (int l) 1 g 3, True),
                      (Coincident (int l) 2 (- 1) 1, True),
                      (Block (int l), True)]"
    if l: "?n1 \<le> l \<and> l < length (Geometry s')" for l
  proof -
    define k where "k = l - ?n1"
    have lk: "l = ?n1 + k" using l by (simp add: k_def)
    have "length (Geometry s') = ?n1 + length ?fars" by (subst P(3)) simp
    then have kf: "k < length ?fars" using l unfolding k_def by linarith
    let ?g = "?fars ! k"
    have gin: "?g \<in> set ?gs" using kf nth_mem[OF kf] by auto
    have nth: "Geometry s' ! l = (LineSegment (center_at h ?G1 ?g) (Vector 0 0 0), True)"
      using kf by (simp add: P(3) lk nth_append)
    have below: "\<forall>g \<in> set ?gs. g < int l" using valid lk by auto
    have v: "filter (mentions (int l)) (map (\<lambda>kv. (pair_constraint (snd kv), True)) ws) = []"
      by (rule mentions_vertex_part[OF P(5) below])
    have a: "filter (mentions (int l)) (map (\<lambda>c. (c, True)) (anchors h ?G1 (int ?n1) ?gs)) =
        [(Coincident (int l) 1 ?g 3, True), (Coincident (int l) 2 (- 1) 1, True)]"
      unfolding mentions_map lk using anchors_mention[OF valid kf] by simp
    have b: "filter (mentions (int l)) (map (\<lambda>k. (Block (int (?n1 + k)), True)) [0..<length ?fars]) =
        [(Block (int l), True)]"
      unfolding lk by (rule mentions_block_part[OF kf])
    have r: "filter (mentions (int l))
          (map (\<lambda>g. (Radius g (radius_at h ?G1 g), True)) (filter (round_at ?G1) ?gs)) = []"
      and d: "filter (mentions (int l))
          (map (\<lambda>g. (Distance g (separation h ?G1 g), False)) (filter (segment_at ?G1) ?gs)) = []"
      using mentions_own_part[OF below] by blast+
    have "filter (mentions (int l)) ?new =
        [(Coincident (int l) 1 ?g 3, True), (Coincident (int l) 2 (- 1) 1, True),
         (Block (int l), True)]"
      unfolding new filter_append v a b r d by simp
    then show ?thesis using nth gin by blast
  qed
  show ?thesis using rng tk lines by blast
qed

lemma pipe_add_line:
  "add_edge sample_host empty_sketch (line_edge (Vector 0 0 0) (Vector 1 0 0)) (\<lambda>p. p) =
     Inr (empty_sketch\<lparr>Geometry := [(LineSegment (Vector 0 0 0) (Vector 1 0 0), False)]\<rparr>, 0)"
  by (simp add: add_edge_def add_line_to_sketch_def line_edge_def Vertexes_at_def
      py_index_first py_index_last raise_at_def addGeometry_def empty_sketch_def)

lemma pipe_add_circle:
  "add_edge sample_host
     (empty_sketch\<lparr>Geometry := [(LineSegment (Vector 0 0 0) (Vector 1 0 0), False)]\<rparr>)
     (circle_edge (Vector 3 4 0) 1) (\<lambda>p. p) = Inr (pipe_sketch, 1)"
  by (simp add: add_edge_def add_circle_to_sketch_def circle_edge_def addGeometry_def
      empty_sketch_def pipe_sketch_def Let_def)

lemma pipe_reproject:
  "reproject sample_host (\<lambda>p. p) (empty_sketch, []) pipe_edges = (pipe_sketch, pipe_indices)"
  by (simp add: pipe_edges_def pipe_add_line pipe_add_circle pipe_indices_def)

lemma pipe_Geometry_at:
  "Geometry_at pipe_sketch 0 = Inr (LineSegment (Vector 0 0 0) (Vector 1 0 0))"
  "Geometry_at pipe_sketch 1 = Inr (Circle (Vector 3 4 0) (Vector 0 0 1) 1)"
  "Geometry_at pipe_anchored 0 = Inr (LineSegment (Vector 0 0 0) (Vector 1 0 0))"
  "Geometry_at pipe_anchored 1 = Inr (Circle (Vector 3 4 0) (Vector 0 0 1) 1)"
  by (simp_all add: pipe_sketch_def pipe_anchored_def Geometry_at_def)

lemma pipe_getPoint:
  "getPoint sample_host pipe_sketch 0 1 = Inr (Vector 0 0 0)"
  "getPoint sample_host pipe_sketch 0 2 = Inr (Vector 1 0 0)"
  by (simp_all add: pipe_sketch_def getPoint_def)

lemma pipe_vertex:
  "add_vertex_coincident_constraints sample_host pipe_sketch pipe_indices = Inr pipe_sketch"
  by (simp add: add_vertex_coincident_constraints_def pipe_indices_def pipe_Geometry_at
      pipe_getPoint loop_keys)

lemma pipe_center:
  "add_center_construction_lines sample_host pipe_sketch pipe_indices = Inr pipe_anchored"
  by (simp add: add_center_construction_lines_def pipe_indices_def pipe_Geometry_at
      anchor_center_def addGeometry_def addConstraint_def Length_gt_tolerance_eval dot_def Let_def)
     (simp add: pipe_sketch_def pipe_anchored_def)

lemma pipe_radius:
  "add_radius_constraints sample_host pipe_anchored pipe_indices =
     Inr (pipe_anchored\<lparr>Constraints := Constraints pipe_anchored @ [(Radius 1 1, True)]\<rparr>)"
  by (simp add: pipe_indices_def pipe_Geometry_at addConstraint_def)

lemma pipe_distance:
  "add_line_distance_constraints sample_host
     (pipe_anchored\<lparr>Constraints := Constraints pipe_anchored @ [(Radius 1 1, True)]\<rparr>)
     pipe_indices = Inr pipe_final"
  by (simp add: pipe_indices_def Geometry_at_def getPoint_def addConstraint_def setDriving_def
      pipe_anchored_def pipe_final_def distanceToPoint_def Length_def dot_def vsub_def)

lemma pipe_build:
  "build_constraint_data sample_host pipe_sketch pipe_indices = Inr pipe_final"
  by (simp add: build_constraint_data_def pipe_vertex pipe_center pipe_radius pipe_distance)

theorem C9_radius_and_distance_witness:
  "reproject sample_host (\<lambda>p. p) (empty_sketch, []) pipe_edges = (pipe_sketch, pipe_indices) \<and>
   build_constraint_data sample_host pipe_sketch pipe_indices = Inr pipe_final \<and>
   fst (Geometry pipe_final ! nat 1) = Circle (Vector 3 4 0) (Vector 0 0 1) 1 \<and>
   filter (radius_on 1) (drop (length (Constraints empty_sketch)) (Constraints pipe_final)) =
     [(Radius 1 1, True)] \<and>
   fst (Geometry pipe_final ! nat 0) = LineSegment (Vector 0 0 0) (Vector 1 0 0) \<and>
   filter (distance_on 0) (drop (length (Constraints empty_sketch)) (Constraints pipe_final)) =
     [(Distance 0 1, False)]"
proof -
  note T = C9_radius_and_distance[OF pipe_reproject pipe_build]
  have in1: "(1::int) \<in> set (map fst pipe_indices)" and in0: "(0::int) \<in> set (map fst pipe_indices)"
    by (simp_all add: pipe_indices_def)
  have g1: "fst (Geometry pipe_final ! nat 1) = Circle (Vector 3 4 0) (Vector 0 0 1) 1"
    and g0: "fst (Geometry pipe_final ! nat 0) = LineSegment (Vector 0 0 0) (Vector 1 0 0)"
    by (simp_all add: pipe_final_def)
  have g1': "fst (Geometry pipe_final ! Suc 0) = Circle (Vector 3 4 0) (Vector 0 0 1) 1"
    and g0': "fst (Geometry pipe_final ! 0) = LineSegment (Vector 0 0 0) (Vector 1 0 0)"
    by (simp_all add: pipe_final_def)
  have "filter (radius_on 1)
      (drop (length (Constraints empty_sketch)) (Constraints pipe_final)) =
     [(Radius 1 (RadiusOf sample_host (Circle (Vector 3 4 0) (Vector 0 0 1) 1)), True)]"
    using bspec[OF T in1] by (simp add: g1')
  then have r: "filter (radius_on 1)
      (drop (length (Constraints empty_sketch)) (Constraints pipe_final)) = [(Radius 1 1, True)]"
    by simp
  have "\<exists>p1 p2.
      point_of sample_host (LineSegment (Vector 0 0 0) (Vector 1 0 0)) 1 = Some p1 \<and>
      point_of sample_host (LineSegment (Vector 0 0 0) (Vector 1 0 0)) 2 = Some p2 \<and>
      filter (distance_on 0) (drop (length (Constraints empty_sketch)) (Constraints pipe_final)) =
        [(Distance 0 (distanceToPoint p1 p2), False)]"
    using bspec[OF T in0] by (simp add: g0')
  then have d: "filter (distance_on 0)
      (drop (length (Constraints empty_sketch)) (Constraints pipe_final)) =
        [(Distance 0 1, False)]"
    by (auto simp: distanceToPoint_def Length_def dot_def vsub_def)
  show ?thesis using pipe_reproject pipe_build g1 r g0 d by blast
qed

theorem C10_construction_lines_witness:
  "reproject sample_host (\<lambda>p. p) (empty_sketch, []) pipe_edges = (pipe_sketch, pipe_indices) \<and>
   build_constraint_data sample_host pipe_sketch pipe_indices = Inr pipe_final \<and>
   map fst pipe_indices = [0, 1] \<and>
   length (Geometry pipe_sketch) = 2 \<and> length (Geometry pipe_final) = 3 \<and>
   Geometry pipe_final ! 2 = (LineSegment (Vector 3 4 0) (Vector 0 0 0), True) \<and>
   filter (mentions 2) (drop (length (Constraints empty_sketch)) (Constraints pipe_final)) =
     [(Coincident 2 1 1 3, True), (Coincident 2 2 (- 1) 1, True), (Block 2, True)]"
proof -
  note T = C10_construction_lines[OF pipe_reproject pipe_build]
  have l: "length (Geometry pipe_sketch) \<le> 2 \<and> 2 < length (Geometry pipe_final)"
    by (simp add: pipe_sketch_def pipe_final_def)
  from T l obtain c g where cg:
    "Geometry pipe_final ! 2 = (LineSegment c (Vector 0 0 0), True)"
    "g \<in> set (map fst pipe_indices)"
    "filter (mentions (int 2)) (drop (length (Constraints empty_sketch)) (Constraints pipe_final)) =
       [(Coincident (int 2) 1 g 3, True), (Coincident (int 2) 2 (- 1) 1, True),
        (Block (int 2), True)]"
    by blast
  have c: "c = Vector 3 4 0" using cg(1) by (simp add: pipe_final_def)
  have "filter (mentions 2) (drop (length (Constraints empty_sketch)) (Constraints pipe_final)) =
      [(Coincident 2 1 1 3, True), (Coincident 2 2 (- 1) 1, True), (Block 2, True)]"
    by (simp add: pipe_final_def empty_sketch_def mentions_def)
  moreover have "map fst pipe_indices = [0, 1]" by (simp add: pipe_indices_def)
  moreover have "length (Geometry pipe_sketch) = 2" "length (Geometry pipe_final) = 3"
    by (simp_all add: pipe_sketch_def pipe_final_def)
  ultimately show ?thesis using pipe_reproject pipe_build cg(1) c by simp
qed

end
